(* ===== verification/Prelude.thy ===== *)
theory Prelude
  imports Main "HOL-Library.Word" "HOL-Library.Multiset" "HOL-Library.Monad_Syntax"
begin

text \<open>
  Shared vocabulary of the development: the Go integer types as words, byte
  slices as lists, the panic monad, and the generic lemmas on slices, little-
  and big-endian numbers and word arithmetic that the component theories use.

  A Go function that may panic has a result of type \<open>'a option\<close>: \<open>None\<close> is an
  access outside the length of a slice. Go panics there, or, where the slice
  has spare capacity, reads bytes that are no part of the message; the model
  treats both as the same failure. A Go error is a value of an error datatype,
  inside that option.
\<close>

unbundle bit_operations_syntax

type_synonym u8 = "8 word"
type_synonym u16 = "16 word"
type_synonym u32 = "32 word"
type_synonym u64 = "64 word"
type_synonym bytes = "u8 list"

text \<open>\<open>slice_simps\<close> evaluates slice expressions whose bounds are known to hold;
  \<open>codec_simps\<close> collects the closed forms of the decoders; \<open>align_simps\<close> the facts
  about four-byte alignment.\<close>

named_theorems slice_simps
named_theorems codec_simps
named_theorems align_simps

section \<open>Go slices\<close>

definition go_index :: "'a list \<Rightarrow> nat \<Rightarrow> 'a option" where
  "go_index xs i = (if i < length xs then Some (xs ! i) else None)"

definition go_slice :: "'a list \<Rightarrow> nat \<Rightarrow> nat \<Rightarrow> 'a list option" where
  "go_slice xs i j = (if i \<le> j \<and> j \<le> length xs then Some (take (j - i) (drop i xs)) else None)"

definition go_slice_from :: "'a list \<Rightarrow> nat \<Rightarrow> 'a list option" where
  "go_slice_from xs i = go_slice xs i (length xs)"

lemma go_index_Some [slice_simps]: "i < length xs \<Longrightarrow> go_index xs i = Some (xs ! i)"
  by (simp add: go_index_def)

lemma go_index_0_Some [slice_simps]: "Suc 0 \<le> length xs \<Longrightarrow> go_index xs 0 = Some (xs ! 0)"
  by (simp add: go_index_def Suc_le_eq)

lemma go_slice_Some [slice_simps]:
  "i \<le> j \<Longrightarrow> j \<le> length xs \<Longrightarrow> go_slice xs i j = Some (take (j - i) (drop i xs))"
  by (simp add: go_slice_def)

lemma go_slice_from_Some [slice_simps]:
  "i \<le> length xs \<Longrightarrow> go_slice_from xs i = Some (drop i xs)"
  by (simp add: go_slice_from_def go_slice_def)

lemma go_slice_None_iff: "go_slice xs i j = None \<longleftrightarrow> \<not> (i \<le> j \<and> j \<le> length xs)"
  by (simp add: go_slice_def)

lemma go_slice_length: "go_slice xs i j = Some ys \<Longrightarrow> length ys = j - i"
  by (auto simp: go_slice_def split: if_splits)

section \<open>Little- and big-endian numbers\<close>

text \<open>The byte order of \<open>encoding/binary\<close>: \<open>le_word\<close> reads bytes, least significant
  first, and \<open>le_bytes\<close> writes them; the big-endian pair is the reversed list.\<close>

fun le_word :: "bytes \<Rightarrow> 'a::len word" where
  "le_word [] = 0"
| "le_word (b # bs) = ucast b OR push_bit 8 (le_word bs)"

fun le_bytes :: "nat \<Rightarrow> 'a::len word \<Rightarrow> bytes" where
  "le_bytes 0 w = []"
| "le_bytes (Suc n) w = ucast w # le_bytes n (drop_bit 8 w)"

definition be_word :: "bytes \<Rightarrow> 'a::len word" where
  "be_word bs = le_word (rev bs)"

definition be_bytes :: "nat \<Rightarrow> 'a::len word \<Rightarrow> bytes" where
  "be_bytes n w = rev (le_bytes n w)"

lemma length_le_bytes [simp]: "length (le_bytes n w) = n"
  by (induction n arbitrary: w) auto

lemma length_be_bytes [simp]: "length (be_bytes n w) = n"
  by (simp add: be_bytes_def)

lemma le_word_le_bytes: "le_word (le_bytes n w) = take_bit (8 * n) (w :: 'a::len word)"
proof (induction n arbitrary: w)
  case 0
  then show ?case by simp
next
  case (Suc n)
  show ?case
    by (rule bit_word_eqI)
      (auto simp: Suc bit_simps not_le not_less algebra_simps dest: bit_imp_le_length)
qed

lemma le_word_le_bytes_id [simp]:
  "LENGTH('a) \<le> 8 * n \<Longrightarrow> le_word (le_bytes n w) = (w :: 'a::len word)"
  by (simp add: le_word_le_bytes take_bit_word_eq_self)

lemma be_word_be_bytes_id [simp]:
  "LENGTH('a) \<le> 8 * n \<Longrightarrow> be_word (be_bytes n w) = (w :: 'a::len word)"
  by (simp add: be_word_def be_bytes_def)

lemma le_bytes_le_word:
  "8 * length bs \<le> LENGTH('a) \<Longrightarrow> le_bytes (length bs) (le_word bs :: 'a::len word) = bs"
proof (induction bs)
  case Nil
  then show ?case by simp
next
  case (Cons b bs)
  have lo: "ucast (ucast b OR push_bit 8 (le_word bs) :: 'a word) = b"
    using Cons.prems by (intro bit_word_eqI) (auto simp: bit_simps)
  have "drop_bit 8 (ucast b OR push_bit 8 (le_word bs)) = (take_bit (LENGTH('a) - 8) (le_word bs) :: 'a word)"
    using Cons.prems by (intro bit_word_eqI) (auto simp: bit_simps dest: bit_imp_le_length)
  moreover have "take_bit (LENGTH('a) - 8) (le_word bs :: 'a word) = le_word bs"
  proof -
    have "le_word bs = (le_word (le_bytes (length bs) (le_word bs :: 'a word)) :: 'a word)"
      using Cons by simp
    then have "le_word bs = (take_bit (8 * length bs) (le_word bs) :: 'a word)"
      by (simp only: le_word_le_bytes)
    then have "take_bit (LENGTH('a) - 8) (le_word bs :: 'a word)
        = take_bit (LENGTH('a) - 8) (take_bit (8 * length bs) (le_word bs))"
      by simp
    also have "\<dots> = take_bit (8 * length bs) (le_word bs)"
      using Cons.prems by (simp add: min_absorb2)
    also have "\<dots> = le_word bs"
      using \<open>le_word bs = take_bit (8 * length bs) (le_word bs)\<close> by simp
    finally show ?thesis .
  qed
  ultimately show ?case
    using Cons lo by simp
qed

section \<open>Reading and writing fixed-width integers\<close>

text \<open>\<open>LE_Uint16 data i j\<close> is \<open>binary.LittleEndian.Uint16(data[i:j])\<close>: the slice
  expression fails outside the data and the read fails on fewer than two bytes.\<close>

definition LE_Uint :: "nat \<Rightarrow> bytes \<Rightarrow> nat \<Rightarrow> nat \<Rightarrow> 'a::len word option" where
  "LE_Uint k data i j =
     do { s \<leftarrow> go_slice data i j;
          if length s < k then None else Some (le_word (take k s)) }"

definition BE_Uint :: "nat \<Rightarrow> bytes \<Rightarrow> nat \<Rightarrow> nat \<Rightarrow> 'a::len word option" where
  "BE_Uint k data i j =
     do { s \<leftarrow> go_slice data i j;
          if length s < k then None else Some (be_word (take k s)) }"

abbreviation LE_Uint16 :: "bytes \<Rightarrow> nat \<Rightarrow> nat \<Rightarrow> u16 option" where
  "LE_Uint16 \<equiv> LE_Uint 2"

abbreviation LE_Uint32 :: "bytes \<Rightarrow> nat \<Rightarrow> nat \<Rightarrow> u32 option" where
  "LE_Uint32 \<equiv> LE_Uint 4"

abbreviation LE_Uint64 :: "bytes \<Rightarrow> nat \<Rightarrow> nat \<Rightarrow> u64 option" where
  "LE_Uint64 \<equiv> LE_Uint 8"

abbreviation BE_Uint16 :: "bytes \<Rightarrow> nat \<Rightarrow> nat \<Rightarrow> u16 option" where
  "BE_Uint16 \<equiv> BE_Uint 2"

abbreviation BE_Uint32 :: "bytes \<Rightarrow> nat \<Rightarrow> nat \<Rightarrow> u32 option" where
  "BE_Uint32 \<equiv> BE_Uint 4"

lemma LE_Uint_Some [slice_simps]:
  "i + k \<le> j \<Longrightarrow> j \<le> length data \<Longrightarrow> LE_Uint k data i j = Some (le_word (take k (drop i data)))"
  by (simp add: LE_Uint_def go_slice_Some)

lemma BE_Uint_Some [slice_simps]:
  "i + k \<le> j \<Longrightarrow> j \<le> length data \<Longrightarrow> BE_Uint k data i j = Some (be_word (take k (drop i data)))"
  by (simp add: BE_Uint_def go_slice_Some)

text \<open>\<open>go_put xs i ys\<close> overwrites \<open>ys\<close> into \<open>xs\<close> from offset \<open>i\<close>, as \<open>PutUint32\<close> and
  \<open>copy\<close> into \<open>xs[i:i+len(ys)]\<close> do.\<close>

definition go_put :: "'a list \<Rightarrow> nat \<Rightarrow> 'a list \<Rightarrow> 'a list option" where
  "go_put xs i ys = (if i + length ys \<le> length xs
     then Some (take i xs @ ys @ drop (i + length ys) xs) else None)"

lemma go_put_Some [slice_simps]:
  "i + length ys \<le> length xs \<Longrightarrow> go_put xs i ys = Some (take i xs @ ys @ drop (i + length ys) xs)"
  by (simp add: go_put_def)

lemma go_put_length: "go_put xs i ys = Some zs \<Longrightarrow> length zs = length xs"
  by (auto simp: go_put_def split: if_splits)

section \<open>Bit fields\<close>

lemma ucast_u8_mask:
  "k \<le> 8 \<Longrightarrow> (ucast (ucast (w AND mask k) :: u8) :: u32) = w AND mask k"
  by (intro bit_word_eqI) (auto simp: bit_simps)

lemmas ucast_u8_nibble [codec_simps] =
  ucast_u8_mask [of 2, simplified mask_eq_exp_minus_1, simplified]
  ucast_u8_mask [of 4, simplified mask_eq_exp_minus_1, simplified]

section \<open>Four-byte alignment\<close>

lemma and_3_mod_4 [align_simps]: "(n :: nat) AND 3 = n mod 4"
proof -
  have "n AND mask 2 = n mod 4"
    by (simp add: take_bit_eq_mask [symmetric] take_bit_eq_mod)
  then show ?thesis by (simp add: mask_eq_exp_minus_1)
qed

end
