(* ===== verification/Netlink_Header.thy ===== *)
theory Netlink_Header
  imports Prelude
begin

text \<open>
  The fixed headers of a netlink message (\<open>pkg/xtcpnl\<close>): the message header
  \<open>NlMsgHdr\<close>, the attribute header \<open>RTAttr\<close>, and the padding functions every
  walk over messages or attributes uses. A decoder that fills a struct through
  a pointer takes the struct's old value and returns the new one together with
  the call's result: \<open>Inl\<close> the error, \<open>Inr\<close> the number of bytes read.
\<close>

section \<open>Errors\<close>

datatype nl_error =
    ErrRTAttrSmall | ErrNlMsgHdrSmall | ErrInetDiagMsgSmall | ErrInetDiagSockIDSmall
  | ErrInetDiagReqV2Small | ErrMemInfoSmall | ErrTCPInfoSmall | ErrVegasInfoSmall
  | ErrCongInfoSmall | ErrTypeOfServiceSmall | ErrTrafficClassSmall | ErrSkMemInfoSmall
  | ErrShutdownSmall | ErrDCTCPInfoSmall | ErrBBRInfoSmall | ErrClassIDSmall
  | ErrCGroupIDSmall | ErrSockOptSmall | ErrPragueInfoSmall
  | ErrShortRecv | ErrBadMsgLen | ErrNetlinkError | ErrDumpInterrupted | ErrErrno u64
  | ErrNlMsgErrShort
  | ErrNotAGetRequest | ErrAttrNoSpace | ErrAttrTooLong | ErrBadFamilyHdr
  | ErrNotAnAdmittedWrite | ErrNestNotOpen
  | ErrBadIfName | ErrShortRequest | ErrSend | ErrRecv | ErrCallback nat | errTalkStopCst

section \<open>Padding\<close>

text \<open>Go's \<open>%\<close> truncates towards zero.\<close>

definition go_rem :: "int \<Rightarrow> int \<Rightarrow> int" where
  "go_rem a b = sgn a * (\<bar>a\<bar> mod \<bar>b\<bar>)"

definition byteAlignmentCst :: int where
  "byteAlignmentCst = 4"

definition FourByteAlignPadding :: "int \<Rightarrow> int" where
  "FourByteAlignPadding sz = (4 - (sz AND 3)) AND 3"

definition CalculatePadding :: "int \<Rightarrow> int" where
  "CalculatePadding sz =
     (if sz = 0 then 0
      else let rem = go_rem sz byteAlignmentCst in
        if rem = 0 then 0 else byteAlignmentCst - rem)"

definition nlmsgAlign :: "int \<Rightarrow> int" where
  "nlmsgAlign n = (n + 3) AND NOT 3"

lemma int_and_3 [align_simps]: "(n :: int) AND 3 = n mod 4"
proof -
  have "n AND mask 2 = n mod 4"
    by (simp add: take_bit_eq_mask [symmetric] take_bit_eq_mod)
  then show ?thesis by (simp add: mask_eq_exp_minus_1)
qed

lemma int_and_not_3 [align_simps]: "(n :: int) AND - 4 = n - n mod 4"
proof -
  have "Suc (Suc (m - 2)) = m" if "2 \<le> m" for m :: nat
    using that by simp
  then have "n AND NOT (mask 2) = push_bit 2 (drop_bit 2 n)"
    by (intro bit_eqI) (auto simp: bit_simps not_less)
  also have "\<dots> = n - n mod 4"
    by (simp add: push_bit_eq_mult drop_bit_eq_div minus_mod_eq_div_mult)
  finally show ?thesis by (simp add: mask_eq_exp_minus_1)
qed

lemma FourByteAlignPadding_mod [align_simps]: "FourByteAlignPadding n = (- n) mod 4"
  by (simp add: FourByteAlignPadding_def int_and_3 zmod_zminus1_eq_if)

lemma nlmsgAlign_eq_padding: "nlmsgAlign n = n + FourByteAlignPadding n"
proof -
  have "(n + 3) - (n + 3) mod 4 = n + (- n) mod 4" by presburger
  then show ?thesis by (simp add: nlmsgAlign_def int_and_not_3 FourByteAlignPadding_mod)
qed

text \<open>The padding of a length that is known to be a natural number, as the walkers use it.\<close>

definition pad4 :: "nat \<Rightarrow> nat" where
  "pad4 n = nat (FourByteAlignPadding (int n))"

lemma pad4_mod [align_simps]: "pad4 n = (4 - n mod 4) mod 4"
proof -
  have "(- int n) mod 4 = int ((4 - n mod 4) mod 4)"
    by (simp add: zmod_zminus1_eq_if zmod_int of_nat_diff)
  then show ?thesis by (simp add: pad4_def FourByteAlignPadding_mod)
qed

lemma pad4_less [simp]: "pad4 n < 4"
  by (simp add: pad4_mod)

lemma pad4_aligned [align_simps]: "(n + pad4 n) mod 4 = 0"
proof -
  have "int ((n + pad4 n) mod 4) = 0"
    by (simp add: pad4_def FourByteAlignPadding_mod zmod_int mod_simps)
  then show ?thesis by simp
qed

text \<open>
  The branchless padding equals the branching reference on every
  non-negative size; it is the least number of bytes that completes the size to
  a multiple of four.
\<close>

theorem padding_equivalence:
  assumes "0 \<le> sz"
  shows "FourByteAlignPadding sz = CalculatePadding sz
    \<and> 0 \<le> FourByteAlignPadding sz \<and> FourByteAlignPadding sz < 4
    \<and> (sz + FourByteAlignPadding sz) mod 4 = 0
    \<and> nlmsgAlign sz = sz + CalculatePadding sz"
proof -
  have eq: "FourByteAlignPadding sz = CalculatePadding sz"
  proof (cases "sz mod 4 = 0")
    case True
    then show ?thesis
      using assms by (simp add: FourByteAlignPadding_mod CalculatePadding_def go_rem_def
          byteAlignmentCst_def Let_def zmod_zminus1_eq_if)
  next
    case False
    then have "sz \<noteq> 0" by auto
    with False assms show ?thesis
      by (simp add: FourByteAlignPadding_mod CalculatePadding_def go_rem_def
          byteAlignmentCst_def Let_def zmod_zminus1_eq_if)
  qed
  have "(sz + FourByteAlignPadding sz) mod 4 = 0"
    by (simp add: FourByteAlignPadding_mod mod_simps)
  then show ?thesis
    using eq nlmsgAlign_eq_padding [of sz] FourByteAlignPadding_mod [of sz] by auto
qed

theorem padding_equivalence_witness:
  "FourByteAlignPadding 7 = 1 \<and> CalculatePadding 7 = 1 \<and> nlmsgAlign 7 = 8"
  using padding_equivalence [of 7] by (simp add: FourByteAlignPadding_mod)

section \<open>RTAttr\<close>

record RTAttr =
  rta_Len :: u16
  rta_Type :: u16

definition RTAttrSizeCst :: nat where
  "RTAttrSizeCst = 4"

definition DeserializeRTAttr :: "bytes \<Rightarrow> RTAttr \<Rightarrow> (RTAttr \<times> (nl_error + nat)) option" where
  "DeserializeRTAttr data rta =
     (if length data < RTAttrSizeCst then Some (rta, Inl ErrRTAttrSmall)
      else do {
        l \<leftarrow> LE_Uint16 data 0 2;
        t \<leftarrow> LE_Uint16 data 2 4;
        Some (rta\<lparr>rta_Len := l, rta_Type := t\<rparr>, Inr RTAttrSizeCst) })"

lemma DeserializeRTAttr_ok [codec_simps]:
  "4 \<le> length data \<Longrightarrow> DeserializeRTAttr data rta =
     Some (\<lparr>rta_Len = le_word (take 2 data), rta_Type = le_word (take 2 (drop 2 data))\<rparr>, Inr 4)"
  by (simp add: DeserializeRTAttr_def RTAttrSizeCst_def slice_simps)

lemma DeserializeRTAttr_small [codec_simps]:
  "length data < 4 \<Longrightarrow> DeserializeRTAttr data rta = Some (rta, Inl ErrRTAttrSmall)"
  by (simp add: DeserializeRTAttr_def RTAttrSizeCst_def)

section \<open>NlMsgHdr\<close>

record NlMsgHdr =
  nlh_Len :: u32
  nlh_Type :: u16
  nlh_Flags :: u16
  nlh_Seq :: u32
  nlh_Pid :: u32

definition NlMsgHdrSizeCst :: nat where
  "NlMsgHdrSizeCst = 16"

definition NlMsgHdrTypeInetDiagCst :: u16 where
  "NlMsgHdrTypeInetDiagCst = 20"

definition NlMsgHdrTypeDoneCst :: u16 where
  "NlMsgHdrTypeDoneCst = 3"

definition DeserializeNlMsgHdr :: "bytes \<Rightarrow> NlMsgHdr \<Rightarrow> (NlMsgHdr \<times> (nl_error + nat)) option" where
  "DeserializeNlMsgHdr data nlmsghr =
     (if length data < NlMsgHdrSizeCst then Some (nlmsghr, Inl ErrNlMsgHdrSmall)
      else do {
        l \<leftarrow> LE_Uint32 data 0 4;
        t \<leftarrow> LE_Uint16 data 4 6;
        f \<leftarrow> LE_Uint16 data 6 8;
        s \<leftarrow> LE_Uint32 data 8 12;
        p \<leftarrow> LE_Uint32 data 12 16;
        Some (nlmsghr\<lparr>nlh_Len := l, nlh_Type := t, nlh_Flags := f, nlh_Seq := s, nlh_Pid := p\<rparr>,
              Inr NlMsgHdrSizeCst) })"

text \<open>The header the first sixteen bytes of a buffer spell.\<close>

definition nlmsghdr_of :: "bytes \<Rightarrow> NlMsgHdr" where
  "nlmsghdr_of data =
     \<lparr>nlh_Len = le_word (take 4 data), nlh_Type = le_word (take 2 (drop 4 data)),
      nlh_Flags = le_word (take 2 (drop 6 data)), nlh_Seq = le_word (take 4 (drop 8 data)),
      nlh_Pid = le_word (take 4 (drop 12 data))\<rparr>"

lemma DeserializeNlMsgHdr_ok [codec_simps]:
  "16 \<le> length data \<Longrightarrow> DeserializeNlMsgHdr data h = Some (nlmsghdr_of data, Inr 16)"
  by (simp add: DeserializeNlMsgHdr_def NlMsgHdrSizeCst_def nlmsghdr_of_def slice_simps)

lemma DeserializeNlMsgHdr_small [codec_simps]:
  "length data < 16 \<Longrightarrow> DeserializeNlMsgHdr data h = Some (h, Inl ErrNlMsgHdrSmall)"
  by (simp add: DeserializeNlMsgHdr_def NlMsgHdrSizeCst_def)

lemma nlmsghdr_of_take [simp]: "16 \<le> n \<Longrightarrow> nlmsghdr_of (take n data) = nlmsghdr_of data"
  by (simp add: nlmsghdr_of_def drop_take min_absorb1)

text \<open>The inverse direction: the bytes a header is written as.\<close>

definition nlmsghdr_bytes :: "NlMsgHdr \<Rightarrow> bytes" where
  "nlmsghdr_bytes h = le_bytes 4 (nlh_Len h) @ le_bytes 2 (nlh_Type h) @ le_bytes 2 (nlh_Flags h)
     @ le_bytes 4 (nlh_Seq h) @ le_bytes 4 (nlh_Pid h)"

lemma length_nlmsghdr_bytes [simp]: "length (nlmsghdr_bytes h) = 16"
  by (simp add: nlmsghdr_bytes_def)

lemma nlmsghdr_of_bytes [simp]: "nlmsghdr_of (nlmsghdr_bytes h @ rest) = h"
  by (simp add: nlmsghdr_of_def nlmsghdr_bytes_def)

end
