(* ===== verification/Flat_Record.thy ===== *)
theory Flat_Record
  imports Prelude
begin

text \<open>
  \<open>XtcpFlatRecord\<close>, the row the daemon exports for one socket
  (\<open>gen/go/xtcp_flat_record\<close>, the struct generated from the proto file). The
  172 columns are declared as a chain of record extensions in the order of the
  struct, so the last record type is the flat struct. Field names are the Go
  names. A signed \<open>int64\<close> is kept as its 64-bit pattern.
\<close>

datatype Locality =
  LOCALITY_UNSPECIFIED | LOCALITY_SELF | LOCALITY_LOCAL_SUBNET | LOCALITY_REMOTE

datatype CongestionAlgorithm =
    CONGESTION_ALGORITHM_UNSPECIFIED | CONGESTION_ALGORITHM_CUBIC
  | CONGESTION_ALGORITHM_DCTCP | CONGESTION_ALGORITHM_VEGAS
  | CONGESTION_ALGORITHM_PRAGUE | CONGESTION_ALGORITHM_BBR1
  | CONGESTION_ALGORITHM_BBR2 | CONGESTION_ALGORITHM_BBR3

text \<open>The identity and provenance columns.\<close>

record XtcpMeta = 
  SchemaVersion :: u32
  DaemonVersion :: string
  TimestampNs :: u64
  Hostname :: string
  Location :: string
  Netns :: string
  NetnsInode :: u64
  Nsid :: u32
  ContainerId :: string
  ContainerRuntime :: string
  ContainerName :: string
  ContainerImage :: string
  Label :: string
  Tag :: string
  RecordCounter :: u64
  SocketFd :: u64
  NetlinkerId :: u64

text \<open>The uplink NIC and LLDP columns.\<close>

record XtcpUplink = XtcpMeta +
  Uplink1Ifname :: string
  Uplink1NicDriver :: string
  Uplink1NicModel :: string
  Uplink1NicPciVendor :: u32
  Uplink1NicPciDevice :: u32
  Uplink1NicBusInfo :: string
  Uplink1NicSpeedMbps :: u32
  Uplink1NicFwVersion :: string
  Uplink1LldpChassisName :: string
  Uplink1LldpChassisId :: string
  Uplink1LldpMgmtIp :: string
  Uplink1LldpPortId :: string
  Uplink1LldpPortDescr :: string
  Uplink2Ifname :: string
  Uplink2NicDriver :: string
  Uplink2NicModel :: string
  Uplink2NicPciVendor :: u32
  Uplink2NicPciDevice :: u32
  Uplink2NicBusInfo :: string
  Uplink2NicSpeedMbps :: u32
  Uplink2NicFwVersion :: string
  Uplink2LldpChassisName :: string
  Uplink2LldpChassisId :: string
  Uplink2LldpMgmtIp :: string
  Uplink2LldpPortId :: string
  Uplink2LldpPortDescr :: string

text \<open>The locality and ASN columns.\<close>

record XtcpEnrich = XtcpUplink +
  EnrichSocketInterfaceName :: string
  EnrichSocketDestLocality :: Locality
  EnrichSocketDestEgressIfindex :: u32
  EnrichSocketDestEgressIfname :: string
  EnrichSocketDestAsn :: u64
  EnrichSocketDestNextHopAsn :: u64
  EnrichSocketDestNetworkOwner :: string

text \<open>\<open>struct inet_diag_msg\<close>.\<close>

record XtcpDiagMsg = XtcpEnrich +
  InetDiagMsgFamily :: u32
  InetDiagMsgState :: u32
  InetDiagMsgTimer :: u32
  InetDiagMsgRetrans :: u32
  InetDiagMsgSocketSourcePort :: u32
  InetDiagMsgSocketDestinationPort :: u32
  InetDiagMsgSocketSource :: bytes
  InetDiagMsgSocketDestination :: bytes
  InetDiagMsgSocketInterface :: u32
  InetDiagMsgSocketCookie :: u64
  InetDiagMsgExpires :: u32
  InetDiagMsgRqueue :: u32
  InetDiagMsgWqueue :: u32
  InetDiagMsgUid :: u32
  InetDiagMsgInode :: u32

text \<open>\<open>INET_DIAG_MEMINFO\<close>.\<close>

record XtcpMemInfo = XtcpDiagMsg +
  MemInfoRmem :: u32
  MemInfoWmem :: u32
  MemInfoFmem :: u32
  MemInfoTmem :: u32

text \<open>\<open>struct tcp_info\<close> up to kernel 4.15.\<close>

record XtcpTcpInfo = XtcpMemInfo +
  TcpInfoState :: u32
  TcpInfoCaState :: u32
  TcpInfoRetransmits :: u32
  TcpInfoProbes :: u32
  TcpInfoBackoff :: u32
  TcpInfoOptions :: u32
  TcpInfoSndWscale :: u32
  TcpInfoRcvWscale :: u32
  TcpInfoDeliveryRateAppLimited :: u32
  TcpInfoFastopenClientFail :: u32
  TcpInfoRto :: u32
  TcpInfoAto :: u32
  TcpInfoSndMss :: u32
  TcpInfoRcvMss :: u32
  TcpInfoUnacked :: u32
  TcpInfoSacked :: u32
  TcpInfoLost :: u32
  TcpInfoRetrans :: u32
  TcpInfoFackets :: u32
  TcpInfoLastDataSent :: u32
  TcpInfoLastAckSent :: u32
  TcpInfoLastDataRecv :: u32
  TcpInfoLastAckRecv :: u32
  TcpInfoPmtu :: u32
  TcpInfoRcvSsthresh :: u32
  TcpInfoRtt :: u32
  TcpInfoRttvar :: u32
  TcpInfoSndSsthresh :: u32
  TcpInfoSndCwnd :: u32
  TcpInfoAdvmss :: u32
  TcpInfoReordering :: u32
  TcpInfoRcvRtt :: u32
  TcpInfoRcvSpace :: u32
  TcpInfoTotalRetrans :: u32
  TcpInfoPacingRate :: u64
  TcpInfoMaxPacingRate :: u64
  TcpInfoBytesAcked :: u64
  TcpInfoBytesReceived :: u64
  TcpInfoSegsOut :: u32
  TcpInfoSegsIn :: u32
  TcpInfoNotsentBytes :: u32
  TcpInfoMinRtt :: u32
  TcpInfoDataSegsIn :: u32
  TcpInfoDataSegsOut :: u32
  TcpInfoDeliveryRate :: u64
  TcpInfoBusyTime :: u64
  TcpInfoRwndLimited :: u64
  TcpInfoSndbufLimited :: u64

text \<open>The fields later kernels appended to \<open>struct tcp_info\<close>.\<close>

record XtcpTcpInfoTail = XtcpTcpInfo +
  TcpInfoDelivered :: u32
  TcpInfoDeliveredCe :: u32
  TcpInfoBytesSent :: u64
  TcpInfoBytesRetrans :: u64
  TcpInfoDsackDups :: u32
  TcpInfoReordSeen :: u32
  TcpInfoRcvOoopack :: u32
  TcpInfoSndWnd :: u32
  TcpInfoRcvWnd :: u32
  TcpInfoRehash :: u32
  TcpInfoTotalRto :: u32
  TcpInfoTotalRtoRecoveries :: u32
  TcpInfoTotalRtoTime :: u32
  TcpInfoReceivedCe :: u32
  TcpInfoDeliveredE1Bytes :: u32
  TcpInfoDeliveredE0Bytes :: u32
  TcpInfoDeliveredCeBytes :: u32
  TcpInfoReceivedE1Bytes :: u32
  TcpInfoReceivedE0Bytes :: u32
  TcpInfoReceivedCeBytes :: u32
  TcpInfoEcnMode :: u32
  TcpInfoAccecnOptSeen :: u32
  TcpInfoAccecnFailMode :: u32
  TcpInfoOptions2 :: u32

text \<open>The remaining attributes.\<close>

record XtcpFlatRecord = XtcpTcpInfoTail +
  InetDiagCong :: string
  InetDiagCongEnum :: CongestionAlgorithm
  InetDiagTos :: u32
  InetDiagTclass :: u32
  SkMemInfoRmemAlloc :: u32
  SkMemInfoRcvbuf :: u32
  SkMemInfoWmemAlloc :: u32
  SkMemInfoSndbuf :: u32
  SkMemInfoFwdAlloc :: u32
  SkMemInfoWmemQueued :: u32
  SkMemInfoOptmem :: u32
  SkMemInfoBacklog :: u32
  SkMemInfoDrops :: u32
  InetDiagShutdown :: u32
  VegasInfoEnabled :: u32
  VegasInfoRttcnt :: u32
  VegasInfoRtt :: u32
  VegasInfoMinrtt :: u32
  DctcpInfoEnabled :: u32
  DctcpInfoCeState :: u32
  DctcpInfoAlpha :: u32
  DctcpInfoAbEcn :: u32
  DctcpInfoAbTot :: u32
  BbrInfoBwLo :: u32
  BbrInfoBwHi :: u32
  BbrInfoMinRtt :: u32
  BbrInfoPacingGain :: u32
  BbrInfoCwndGain :: u32
  InetDiagClassId :: u32
  InetDiagSockopt :: u32
  InetDiagCgroupId :: u64

text \<open>\<open>Reset\<close> leaves the zero value of every column, which is also what a new
  struct holds.\<close>

definition zero_record :: XtcpFlatRecord where
  "zero_record = \<lparr>
     SchemaVersion = 0,
     DaemonVersion = [],
     TimestampNs = 0,
     Hostname = [],
     Location = [],
     Netns = [],
     NetnsInode = 0,
     Nsid = 0,
     ContainerId = [],
     ContainerRuntime = [],
     ContainerName = [],
     ContainerImage = [],
     Label = [],
     Tag = [],
     RecordCounter = 0,
     SocketFd = 0,
     NetlinkerId = 0,
     Uplink1Ifname = [],
     Uplink1NicDriver = [],
     Uplink1NicModel = [],
     Uplink1NicPciVendor = 0,
     Uplink1NicPciDevice = 0,
     Uplink1NicBusInfo = [],
     Uplink1NicSpeedMbps = 0,
     Uplink1NicFwVersion = [],
     Uplink1LldpChassisName = [],
     Uplink1LldpChassisId = [],
     Uplink1LldpMgmtIp = [],
     Uplink1LldpPortId = [],
     Uplink1LldpPortDescr = [],
     Uplink2Ifname = [],
     Uplink2NicDriver = [],
     Uplink2NicModel = [],
     Uplink2NicPciVendor = 0,
     Uplink2NicPciDevice = 0,
     Uplink2NicBusInfo = [],
     Uplink2NicSpeedMbps = 0,
     Uplink2NicFwVersion = [],
     Uplink2LldpChassisName = [],
     Uplink2LldpChassisId = [],
     Uplink2LldpMgmtIp = [],
     Uplink2LldpPortId = [],
     Uplink2LldpPortDescr = [],
     EnrichSocketInterfaceName = [],
     EnrichSocketDestLocality = LOCALITY_UNSPECIFIED,
     EnrichSocketDestEgressIfindex = 0,
     EnrichSocketDestEgressIfname = [],
     EnrichSocketDestAsn = 0,
     EnrichSocketDestNextHopAsn = 0,
     EnrichSocketDestNetworkOwner = [],
     InetDiagMsgFamily = 0,
     InetDiagMsgState = 0,
     InetDiagMsgTimer = 0,
     InetDiagMsgRetrans = 0,
     InetDiagMsgSocketSourcePort = 0,
     InetDiagMsgSocketDestinationPort = 0,
     InetDiagMsgSocketSource = [],
     InetDiagMsgSocketDestination = [],
     InetDiagMsgSocketInterface = 0,
     InetDiagMsgSocketCookie = 0,
     InetDiagMsgExpires = 0,
     InetDiagMsgRqueue = 0,
     InetDiagMsgWqueue = 0,
     InetDiagMsgUid = 0,
     InetDiagMsgInode = 0,
     MemInfoRmem = 0,
     MemInfoWmem = 0,
     MemInfoFmem = 0,
     MemInfoTmem = 0,
     TcpInfoState = 0,
     TcpInfoCaState = 0,
     TcpInfoRetransmits = 0,
     TcpInfoProbes = 0,
     TcpInfoBackoff = 0,
     TcpInfoOptions = 0,
     TcpInfoSndWscale = 0,
     TcpInfoRcvWscale = 0,
     TcpInfoDeliveryRateAppLimited = 0,
     TcpInfoFastopenClientFail = 0,
     TcpInfoRto = 0,
     TcpInfoAto = 0,
     TcpInfoSndMss = 0,
     TcpInfoRcvMss = 0,
     TcpInfoUnacked = 0,
     TcpInfoSacked = 0,
     TcpInfoLost = 0,
     TcpInfoRetrans = 0,
     TcpInfoFackets = 0,
     TcpInfoLastDataSent = 0,
     TcpInfoLastAckSent = 0,
     TcpInfoLastDataRecv = 0,
     TcpInfoLastAckRecv = 0,
     TcpInfoPmtu = 0,
     TcpInfoRcvSsthresh = 0,
     TcpInfoRtt = 0,
     TcpInfoRttvar = 0,
     TcpInfoSndSsthresh = 0,
     TcpInfoSndCwnd = 0,
     TcpInfoAdvmss = 0,
     TcpInfoReordering = 0,
     TcpInfoRcvRtt = 0,
     TcpInfoRcvSpace = 0,
     TcpInfoTotalRetrans = 0,
     TcpInfoPacingRate = 0,
     TcpInfoMaxPacingRate = 0,
     TcpInfoBytesAcked = 0,
     TcpInfoBytesReceived = 0,
     TcpInfoSegsOut = 0,
     TcpInfoSegsIn = 0,
     TcpInfoNotsentBytes = 0,
     TcpInfoMinRtt = 0,
     TcpInfoDataSegsIn = 0,
     TcpInfoDataSegsOut = 0,
     TcpInfoDeliveryRate = 0,
     TcpInfoBusyTime = 0,
     TcpInfoRwndLimited = 0,
     TcpInfoSndbufLimited = 0,
     TcpInfoDelivered = 0,
     TcpInfoDeliveredCe = 0,
     TcpInfoBytesSent = 0,
     TcpInfoBytesRetrans = 0,
     TcpInfoDsackDups = 0,
     TcpInfoReordSeen = 0,
     TcpInfoRcvOoopack = 0,
     TcpInfoSndWnd = 0,
     TcpInfoRcvWnd = 0,
     TcpInfoRehash = 0,
     TcpInfoTotalRto = 0,
     TcpInfoTotalRtoRecoveries = 0,
     TcpInfoTotalRtoTime = 0,
     TcpInfoReceivedCe = 0,
     TcpInfoDeliveredE1Bytes = 0,
     TcpInfoDeliveredE0Bytes = 0,
     TcpInfoDeliveredCeBytes = 0,
     TcpInfoReceivedE1Bytes = 0,
     TcpInfoReceivedE0Bytes = 0,
     TcpInfoReceivedCeBytes = 0,
     TcpInfoEcnMode = 0,
     TcpInfoAccecnOptSeen = 0,
     TcpInfoAccecnFailMode = 0,
     TcpInfoOptions2 = 0,
     InetDiagCong = [],
     InetDiagCongEnum = CONGESTION_ALGORITHM_UNSPECIFIED,
     InetDiagTos = 0,
     InetDiagTclass = 0,
     SkMemInfoRmemAlloc = 0,
     SkMemInfoRcvbuf = 0,
     SkMemInfoWmemAlloc = 0,
     SkMemInfoSndbuf = 0,
     SkMemInfoFwdAlloc = 0,
     SkMemInfoWmemQueued = 0,
     SkMemInfoOptmem = 0,
     SkMemInfoBacklog = 0,
     SkMemInfoDrops = 0,
     InetDiagShutdown = 0,
     VegasInfoEnabled = 0,
     VegasInfoRttcnt = 0,
     VegasInfoRtt = 0,
     VegasInfoMinrtt = 0,
     DctcpInfoEnabled = 0,
     DctcpInfoCeState = 0,
     DctcpInfoAlpha = 0,
     DctcpInfoAbEcn = 0,
     DctcpInfoAbTot = 0,
     BbrInfoBwLo = 0,
     BbrInfoBwHi = 0,
     BbrInfoMinRtt = 0,
     BbrInfoPacingGain = 0,
     BbrInfoCwndGain = 0,
     InetDiagClassId = 0,
     InetDiagSockopt = 0,
     InetDiagCgroupId = 0\<rparr>"

end
