(* ===== verification/Inet_Diag.thy ===== *)
theory Inet_Diag
  imports Netlink_Header Flat_Record
begin

text \<open>
  The payload decoders of the sock_diag replies (\<open>pkg/xtcpnl\<close>, one Go file per
  attribute): \<open>inet_diag_msg\<close> with its socket id, and every \<open>INET_DIAG_*\<close>
  attribute but \<open>tcp_info\<close>, which has its own theory. Each attribute has two
  decoders: one that fills a Go struct and one, with suffix \<open>XTCP\<close>, that writes
  the columns of the flat record directly. \<open>None\<close> is an access outside the
  slice; a Go error is part of the result.
\<close>

named_theorems size_cst

type_synonym xtcp_decoder =
  "bytes \<Rightarrow> XtcpFlatRecord \<Rightarrow> (XtcpFlatRecord \<times> nl_error option) option"

section \<open>The message and its socket id\<close>

record InetDiagSockID =
  sid_SPort :: u16
  sid_DPort :: u16
  sid_SrcIP :: bytes
  sid_DstIP :: bytes
  sid_Interface :: u32
  sid_Cookie :: u64

definition InetDiagSockIDSizeCst :: nat where
  "InetDiagSockIDSizeCst = 48"

text \<open>The conversion \<open>*((*[16]byte)(data[4:40]))\<close> panics on a slice shorter than 16
  bytes and keeps the first 16 of a longer one.\<close>

definition array16 :: "bytes \<Rightarrow> bytes option" where
  "array16 b = (if length b < 16 then None else Some (take 16 b))"

definition DeserializeInetDiagSockID ::
    "bytes \<Rightarrow> InetDiagSockID \<Rightarrow> (InetDiagSockID \<times> (nl_error + nat)) option" where
  "DeserializeInetDiagSockID data sockid =
     (if length data < InetDiagSockIDSizeCst then Some (sockid, Inl ErrInetDiagSockIDSmall)
      else do {
        v0 \<leftarrow> BE_Uint16 data 0 2; v2 \<leftarrow> BE_Uint16 data 2 4;
        s4 \<leftarrow> go_slice data 4 40; src \<leftarrow> array16 s4;
        s20 \<leftarrow> go_slice data 20 36; dst \<leftarrow> array16 s20;
        v36 \<leftarrow> LE_Uint32 data 36 40; v40 \<leftarrow> LE_Uint64 data 40 48;
        Some (sockid\<lparr>sid_SPort := v0, sid_DPort := v2, sid_SrcIP := src, sid_DstIP := dst,
          sid_Interface := v36, sid_Cookie := v40\<rparr>, Inr InetDiagSockIDSizeCst)
      })"

record InetDiagMsg =
  idm_Family :: u8
  idm_State :: u8
  idm_Timer :: u8
  idm_Retrans :: u8
  idm_SocketID :: InetDiagSockID
  idm_Expires :: u32
  idm_Rqueue :: u32
  idm_Wqueue :: u32
  idm_UID :: u32
  idm_Inode :: u32

definition InetDiagMsgSizeCst :: nat where
  "InetDiagMsgSizeCst = 72"

text \<open>The struct decoder fills two structs, the message and the caller's socket id.
  A failing socket id leaves the four leading bytes written.\<close>

definition DeserializeInetDiagMsg ::
    "bytes \<Rightarrow> InetDiagMsg \<Rightarrow> InetDiagSockID
      \<Rightarrow> (InetDiagMsg \<times> InetDiagSockID \<times> (nl_error + nat)) option" where
  "DeserializeInetDiagMsg data idm s =
     (if length data < InetDiagMsgSizeCst then Some (idm, s, Inl ErrInetDiagMsgSmall)
      else do {
        v0 \<leftarrow> go_index data 0; v1 \<leftarrow> go_index data 1;
        v2 \<leftarrow> go_index data 2; v3 \<leftarrow> go_index data 3;
        let idm = idm\<lparr>idm_Family := v0, idm_State := v1, idm_Timer := v2, idm_Retrans := v3\<rparr>;
        sd \<leftarrow> go_slice data 4 (4 + InetDiagSockIDSizeCst);
        (s, r) \<leftarrow> DeserializeInetDiagSockID sd s;
        case r of
          Inl errD \<Rightarrow> Some (idm, s, Inl errD)
        | Inr _ \<Rightarrow> do {
            v52 \<leftarrow> LE_Uint32 data 52 56; v56 \<leftarrow> LE_Uint32 data 56 60;
            v60 \<leftarrow> LE_Uint32 data 60 64; v64 \<leftarrow> LE_Uint32 data 64 68;
            v68 \<leftarrow> LE_Uint32 data 68 72;
            Some (idm\<lparr>idm_SocketID := s, idm_Expires := v52, idm_Rqueue := v56,
              idm_Wqueue := v60, idm_UID := v64, idm_Inode := v68\<rparr>, s, Inr InetDiagMsgSizeCst)
          }
      })"

definition DeserializeInetDiagSockIDXTCP :: xtcp_decoder where
  "DeserializeInetDiagSockIDXTCP data x =
     (if length data < InetDiagSockIDSizeCst then Some (x, Some ErrInetDiagSockIDSmall)
      else do {
        v0 \<leftarrow> BE_Uint16 data 0 2; v2 \<leftarrow> BE_Uint16 data 2 4;
        src \<leftarrow> go_slice data 4 20; dst \<leftarrow> go_slice data 20 36;
        v36 \<leftarrow> LE_Uint32 data 36 40; v40 \<leftarrow> LE_Uint64 data 40 48;
        Some (x\<lparr>InetDiagMsgSocketSourcePort := ucast v0,
          InetDiagMsgSocketDestinationPort := ucast v2,
          InetDiagMsgSocketSource := src, InetDiagMsgSocketDestination := dst,
          InetDiagMsgSocketInterface := v36, InetDiagMsgSocketCookie := v40\<rparr>, None)
      })"

definition DeserializeInetDiagMsgXTCP :: xtcp_decoder where
  "DeserializeInetDiagMsgXTCP data x =
     (if length data < InetDiagMsgSizeCst then Some (x, Some ErrInetDiagMsgSmall)
      else do {
        v0 \<leftarrow> go_index data 0; v1 \<leftarrow> go_index data 1;
        v2 \<leftarrow> go_index data 2; v3 \<leftarrow> go_index data 3;
        let x = x\<lparr>InetDiagMsgFamily := ucast v0, InetDiagMsgState := ucast v1,
          InetDiagMsgTimer := ucast v2, InetDiagMsgRetrans := ucast v3\<rparr>;
        sd \<leftarrow> go_slice data 4 (4 + InetDiagSockIDSizeCst);
        (x, e) \<leftarrow> DeserializeInetDiagSockIDXTCP sd x;
        case e of
          Some errD \<Rightarrow> Some (x, Some errD)
        | None \<Rightarrow> do {
            v52 \<leftarrow> LE_Uint32 data 52 56; v56 \<leftarrow> LE_Uint32 data 56 60;
            v60 \<leftarrow> LE_Uint32 data 60 64; v64 \<leftarrow> LE_Uint32 data 64 68;
            v68 \<leftarrow> LE_Uint32 data 68 72;
            Some (x\<lparr>InetDiagMsgExpires := v52, InetDiagMsgRqueue := v56,
              InetDiagMsgWqueue := v60, InetDiagMsgUid := v64, InetDiagMsgInode := v68\<rparr>, None)
          }
      })"

lemmas InetDiagMsg_sizes [size_cst] = InetDiagMsgSizeCst_def InetDiagSockIDSizeCst_def

section \<open>The attributes\<close>

text \<open>\<open>CongInfo\<close> (\<open>xtcpnl_inet_diag_conginfo.go\<close>): the struct decoder keeps the slice,
  the record decoder only the enum of a known algorithm prefix.\<close>

record CongInfo =
  ci_Cong :: bytes

definition CongInfoSizeCst :: nat where
  "CongInfoSizeCst = 4"

definition CongInfoEmumValueCst :: u16 where
  "CongInfoEmumValueCst = 4"

definition DeserializeCongInfo :: "bytes \<Rightarrow> CongInfo \<Rightarrow> (CongInfo \<times> (nl_error + nat)) option" where
  "DeserializeCongInfo data t =
     (if length data < CongInfoSizeCst then Some (t, Inl ErrCongInfoSmall)
      else Some (t\<lparr>ci_Cong := data\<rparr>, Inr (length data)))"

text \<open>The bytes of the four prefixes and the two version digits, in ASCII:
  \<open>cub\<close>, \<open>bbr\<close>, \<open>dct\<close>, \<open>veg\<close>, \<open>3\<close>, \<open>2\<close>.\<close>

definition DeserializeCongInfoXTCP :: xtcp_decoder where
  "DeserializeCongInfoXTCP data x =
     (if length data < CongInfoSizeCst then Some (x, Some ErrCongInfoSmall)
      else do {
        p \<leftarrow> go_slice data 0 3;
        v3 \<leftarrow> (if 4 \<le> length data then go_index data 3 else Some 0);
        Some (if p = [99, 117, 98] then x\<lparr>InetDiagCongEnum := CONGESTION_ALGORITHM_CUBIC\<rparr>
              else if p = [98, 98, 114] then
                (if 4 \<le> length data \<and> v3 = 51 then x\<lparr>InetDiagCongEnum := CONGESTION_ALGORITHM_BBR3\<rparr>
                 else if 4 \<le> length data \<and> v3 = 50 then x\<lparr>InetDiagCongEnum := CONGESTION_ALGORITHM_BBR2\<rparr>
                 else x\<lparr>InetDiagCongEnum := CONGESTION_ALGORITHM_BBR1\<rparr>)
              else if p = [100, 99, 116] then x\<lparr>InetDiagCongEnum := CONGESTION_ALGORITHM_DCTCP\<rparr>
              else if p = [118, 101, 103] then x\<lparr>InetDiagCongEnum := CONGESTION_ALGORITHM_VEGAS\<rparr>
              else x, None)
      })"

lemmas CongInfo_sizes [size_cst] = CongInfoSizeCst_def

text \<open>\<open>MemInfo\<close> (\<open>xtcpnl_inet_diag_meminfo.go\<close>).\<close>

record MemInfo =
  mi_Rmem :: u32
  mi_Wmem :: u32
  mi_Fmem :: u32
  mi_Tmem :: u32

definition MemInfoSizeCst :: nat where
  "MemInfoSizeCst = 16"

definition MemInfoReadCst :: nat where
  "MemInfoReadCst = MemInfoSizeCst"

definition MemInfoEmumValueCst :: u16 where
  "MemInfoEmumValueCst = 1"

definition DeserializeMemInfo :: "bytes \<Rightarrow> MemInfo \<Rightarrow> (MemInfo \<times> (nl_error + nat)) option" where
  "DeserializeMemInfo data t =
     (if length data < MemInfoSizeCst then Some (t, Inl ErrMemInfoSmall)
      else do {
        v0 \<leftarrow> LE_Uint32 data 0 4; v4 \<leftarrow> LE_Uint32 data 4 8;
        v8 \<leftarrow> LE_Uint32 data 8 12; v12 \<leftarrow> LE_Uint32 data 12 16;
        Some (t\<lparr>mi_Rmem := v0, mi_Wmem := v4, mi_Fmem := v8, mi_Tmem := v12\<rparr>, Inr MemInfoReadCst)
      })"

definition DeserializeMemInfoXTCP :: xtcp_decoder where
  "DeserializeMemInfoXTCP data x =
     (if length data < MemInfoSizeCst then Some (x, Some ErrMemInfoSmall)
      else do {
        v0 \<leftarrow> LE_Uint32 data 0 4; v4 \<leftarrow> LE_Uint32 data 4 8;
        v8 \<leftarrow> LE_Uint32 data 8 12; v12 \<leftarrow> LE_Uint32 data 12 16;
        Some (x\<lparr>MemInfoRmem := v0, MemInfoWmem := v4, MemInfoFmem := v8, MemInfoTmem := v12\<rparr>, None)
      })"

lemmas MemInfo_sizes [size_cst] = MemInfoSizeCst_def MemInfoReadCst_def

text \<open>\<open>VegasInfo\<close> (\<open>xtcpnl_inet_diag_vegasinfo.go\<close>).\<close>

record VegasInfo =
  vi_Enabled :: u32
  vi_RttCnt :: u32
  vi_Rtt :: u32
  vi_MinRtt :: u32

definition VegasInfoSizeCst :: nat where
  "VegasInfoSizeCst = 16"

definition VegasInfoReadCst :: nat where
  "VegasInfoReadCst = VegasInfoSizeCst"

definition VegasInfoEnumValueCst :: u16 where
  "VegasInfoEnumValueCst = 3"

definition DeserializeVegasInfo :: "bytes \<Rightarrow> VegasInfo \<Rightarrow> (VegasInfo \<times> (nl_error + nat)) option" where
  "DeserializeVegasInfo data t =
     (if length data < VegasInfoSizeCst then Some (t, Inl ErrVegasInfoSmall)
      else do {
        v0 \<leftarrow> LE_Uint32 data 0 4; v4 \<leftarrow> LE_Uint32 data 4 8;
        v8 \<leftarrow> LE_Uint32 data 8 12; v12 \<leftarrow> LE_Uint32 data 12 16;
        Some (t\<lparr>vi_Enabled := v0, vi_RttCnt := v4, vi_Rtt := v8, vi_MinRtt := v12\<rparr>, Inr VegasInfoReadCst)
      })"

definition DeserializeVegasInfoXTCP :: xtcp_decoder where
  "DeserializeVegasInfoXTCP data x =
     (if length data < VegasInfoSizeCst then Some (x, Some ErrVegasInfoSmall)
      else do {
        v0 \<leftarrow> LE_Uint32 data 0 4; v4 \<leftarrow> LE_Uint32 data 4 8;
        v8 \<leftarrow> LE_Uint32 data 8 12; v12 \<leftarrow> LE_Uint32 data 12 16;
        Some (x\<lparr>VegasInfoEnabled := v0, VegasInfoRttcnt := v4, VegasInfoRtt := v8,
          VegasInfoMinrtt := v12\<rparr>, None)
      })"

lemmas VegasInfo_sizes [size_cst] = VegasInfoSizeCst_def VegasInfoReadCst_def

definition ZeroizeVegasInfoXTCP :: "XtcpFlatRecord \<Rightarrow> XtcpFlatRecord" where
  "ZeroizeVegasInfoXTCP x =
     x\<lparr>VegasInfoEnabled := 0, VegasInfoRttcnt := 0, VegasInfoRtt := 0,
          VegasInfoMinrtt := 0\<rparr>"

text \<open>\<open>TypeOfService\<close> (\<open>xtcpnl_inet_diag_tosinfo.go\<close>).\<close>

type_synonym TypeOfService = u8

definition TypeOfServiceSizeCst :: nat where
  "TypeOfServiceSizeCst = 1"

definition TypeOfServiceEmumValueCst :: u16 where
  "TypeOfServiceEmumValueCst = 5"

definition DeserializeTypeOfService :: "bytes \<Rightarrow> TypeOfService \<Rightarrow> (TypeOfService \<times> (nl_error + nat)) option" where
  "DeserializeTypeOfService data t =
     (if length data < TypeOfServiceSizeCst then Some (t, Inl ErrTypeOfServiceSmall)
      else do {
        v0 \<leftarrow> go_index data 0;
        Some (v0, Inr TypeOfServiceSizeCst)
      })"

definition DeserializeTypeOfServiceXTCP :: xtcp_decoder where
  "DeserializeTypeOfServiceXTCP data x =
     (if length data < TypeOfServiceSizeCst then Some (x, Some ErrTypeOfServiceSmall)
      else do {
        v0 \<leftarrow> go_index data 0;
        Some (x\<lparr>InetDiagTos := ucast v0\<rparr>, None)
      })"

lemmas TypeOfService_sizes [size_cst] = TypeOfServiceSizeCst_def

text \<open>\<open>TrafficClass\<close> (\<open>xtcpnl_inet_diag_tcclass_info.go\<close>).\<close>

type_synonym TrafficClass = u8

definition TrafficClassSizeCst :: nat where
  "TrafficClassSizeCst = 1"

definition TrafficClassMinSizeCst :: nat where
  "TrafficClassMinSizeCst = TrafficClassSizeCst"

definition TrafficClassEmumValueCst :: u16 where
  "TrafficClassEmumValueCst = 6"

definition DeserializeTrafficClass :: "bytes \<Rightarrow> TrafficClass \<Rightarrow> (TrafficClass \<times> (nl_error + nat)) option" where
  "DeserializeTrafficClass data t =
     (if length data < TrafficClassMinSizeCst then Some (t, Inl ErrTrafficClassSmall)
      else do {
        v0 \<leftarrow> go_index data 0;
        Some (v0, Inr TrafficClassSizeCst)
      })"

definition DeserializeTrafficClassXTCP :: xtcp_decoder where
  "DeserializeTrafficClassXTCP data x =
     (if length data < TrafficClassMinSizeCst then Some (x, Some ErrTrafficClassSmall)
      else do {
        v0 \<leftarrow> go_index data 0;
        Some (x\<lparr>InetDiagTclass := ucast v0\<rparr>, None)
      })"

lemmas TrafficClass_sizes [size_cst] = TrafficClassSizeCst_def TrafficClassMinSizeCst_def

text \<open>\<open>SkMemInfo\<close> (\<open>xtcpnl_inet_diag_skmeminfo.go\<close>).\<close>

record SkMemInfo =
  sm_RmemAlloc :: u32
  sm_RcvBuf :: u32
  sm_WmemAlloc :: u32
  sm_SndBuf :: u32
  sm_FwdAlloc :: u32
  sm_WmemQueued :: u32
  sm_Optmem :: u32
  sm_Backlog :: u32
  sm_Drops :: u32

definition SkMemInfoSizeCst :: nat where
  "SkMemInfoSizeCst = 36"

definition SkMemInfoMinSizeCst :: nat where
  "SkMemInfoMinSizeCst = SkMemInfoSizeCst"

definition SkMemInfoEnumValueCst :: u16 where
  "SkMemInfoEnumValueCst = 7"

definition DeserializeSkMemInfo :: "bytes \<Rightarrow> SkMemInfo \<Rightarrow> (SkMemInfo \<times> (nl_error + nat)) option" where
  "DeserializeSkMemInfo data t =
     (if length data < SkMemInfoMinSizeCst then Some (t, Inl ErrSkMemInfoSmall)
      else do {
        v0 \<leftarrow> LE_Uint32 data 0 4; v4 \<leftarrow> LE_Uint32 data 4 8;
        v8 \<leftarrow> LE_Uint32 data 8 12; v12 \<leftarrow> LE_Uint32 data 12 16;
        v16 \<leftarrow> LE_Uint32 data 16 20; v20 \<leftarrow> LE_Uint32 data 20 24;
        v24 \<leftarrow> LE_Uint32 data 24 28; v28 \<leftarrow> LE_Uint32 data 28 32;
        v32 \<leftarrow> LE_Uint32 data 32 36;
        Some (t\<lparr>sm_RmemAlloc := v0, sm_RcvBuf := v4, sm_WmemAlloc := v8, sm_SndBuf := v12,
          sm_FwdAlloc := v16, sm_WmemQueued := v20, sm_Optmem := v24, sm_Backlog := v28,
          sm_Drops := v32\<rparr>, Inr SkMemInfoSizeCst)
      })"

definition DeserializeSkMemInfoXTCP :: xtcp_decoder where
  "DeserializeSkMemInfoXTCP data x =
     (if length data < SkMemInfoMinSizeCst then Some (x, Some ErrSkMemInfoSmall)
      else do {
        v0 \<leftarrow> LE_Uint32 data 0 4; v4 \<leftarrow> LE_Uint32 data 4 8;
        v8 \<leftarrow> LE_Uint32 data 8 12; v12 \<leftarrow> LE_Uint32 data 12 16;
        v16 \<leftarrow> LE_Uint32 data 16 20; v20 \<leftarrow> LE_Uint32 data 20 24;
        v24 \<leftarrow> LE_Uint32 data 24 28; v28 \<leftarrow> LE_Uint32 data 28 32;
        v32 \<leftarrow> LE_Uint32 data 32 36;
        Some (x\<lparr>SkMemInfoRmemAlloc := v0, SkMemInfoRcvbuf := v4, SkMemInfoWmemAlloc := v8,
          SkMemInfoSndbuf := v12, SkMemInfoFwdAlloc := v16, SkMemInfoWmemQueued := v20,
          SkMemInfoOptmem := v24, SkMemInfoBacklog := v28, SkMemInfoDrops := v32\<rparr>, None)
      })"

lemmas SkMemInfo_sizes [size_cst] = SkMemInfoSizeCst_def SkMemInfoMinSizeCst_def

text \<open>\<open>Shutdown\<close> (\<open>xtcpnl_inet_diag_shutdown.go\<close>).\<close>

type_synonym Shutdown = u8

definition ShutdownSizeCst :: nat where
  "ShutdownSizeCst = 1"

definition ShutdownMinSizeCst :: nat where
  "ShutdownMinSizeCst = ShutdownSizeCst"

definition ShutdownEmumValueCst :: u16 where
  "ShutdownEmumValueCst = 8"

definition DeserializeShutdown :: "bytes \<Rightarrow> Shutdown \<Rightarrow> (Shutdown \<times> (nl_error + nat)) option" where
  "DeserializeShutdown data t =
     (if length data < ShutdownMinSizeCst then Some (t, Inl ErrShutdownSmall)
      else do {
        v0 \<leftarrow> go_index data 0;
        Some (v0, Inr ShutdownSizeCst)
      })"

definition DeserializeShutdownXTCP :: xtcp_decoder where
  "DeserializeShutdownXTCP data x =
     (if length data < ShutdownMinSizeCst then Some (x, Some ErrShutdownSmall)
      else do {
        v0 \<leftarrow> go_index data 0;
        Some (x\<lparr>InetDiagShutdown := ucast v0\<rparr>, None)
      })"

lemmas Shutdown_sizes [size_cst] = ShutdownSizeCst_def ShutdownMinSizeCst_def

text \<open>\<open>DCTCPInfo\<close> (\<open>xtcpnl_inet_diag_dctcpinfo.go\<close>).\<close>

record DCTCPInfo =
  dc_Enabled :: u16
  dc_CEState :: u16
  dc_Alpha :: u32
  dc_ABECN :: u32
  dc_ABTOT :: u32

definition DCTCPInfoSizeCst :: nat where
  "DCTCPInfoSizeCst = 16"

definition DCTCPInfoReadCst :: nat where
  "DCTCPInfoReadCst = DCTCPInfoSizeCst"

definition DCTCPInfoEnumValueCst :: u16 where
  "DCTCPInfoEnumValueCst = 9"

definition DeserializeDCTCPInfo :: "bytes \<Rightarrow> DCTCPInfo \<Rightarrow> (DCTCPInfo \<times> (nl_error + nat)) option" where
  "DeserializeDCTCPInfo data t =
     (if length data < DCTCPInfoSizeCst then Some (t, Inl ErrDCTCPInfoSmall)
      else do {
        v0 \<leftarrow> LE_Uint16 data 0 2; v2 \<leftarrow> LE_Uint16 data 2 4;
        v4 \<leftarrow> LE_Uint32 data 4 8; v8 \<leftarrow> LE_Uint32 data 8 12;
        v12 \<leftarrow> LE_Uint32 data 12 16;
        Some (t\<lparr>dc_Enabled := v0, dc_CEState := v2, dc_Alpha := v4, dc_ABECN := v8,
          dc_ABTOT := v12\<rparr>, Inr DCTCPInfoReadCst)
      })"

definition DeserializeDCTCPInfoXTCP :: xtcp_decoder where
  "DeserializeDCTCPInfoXTCP data x =
     (if length data < DCTCPInfoSizeCst then Some (x, Some ErrDCTCPInfoSmall)
      else do {
        v0 \<leftarrow> LE_Uint16 data 0 2; v2 \<leftarrow> LE_Uint16 data 2 4;
        v4 \<leftarrow> LE_Uint32 data 4 8; v8 \<leftarrow> LE_Uint32 data 8 12;
        v12 \<leftarrow> LE_Uint32 data 12 16;
        Some (x\<lparr>DctcpInfoEnabled := ucast v0, DctcpInfoCeState := ucast v2, DctcpInfoAlpha := v4,
          DctcpInfoAbEcn := v8, DctcpInfoAbTot := v12\<rparr>, None)
      })"

lemmas DCTCPInfo_sizes [size_cst] = DCTCPInfoSizeCst_def DCTCPInfoReadCst_def

definition ZeroizeDCTCPInfoXTCP :: "XtcpFlatRecord \<Rightarrow> XtcpFlatRecord" where
  "ZeroizeDCTCPInfoXTCP x =
     x\<lparr>DctcpInfoEnabled := 0, DctcpInfoCeState := 0, DctcpInfoAlpha := 0,
          DctcpInfoAbEcn := 0, DctcpInfoAbTot := 0\<rparr>"

text \<open>\<open>BBRInfo\<close> (\<open>xtcpnl_inet_diag_bbrinfo.go\<close>).\<close>

record BBRInfo =
  bb_BwLo :: u32
  bb_BwHi :: u32
  bb_MinRtt :: u32
  bb_PacingGain :: u32
  bb_CwndGain :: u32

definition BBRInfoSizeCst :: nat where
  "BBRInfoSizeCst = 20"

definition BBRInfoReadCst :: nat where
  "BBRInfoReadCst = BBRInfoSizeCst"

definition BBRInfoEnumValueCst :: u16 where
  "BBRInfoEnumValueCst = 16"

definition DeserializeBBRInfo :: "bytes \<Rightarrow> BBRInfo \<Rightarrow> (BBRInfo \<times> (nl_error + nat)) option" where
  "DeserializeBBRInfo data t =
     (if length data < BBRInfoSizeCst then Some (t, Inl ErrBBRInfoSmall)
      else do {
        v0 \<leftarrow> LE_Uint32 data 0 4; v4 \<leftarrow> LE_Uint32 data 4 8;
        v8 \<leftarrow> LE_Uint32 data 8 12; v12 \<leftarrow> LE_Uint32 data 12 16;
        v16 \<leftarrow> LE_Uint32 data 16 20;
        Some (t\<lparr>bb_BwLo := v0, bb_BwHi := v4, bb_MinRtt := v8, bb_PacingGain := v12,
          bb_CwndGain := v16\<rparr>, Inr BBRInfoReadCst)
      })"

definition DeserializeBBRInfoXTCP :: xtcp_decoder where
  "DeserializeBBRInfoXTCP data x =
     (if length data < BBRInfoSizeCst then Some (x, Some ErrBBRInfoSmall)
      else do {
        v0 \<leftarrow> LE_Uint32 data 0 4; v4 \<leftarrow> LE_Uint32 data 4 8;
        v8 \<leftarrow> LE_Uint32 data 8 12; v12 \<leftarrow> LE_Uint32 data 12 16;
        v16 \<leftarrow> LE_Uint32 data 16 20;
        Some (x\<lparr>BbrInfoBwLo := v0, BbrInfoBwHi := v4, BbrInfoMinRtt := v8,
          BbrInfoPacingGain := v12, BbrInfoCwndGain := v16\<rparr>, None)
      })"

lemmas BBRInfo_sizes [size_cst] = BBRInfoSizeCst_def BBRInfoReadCst_def

definition ZeroizeBBRInfoXTCP :: "XtcpFlatRecord \<Rightarrow> XtcpFlatRecord" where
  "ZeroizeBBRInfoXTCP x =
     x\<lparr>BbrInfoBwLo := 0, BbrInfoBwHi := 0, BbrInfoMinRtt := 0, BbrInfoPacingGain := 0,
          BbrInfoCwndGain := 0\<rparr>"

text \<open>\<open>ClassID\<close> (\<open>xtcpnl_inet_diag_classid.go\<close>).\<close>

type_synonym ClassID = u32

definition ClassIDSizeCst :: nat where
  "ClassIDSizeCst = 4"

definition ClassIDEnumValueCst :: u16 where
  "ClassIDEnumValueCst = 17"

definition DeserializeClassID :: "bytes \<Rightarrow> ClassID \<Rightarrow> (ClassID \<times> (nl_error + nat)) option" where
  "DeserializeClassID data t =
     (if length data < ClassIDSizeCst then Some (t, Inl ErrClassIDSmall)
      else do {
        v0 \<leftarrow> LE_Uint32 data 0 4;
        Some (v0, Inr (length data))
      })"

definition DeserializeClassIDXTCP :: xtcp_decoder where
  "DeserializeClassIDXTCP data x =
     (if length data < ClassIDSizeCst then Some (x, Some ErrClassIDSmall)
      else do {
        v0 \<leftarrow> LE_Uint32 data 0 4;
        Some (x\<lparr>InetDiagClassId := v0\<rparr>, None)
      })"

lemmas ClassID_sizes [size_cst] = ClassIDSizeCst_def

text \<open>\<open>CGroupID\<close> (\<open>xtcpnl_inet_diag_cgroupid.go\<close>).\<close>

type_synonym CGroupID = u64

definition CGroupIDSizeCst :: nat where
  "CGroupIDSizeCst = 8"

definition CGroupIDEnumValueCst :: u16 where
  "CGroupIDEnumValueCst = 21"

definition DeserializeCGroupID :: "bytes \<Rightarrow> CGroupID \<Rightarrow> (CGroupID \<times> (nl_error + nat)) option" where
  "DeserializeCGroupID data t =
     (if length data < CGroupIDSizeCst then Some (t, Inl ErrCGroupIDSmall)
      else do {
        v0 \<leftarrow> LE_Uint64 data 0 8;
        Some (v0, Inr CGroupIDSizeCst)
      })"

definition DeserializeCGroupIDXTCP :: xtcp_decoder where
  "DeserializeCGroupIDXTCP data x =
     (if length data < CGroupIDSizeCst then Some (x, Some ErrCGroupIDSmall)
      else do {
        v0 \<leftarrow> LE_Uint64 data 0 8;
        Some (x\<lparr>InetDiagCgroupId := v0\<rparr>, None)
      })"

lemmas CGroupID_sizes [size_cst] = CGroupIDSizeCst_def

text \<open>\<open>SockOpt\<close> (\<open>xtcpnl_inet_diag_sockopt.go\<close>).\<close>

type_synonym SockOpt = u16

definition SockOptSizeCst :: nat where
  "SockOptSizeCst = 2"

definition SockOptReadCst :: nat where
  "SockOptReadCst = SockOptSizeCst"

definition SockOptEnumValueCst :: u16 where
  "SockOptEnumValueCst = 22"

definition DeserializeSockOpt :: "bytes \<Rightarrow> SockOpt \<Rightarrow> (SockOpt \<times> (nl_error + nat)) option" where
  "DeserializeSockOpt data t =
     (if length data < SockOptSizeCst then Some (t, Inl ErrSockOptSmall)
      else do {
        v0 \<leftarrow> LE_Uint16 data 0 2;
        Some (v0, Inr SockOptReadCst)
      })"

definition DeserializeSockOptXTCP :: xtcp_decoder where
  "DeserializeSockOptXTCP data x =
     (if length data < SockOptSizeCst then Some (x, Some ErrSockOptSmall)
      else do {
        v0 \<leftarrow> LE_Uint16 data 0 2;
        Some (x\<lparr>InetDiagSockopt := ucast v0\<rparr>, None)
      })"

lemmas SockOpt_sizes [size_cst] = SockOptSizeCst_def SockOptReadCst_def

text \<open>\<open>PragueInfo\<close> (\<open>xtcpnl_inet_diag_pragueinfo.go\<close>).\<close>

record PragueInfo =
  pg_Alpha :: u64
  pg_FracCwnd :: u64
  pg_RateBytes :: u64
  pg_MaxBurst :: u32
  pg_Round :: u32
  pg_RttTarget :: u32

definition PragueInfoSizeCst :: nat where
  "PragueInfoSizeCst = 36"

definition PragueInfoReadCst :: nat where
  "PragueInfoReadCst = PragueInfoSizeCst"

definition PragueInfoEnumValueCst :: u16 where
  "PragueInfoEnumValueCst = 23"

definition DeserializePragueInfo :: "bytes \<Rightarrow> PragueInfo \<Rightarrow> (PragueInfo \<times> (nl_error + nat)) option" where
  "DeserializePragueInfo data t =
     (if length data < PragueInfoSizeCst then Some (t, Inl ErrPragueInfoSmall)
      else do {
        v0 \<leftarrow> LE_Uint64 data 0 8; v8 \<leftarrow> LE_Uint64 data 8 16;
        v16 \<leftarrow> LE_Uint64 data 16 24; v24 \<leftarrow> LE_Uint32 data 24 28;
        v28 \<leftarrow> LE_Uint32 data 28 32; v32 \<leftarrow> LE_Uint32 data 32 36;
        Some (t\<lparr>pg_Alpha := v0, pg_FracCwnd := v8, pg_RateBytes := v16, pg_MaxBurst := v24,
          pg_Round := v28, pg_RttTarget := v32\<rparr>, Inr PragueInfoReadCst)
      })"

lemmas PragueInfo_sizes [size_cst] = PragueInfoSizeCst_def PragueInfoReadCst_def

section \<open>The contract of an attribute decoder\<close>

text \<open>Every record decoder rejects a payload below its minimum size and leaves the
  record alone, and fills the record from any longer payload. The message loop
  relies on nothing else.\<close>

locale attr_decoder =
  fixes dec :: xtcp_decoder and minsz :: nat and small_err :: nl_error
  assumes dec_small: "length data < minsz \<Longrightarrow> dec data x = Some (x, Some small_err)"
    and dec_fills: "minsz \<le> length data \<Longrightarrow> \<exists>x'. dec data x = Some (x', None)"
begin

lemma dec_total: "\<exists>x' e. dec data x = Some (x', e)"
  by (cases "length data < minsz") (use dec_small dec_fills in \<open>fastforce simp: not_less\<close>)+

lemma dec_cases:
  "dec data x = Some (x', e) \<Longrightarrow>
     (length data < minsz \<and> x' = x \<and> e = Some small_err) \<or> (minsz \<le> length data \<and> e = None)"
  by (cases "length data < minsz") (use dec_small dec_fills [of data x] in \<open>auto simp: not_less\<close>)

end

text \<open>What decoding into a struct and copying the struct would do to the record.\<close>

definition via_struct ::
    "('s \<Rightarrow> XtcpFlatRecord \<Rightarrow> XtcpFlatRecord) \<Rightarrow> XtcpFlatRecord \<Rightarrow> 's \<times> (nl_error + nat)
      \<Rightarrow> XtcpFlatRecord \<times> nl_error option" where
  "via_struct put x sr = (case snd sr of Inl e \<Rightarrow> (x, Some e) | Inr _ \<Rightarrow> (put (fst sr) x, None))"

text \<open>A struct decoder and a record decoder of the same attribute agree when the record
  decoder does what copying the filled struct into the columns would do.\<close>

locale twin_decoder = attr_decoder dec minsz small_err
  for dec :: xtcp_decoder and minsz :: nat and small_err :: nl_error +
  fixes sdec :: "bytes \<Rightarrow> 's \<Rightarrow> ('s \<times> (nl_error + nat)) option"
    and put :: "'s \<Rightarrow> XtcpFlatRecord \<Rightarrow> XtcpFlatRecord"
  assumes sdec_small: "length data < minsz \<Longrightarrow> sdec data s = Some (s, Inl small_err)"
    and sdec_put: "minsz \<le> length data \<Longrightarrow>
      \<exists>s' n. sdec data s = Some (s', Inr n) \<and> dec data x = Some (put s' x, None)"
begin

lemma dec_via_struct: "dec data x = map_option (via_struct put x) (sdec data s)"
  by (cases "length data < minsz")
    (use dec_small sdec_small sdec_put [of data s x] in \<open>auto simp: not_less via_struct_def\<close>)

text \<open>What copying the struct commutes with or leaves alone, the decoder does too.\<close>

lemma dec_commutes:
  assumes "\<And>s r. put s (g r) = g (put s r)"
  shows "fst (the (dec data (g r))) = g (fst (the (dec data r)))"
proof (cases "length data < minsz")
  case True
  then show ?thesis by (simp add: dec_small)
next
  case False
  then obtain s' n where "sdec data undefined = Some (s', Inr n)"
    using sdec_put [of data undefined r] by auto
  then show ?thesis by (simp add: dec_via_struct [of _ _ undefined] via_struct_def assms)
qed

lemma dec_keeps:
  assumes "\<And>s r. h (put s r) = h r"
  shows "h (fst (the (dec data r))) = h r"
  by (cases "length data < minsz")
    (use assms dec_small sdec_put [of data undefined r] in \<open>auto simp: not_less\<close>)

end

text \<open>Copying a filled struct into its columns.\<close>

definition put_MemInfo :: "MemInfo \<Rightarrow> XtcpFlatRecord \<Rightarrow> XtcpFlatRecord" where
  "put_MemInfo s x =
     x\<lparr>MemInfoRmem := mi_Rmem s, MemInfoWmem := mi_Wmem s, MemInfoFmem := mi_Fmem s,
          MemInfoTmem := mi_Tmem s\<rparr>"

definition put_VegasInfo :: "VegasInfo \<Rightarrow> XtcpFlatRecord \<Rightarrow> XtcpFlatRecord" where
  "put_VegasInfo s x =
     x\<lparr>VegasInfoEnabled := vi_Enabled s, VegasInfoRttcnt := vi_RttCnt s,
          VegasInfoRtt := vi_Rtt s, VegasInfoMinrtt := vi_MinRtt s\<rparr>"

definition put_TypeOfService :: "TypeOfService \<Rightarrow> XtcpFlatRecord \<Rightarrow> XtcpFlatRecord" where
  "put_TypeOfService s x =
     x\<lparr>InetDiagTos := ucast s\<rparr>"

definition put_TrafficClass :: "TrafficClass \<Rightarrow> XtcpFlatRecord \<Rightarrow> XtcpFlatRecord" where
  "put_TrafficClass s x =
     x\<lparr>InetDiagTclass := ucast s\<rparr>"

definition put_SkMemInfo :: "SkMemInfo \<Rightarrow> XtcpFlatRecord \<Rightarrow> XtcpFlatRecord" where
  "put_SkMemInfo s x =
     x\<lparr>SkMemInfoRmemAlloc := sm_RmemAlloc s, SkMemInfoRcvbuf := sm_RcvBuf s,
          SkMemInfoWmemAlloc := sm_WmemAlloc s, SkMemInfoSndbuf := sm_SndBuf s,
          SkMemInfoFwdAlloc := sm_FwdAlloc s, SkMemInfoWmemQueued := sm_WmemQueued s,
          SkMemInfoOptmem := sm_Optmem s, SkMemInfoBacklog := sm_Backlog s,
          SkMemInfoDrops := sm_Drops s\<rparr>"

definition put_Shutdown :: "Shutdown \<Rightarrow> XtcpFlatRecord \<Rightarrow> XtcpFlatRecord" where
  "put_Shutdown s x =
     x\<lparr>InetDiagShutdown := ucast s\<rparr>"

definition put_DCTCPInfo :: "DCTCPInfo \<Rightarrow> XtcpFlatRecord \<Rightarrow> XtcpFlatRecord" where
  "put_DCTCPInfo s x =
     x\<lparr>DctcpInfoEnabled := ucast (dc_Enabled s),
          DctcpInfoCeState := ucast (dc_CEState s), DctcpInfoAlpha := dc_Alpha s,
          DctcpInfoAbEcn := dc_ABECN s, DctcpInfoAbTot := dc_ABTOT s\<rparr>"

definition put_BBRInfo :: "BBRInfo \<Rightarrow> XtcpFlatRecord \<Rightarrow> XtcpFlatRecord" where
  "put_BBRInfo s x =
     x\<lparr>BbrInfoBwLo := bb_BwLo s, BbrInfoBwHi := bb_BwHi s, BbrInfoMinRtt := bb_MinRtt s,
          BbrInfoPacingGain := bb_PacingGain s, BbrInfoCwndGain := bb_CwndGain s\<rparr>"

definition put_ClassID :: "ClassID \<Rightarrow> XtcpFlatRecord \<Rightarrow> XtcpFlatRecord" where
  "put_ClassID s x =
     x\<lparr>InetDiagClassId := s\<rparr>"

definition put_CGroupID :: "CGroupID \<Rightarrow> XtcpFlatRecord \<Rightarrow> XtcpFlatRecord" where
  "put_CGroupID s x =
     x\<lparr>InetDiagCgroupId := s\<rparr>"

definition put_SockOpt :: "SockOpt \<Rightarrow> XtcpFlatRecord \<Rightarrow> XtcpFlatRecord" where
  "put_SockOpt s x =
     x\<lparr>InetDiagSockopt := ucast s\<rparr>"

lemmas put_defs = put_MemInfo_def
  put_VegasInfo_def
  put_TypeOfService_def
  put_TrafficClass_def
  put_SkMemInfo_def
  put_Shutdown_def
  put_DCTCPInfo_def
  put_BBRInfo_def
  put_ClassID_def
  put_CGroupID_def
  put_SockOpt_def

interpretation mi: twin_decoder DeserializeMemInfoXTCP MemInfoSizeCst ErrMemInfoSmall DeserializeMemInfo put_MemInfo
  by unfold_locales
    (simp_all add: DeserializeMemInfo_def DeserializeMemInfoXTCP_def put_MemInfo_def size_cst slice_simps)

interpretation vi: twin_decoder DeserializeVegasInfoXTCP VegasInfoSizeCst ErrVegasInfoSmall DeserializeVegasInfo put_VegasInfo
  by unfold_locales
    (simp_all add: DeserializeVegasInfo_def DeserializeVegasInfoXTCP_def put_VegasInfo_def size_cst slice_simps)

interpretation tos: twin_decoder DeserializeTypeOfServiceXTCP TypeOfServiceSizeCst ErrTypeOfServiceSmall DeserializeTypeOfService put_TypeOfService
  by unfold_locales
    (auto simp: DeserializeTypeOfService_def DeserializeTypeOfServiceXTCP_def put_TypeOfService_def size_cst slice_simps)

interpretation tc: twin_decoder DeserializeTrafficClassXTCP TrafficClassMinSizeCst ErrTrafficClassSmall DeserializeTrafficClass put_TrafficClass
  by unfold_locales
    (auto simp: DeserializeTrafficClass_def DeserializeTrafficClassXTCP_def put_TrafficClass_def size_cst slice_simps)

interpretation sm: twin_decoder DeserializeSkMemInfoXTCP SkMemInfoMinSizeCst ErrSkMemInfoSmall DeserializeSkMemInfo put_SkMemInfo
  by unfold_locales
    (simp_all add: DeserializeSkMemInfo_def DeserializeSkMemInfoXTCP_def put_SkMemInfo_def size_cst slice_simps)

interpretation sh: twin_decoder DeserializeShutdownXTCP ShutdownMinSizeCst ErrShutdownSmall DeserializeShutdown put_Shutdown
  by unfold_locales
    (auto simp: DeserializeShutdown_def DeserializeShutdownXTCP_def put_Shutdown_def size_cst slice_simps)

interpretation dc: twin_decoder DeserializeDCTCPInfoXTCP DCTCPInfoSizeCst ErrDCTCPInfoSmall DeserializeDCTCPInfo put_DCTCPInfo
  by unfold_locales
    (simp_all add: DeserializeDCTCPInfo_def DeserializeDCTCPInfoXTCP_def put_DCTCPInfo_def size_cst slice_simps)

interpretation bb: twin_decoder DeserializeBBRInfoXTCP BBRInfoSizeCst ErrBBRInfoSmall DeserializeBBRInfo put_BBRInfo
  by unfold_locales
    (simp_all add: DeserializeBBRInfo_def DeserializeBBRInfoXTCP_def put_BBRInfo_def size_cst slice_simps)

interpretation cl: twin_decoder DeserializeClassIDXTCP ClassIDSizeCst ErrClassIDSmall DeserializeClassID put_ClassID
  by unfold_locales
    (simp_all add: DeserializeClassID_def DeserializeClassIDXTCP_def put_ClassID_def size_cst slice_simps)

interpretation cg: twin_decoder DeserializeCGroupIDXTCP CGroupIDSizeCst ErrCGroupIDSmall DeserializeCGroupID put_CGroupID
  by unfold_locales
    (simp_all add: DeserializeCGroupID_def DeserializeCGroupIDXTCP_def put_CGroupID_def size_cst slice_simps)

interpretation so: twin_decoder DeserializeSockOptXTCP SockOptSizeCst ErrSockOptSmall DeserializeSockOpt put_SockOpt
  by unfold_locales
    (simp_all add: DeserializeSockOpt_def DeserializeSockOptXTCP_def put_SockOpt_def size_cst slice_simps)

interpretation ci: attr_decoder DeserializeCongInfoXTCP CongInfoSizeCst ErrCongInfoSmall
  by unfold_locales (simp_all add: DeserializeCongInfoXTCP_def size_cst slice_simps)

interpretation sid: attr_decoder DeserializeInetDiagSockIDXTCP InetDiagSockIDSizeCst ErrInetDiagSockIDSmall
  by unfold_locales (simp_all add: DeserializeInetDiagSockIDXTCP_def size_cst slice_simps)

text \<open>Copying a filled message struct into its columns.\<close>

definition put_InetDiagMsg :: "InetDiagMsg \<Rightarrow> XtcpFlatRecord \<Rightarrow> XtcpFlatRecord" where
  "put_InetDiagMsg m x =
     x\<lparr>InetDiagMsgFamily := ucast (idm_Family m), InetDiagMsgState := ucast (idm_State m),
       InetDiagMsgTimer := ucast (idm_Timer m), InetDiagMsgRetrans := ucast (idm_Retrans m),
       InetDiagMsgSocketSourcePort := ucast (sid_SPort (idm_SocketID m)),
       InetDiagMsgSocketDestinationPort := ucast (sid_DPort (idm_SocketID m)),
       InetDiagMsgSocketSource := sid_SrcIP (idm_SocketID m),
       InetDiagMsgSocketDestination := sid_DstIP (idm_SocketID m),
       InetDiagMsgSocketInterface := sid_Interface (idm_SocketID m),
       InetDiagMsgSocketCookie := sid_Cookie (idm_SocketID m),
       InetDiagMsgExpires := idm_Expires m, InetDiagMsgRqueue := idm_Rqueue m,
       InetDiagMsgWqueue := idm_Wqueue m, InetDiagMsgUid := idm_UID m,
       InetDiagMsgInode := idm_Inode m\<rparr>"

text \<open>The message the 72 bytes of \<open>struct inet_diag_msg\<close> describe, field by field.\<close>

definition inet_diag_msg_of :: "bytes \<Rightarrow> InetDiagMsg" where
  "inet_diag_msg_of d =
     \<lparr>idm_Family = d ! 0, idm_State = d ! 1, idm_Timer = d ! 2, idm_Retrans = d ! 3,
      idm_SocketID =
        \<lparr>sid_SPort = be_word (take 2 (drop 4 d)), sid_DPort = be_word (take 2 (drop 6 d)),
         sid_SrcIP = take 16 (drop 8 d), sid_DstIP = take 16 (drop 24 d),
         sid_Interface = le_word (take 4 (drop 40 d)), sid_Cookie = le_word (take 8 (drop 44 d))\<rparr>,
      idm_Expires = le_word (take 4 (drop 52 d)), idm_Rqueue = le_word (take 4 (drop 56 d)),
      idm_Wqueue = le_word (take 4 (drop 60 d)), idm_UID = le_word (take 4 (drop 64 d)),
      idm_Inode = le_word (take 4 (drop 68 d))\<rparr>"

lemma DeserializeInetDiagMsg_ok [codec_simps]:
  "72 \<le> length data \<Longrightarrow>
     DeserializeInetDiagMsg data idm s =
       Some (inet_diag_msg_of data, idm_SocketID (inet_diag_msg_of data), Inr 72)"
  by (cases idm; cases s) (simp add: DeserializeInetDiagMsg_def DeserializeInetDiagSockID_def array16_def
      inet_diag_msg_of_def size_cst slice_simps drop_take)

lemma DeserializeInetDiagMsg_small [codec_simps]:
  "length data < 72 \<Longrightarrow> DeserializeInetDiagMsg data idm s = Some (idm, s, Inl ErrInetDiagMsgSmall)"
  by (simp add: DeserializeInetDiagMsg_def size_cst)

lemma DeserializeInetDiagMsgXTCP_ok [codec_simps]:
  "72 \<le> length data \<Longrightarrow>
     DeserializeInetDiagMsgXTCP data x = Some (put_InetDiagMsg (inet_diag_msg_of data) x, None)"
  by (simp add: DeserializeInetDiagMsgXTCP_def DeserializeInetDiagSockIDXTCP_def
      put_InetDiagMsg_def inet_diag_msg_of_def size_cst slice_simps drop_take)

interpretation idm: attr_decoder DeserializeInetDiagMsgXTCP InetDiagMsgSizeCst ErrInetDiagMsgSmall
  by unfold_locales
    (simp_all add: DeserializeInetDiagMsgXTCP_ok size_cst, simp add: DeserializeInetDiagMsgXTCP_def size_cst)

text \<open>The kernel's layout of the message, written out of a message value.\<close>

definition inet_diag_msg_bytes :: "InetDiagMsg \<Rightarrow> bytes" where
  "inet_diag_msg_bytes m =
     [idm_Family m, idm_State m, idm_Timer m, idm_Retrans m]
     @ be_bytes 2 (sid_SPort (idm_SocketID m)) @ be_bytes 2 (sid_DPort (idm_SocketID m))
     @ sid_SrcIP (idm_SocketID m) @ sid_DstIP (idm_SocketID m)
     @ le_bytes 4 (sid_Interface (idm_SocketID m)) @ le_bytes 8 (sid_Cookie (idm_SocketID m))
     @ le_bytes 4 (idm_Expires m) @ le_bytes 4 (idm_Rqueue m) @ le_bytes 4 (idm_Wqueue m)
     @ le_bytes 4 (idm_UID m) @ le_bytes 4 (idm_Inode m)"

lemma inet_diag_msg_of_bytes:
  assumes "length (sid_SrcIP (idm_SocketID m)) = 16" "length (sid_DstIP (idm_SocketID m)) = 16"
  shows "inet_diag_msg_of (inet_diag_msg_bytes m @ rest) = m"
  using assms by (simp add: inet_diag_msg_of_def inet_diag_msg_bytes_def)

section \<open>Properties\<close>

text \<open>C23: the record decoder of \<open>inet_diag_msg\<close> is correct for the kernel's layout. For every
  message value, decoding its 72 wire bytes (with whatever attributes follow)
  succeeds and sets the fifteen message columns to the message's fields, ports from
  network order and everything else from little-endian order, with both addresses
  at their full 16 bytes and no other column touched.\<close>

theorem inet_diag_msg_layout:
  assumes "length (sid_SrcIP (idm_SocketID m)) = 16" "length (sid_DstIP (idm_SocketID m)) = 16"
  shows "DeserializeInetDiagMsgXTCP (inet_diag_msg_bytes m @ rest) x = Some (put_InetDiagMsg m x, None)"
proof -
  have "72 \<le> length (inet_diag_msg_bytes m @ rest)"
    using assms by (simp add: inet_diag_msg_bytes_def)
  then show ?thesis
    using inet_diag_msg_of_bytes [OF assms, of rest] by (simp add: DeserializeInetDiagMsgXTCP_ok)
qed

definition wit_msg :: InetDiagMsg where
  "wit_msg = \<lparr>idm_Family = 2, idm_State = 1, idm_Timer = 0, idm_Retrans = 0,
     idm_SocketID = \<lparr>sid_SPort = 443, sid_DPort = 51000, sid_SrcIP = replicate 16 1,
       sid_DstIP = replicate 16 2, sid_Interface = 3, sid_Cookie = 77\<rparr>,
     idm_Expires = 0, idm_Rqueue = 5, idm_Wqueue = 6, idm_UID = 1000, idm_Inode = 4242\<rparr>"

theorem inet_diag_msg_layout_witness:
  "map_option (\<lambda>(x, e). (InetDiagMsgSocketSourcePort x, InetDiagMsgSocketDestination x, InetDiagMsgInode x, e))
     (DeserializeInetDiagMsgXTCP (inet_diag_msg_bytes wit_msg @ [9, 9]) zero_record)
   = Some (443, replicate 16 2, 4242, None)"
  by (subst inet_diag_msg_layout) (simp_all add: wit_msg_def put_InetDiagMsg_def)

text \<open>For each of the eleven struct-like attributes the record decoder and the struct
  decoder read the same bytes the same way. Decoding straight into the record gives,
  on every payload and for every old contents, what decoding into the struct and
  copying its fields into the columns gives, with the same error on a short payload.\<close>

theorem attribute_decoders_agree:
  "DeserializeMemInfoXTCP data x = map_option (via_struct put_MemInfo x) (DeserializeMemInfo data s1)
   \<and> DeserializeVegasInfoXTCP data x = map_option (via_struct put_VegasInfo x) (DeserializeVegasInfo data s2)
   \<and> DeserializeTypeOfServiceXTCP data x = map_option (via_struct put_TypeOfService x) (DeserializeTypeOfService data s3)
   \<and> DeserializeTrafficClassXTCP data x = map_option (via_struct put_TrafficClass x) (DeserializeTrafficClass data s4)
   \<and> DeserializeSkMemInfoXTCP data x = map_option (via_struct put_SkMemInfo x) (DeserializeSkMemInfo data s5)
   \<and> DeserializeShutdownXTCP data x = map_option (via_struct put_Shutdown x) (DeserializeShutdown data s6)
   \<and> DeserializeDCTCPInfoXTCP data x = map_option (via_struct put_DCTCPInfo x) (DeserializeDCTCPInfo data s7)
   \<and> DeserializeBBRInfoXTCP data x = map_option (via_struct put_BBRInfo x) (DeserializeBBRInfo data s8)
   \<and> DeserializeClassIDXTCP data x = map_option (via_struct put_ClassID x) (DeserializeClassID data s9)
   \<and> DeserializeCGroupIDXTCP data x = map_option (via_struct put_CGroupID x) (DeserializeCGroupID data s10)
   \<and> DeserializeSockOptXTCP data x = map_option (via_struct put_SockOpt x) (DeserializeSockOpt data s11)"
  by (intro conjI mi.dec_via_struct vi.dec_via_struct tos.dec_via_struct tc.dec_via_struct sm.dec_via_struct
      sh.dec_via_struct dc.dec_via_struct bb.dec_via_struct cl.dec_via_struct cg.dec_via_struct
      so.dec_via_struct)

end
