(* ===== verification/Tcp_Info.thy ===== *)
theory Tcp_Info
  imports Inet_Diag
begin

text \<open>
  \<open>struct tcp_info\<close> (\<open>pkg/xtcpnl/xtcpnl_inet_diag_tcpinfo.go\<close>): the struct grows with
  the kernel release, and the decoder reads a base of 192 bytes and then one tail
  per release, stopping when the payload ends at a known size. The struct form
  fills \<open>TCPInfo\<close> (\<open>TCPInfo7_0_3\<close>, here one record per half), the \<open>XTCP\<close> form the
  columns of the flat record. \<open>Fackets\<close> is declared and never read.
\<close>

section \<open>Struct and sizes\<close>

record TCPInfoBase =
  ti_State :: u8
  ti_CaState :: u8
  ti_Retransmits :: u8
  ti_Probes :: u8
  ti_Backoff :: u8
  ti_Options :: u8
  ti_SndWscale :: u8
  ti_RcvWscale :: u8
  ti_DeliveryRateAppLimited :: u8
  ti_FastopenClientFail :: u8
  ti_Rto :: u32
  ti_Ato :: u32
  ti_SndMss :: u32
  ti_RcvMss :: u32
  ti_Unacked :: u32
  ti_Sacked :: u32
  ti_Lost :: u32
  ti_Retrans :: u32
  ti_Fackets :: u32
  ti_LastDataSent :: u32
  ti_LastAckSent :: u32
  ti_LastDataRecv :: u32
  ti_LastAckRecv :: u32
  ti_Pmtu :: u32
  ti_RcvSsthresh :: u32
  ti_Rtt :: u32
  ti_Rttvar :: u32
  ti_SndSsthresh :: u32
  ti_SndCwnd :: u32
  ti_AdvMss :: u32
  ti_Reordering :: u32
  ti_RcvRtt :: u32
  ti_RcvSpace :: u32
  ti_TotalRetrans :: u32
  ti_PacingRate :: u64
  ti_MaxPacingRate :: u64
  ti_BytesAcked :: u64
  ti_BytesReceived :: u64
  ti_SegsOut :: u32
  ti_SegsIn :: u32
  ti_NotSentBytes :: u32
  ti_MinRtt :: u32
  ti_DataSegsIn :: u32
  ti_DataSegsOut :: u32
  ti_DeliveryRate :: u64
  ti_BusyTime :: u64
  ti_RwndLimited :: u64
  ti_SndbufLimited :: u64

record TCPInfo = TCPInfoBase +
  ti_Delivered :: u32
  ti_DeliveredCe :: u32
  ti_BytesSent :: u64
  ti_BytesRetrans :: u64
  ti_DsackDups :: u32
  ti_ReordSeen :: u32
  ti_RcvOoopack :: u32
  ti_SndWnd :: u32
  ti_RcvWnd :: u32
  ti_Rehash :: u32
  ti_TotalRTO :: u16
  ti_TotalRTORecoveries :: u16
  ti_TotalRTOTime :: u32
  ti_ReceivedCe :: u32
  ti_DeliveredE1Bytes :: u32
  ti_DeliveredE0Bytes :: u32
  ti_DeliveredCeBytes :: u32
  ti_ReceivedE1Bytes :: u32
  ti_ReceivedE0Bytes :: u32
  ti_ReceivedCeBytes :: u32
  ti_EcnMode :: u8
  ti_AccecnOptSeen :: u8
  ti_AccecnFailMode :: u8
  ti_Options2 :: u32

definition TCPInfo7_0_3_SizeCst :: nat where
  "TCPInfo7_0_3_SizeCst = 280"

definition TCPInfo6_10_3_SizeCst :: nat where
  "TCPInfo6_10_3_SizeCst = 248"

definition TCPInfo6_6_44_SizeCst :: nat where
  "TCPInfo6_6_44_SizeCst = 240"

definition TCPInfo5_4_281_SizeCst :: nat where
  "TCPInfo5_4_281_SizeCst = 232"

definition TCPInfo4_19_219_SizeCst :: nat where
  "TCPInfo4_19_219_SizeCst = 224"

definition TCPInfo4_15_SizeCst :: nat where
  "TCPInfo4_15_SizeCst = 192"

definition TCPInfoMinSizeCst :: nat where
  "TCPInfoMinSizeCst = TCPInfo4_15_SizeCst"

definition TCPInfoEmumValueCst :: u16 where
  "TCPInfoEmumValueCst = 2"

lemmas TCPInfo_sizes [size_cst] =
  TCPInfo7_0_3_SizeCst_def TCPInfo6_10_3_SizeCst_def TCPInfo6_6_44_SizeCst_def
  TCPInfo5_4_281_SizeCst_def TCPInfo4_19_219_SizeCst_def TCPInfo4_15_SizeCst_def TCPInfoMinSizeCst_def

section \<open>The struct decoder\<close>

definition deserializeTCPInfoBase :: "bytes \<Rightarrow> TCPInfo \<Rightarrow> TCPInfo option" where
  "deserializeTCPInfoBase data t =
     (if length data < TCPInfoMinSizeCst then Some t
      else do {
        v0 \<leftarrow> go_index data 0; v1 \<leftarrow> go_index data 1;
        v2 \<leftarrow> go_index data 2; v3 \<leftarrow> go_index data 3;
        v4 \<leftarrow> go_index data 4; v5 \<leftarrow> go_index data 5;
        v6 \<leftarrow> go_index data 6; v7 \<leftarrow> go_index data 7;
        v8 \<leftarrow> LE_Uint32 data 8 12; v12 \<leftarrow> LE_Uint32 data 12 16;
        v16 \<leftarrow> LE_Uint32 data 16 20; v20 \<leftarrow> LE_Uint32 data 20 24;
        v24 \<leftarrow> LE_Uint32 data 24 28; v28 \<leftarrow> LE_Uint32 data 28 32;
        v32 \<leftarrow> LE_Uint32 data 32 36; v36 \<leftarrow> LE_Uint32 data 36 40;
        v44 \<leftarrow> LE_Uint32 data 44 48; v48 \<leftarrow> LE_Uint32 data 48 52;
        v52 \<leftarrow> LE_Uint32 data 52 56; v56 \<leftarrow> LE_Uint32 data 56 60;
        v60 \<leftarrow> LE_Uint32 data 60 64; v64 \<leftarrow> LE_Uint32 data 64 68;
        v68 \<leftarrow> LE_Uint32 data 68 72; v72 \<leftarrow> LE_Uint32 data 72 76;
        v76 \<leftarrow> LE_Uint32 data 76 80; v80 \<leftarrow> LE_Uint32 data 80 84;
        v84 \<leftarrow> LE_Uint32 data 84 88; v88 \<leftarrow> LE_Uint32 data 88 92;
        v92 \<leftarrow> LE_Uint32 data 92 96; v96 \<leftarrow> LE_Uint32 data 96 100;
        v100 \<leftarrow> LE_Uint32 data 100 104; v104 \<leftarrow> LE_Uint64 data 104 112;
        v112 \<leftarrow> LE_Uint64 data 112 120; v120 \<leftarrow> LE_Uint64 data 120 128;
        v128 \<leftarrow> LE_Uint64 data 128 136; v136 \<leftarrow> LE_Uint32 data 136 140;
        v140 \<leftarrow> LE_Uint32 data 140 144; v144 \<leftarrow> LE_Uint32 data 144 148;
        v148 \<leftarrow> LE_Uint32 data 148 152; v152 \<leftarrow> LE_Uint32 data 152 156;
        v156 \<leftarrow> LE_Uint32 data 156 160; v160 \<leftarrow> LE_Uint64 data 160 168;
        v168 \<leftarrow> LE_Uint64 data 168 176; v176 \<leftarrow> LE_Uint64 data 176 184;
        v184 \<leftarrow> LE_Uint64 data 184 192;
        Some (t\<lparr>ti_State := v0, ti_CaState := v1, ti_Retransmits := v2, ti_Probes := v3,
          ti_Backoff := v4, ti_Options := v5, ti_SndWscale := v6 AND 0xF,
          ti_RcvWscale := (drop_bit 4 v6) AND 0xF, ti_DeliveryRateAppLimited := v7 AND 0x1,
          ti_FastopenClientFail := (drop_bit 1 v7) AND 0x3, ti_Rto := v8, ti_Ato := v12,
          ti_SndMss := v16, ti_RcvMss := v20, ti_Unacked := v24, ti_Sacked := v28,
          ti_Lost := v32, ti_Retrans := v36, ti_LastDataSent := v44, ti_LastAckSent := v48,
          ti_LastDataRecv := v52, ti_LastAckRecv := v56, ti_Pmtu := v60,
          ti_RcvSsthresh := v64, ti_Rtt := v68, ti_Rttvar := v72, ti_SndSsthresh := v76,
          ti_SndCwnd := v80, ti_AdvMss := v84, ti_Reordering := v88, ti_RcvRtt := v92,
          ti_RcvSpace := v96, ti_TotalRetrans := v100, ti_PacingRate := v104,
          ti_MaxPacingRate := v112, ti_BytesAcked := v120, ti_BytesReceived := v128,
          ti_SegsOut := v136, ti_SegsIn := v140, ti_NotSentBytes := v144,
          ti_MinRtt := v148, ti_DataSegsIn := v152, ti_DataSegsOut := v156,
          ti_DeliveryRate := v160, ti_BusyTime := v168, ti_RwndLimited := v176,
          ti_SndbufLimited := v184\<rparr>)
      })"

definition deserializeTCPInfoTail4_19 :: "bytes \<Rightarrow> TCPInfo \<Rightarrow> TCPInfo option" where
  "deserializeTCPInfoTail4_19 data t =
     (if length data < TCPInfo4_19_219_SizeCst then Some t
      else do {
        v192 \<leftarrow> LE_Uint32 data 192 196; v196 \<leftarrow> LE_Uint32 data 196 200;
        v200 \<leftarrow> LE_Uint64 data 200 208; v208 \<leftarrow> LE_Uint64 data 208 216;
        v216 \<leftarrow> LE_Uint32 data 216 220; v220 \<leftarrow> LE_Uint32 data 220 224;
        Some (t\<lparr>ti_Delivered := v192, ti_DeliveredCe := v196, ti_BytesSent := v200,
          ti_BytesRetrans := v208, ti_DsackDups := v216, ti_ReordSeen := v220\<rparr>)
      })"

definition deserializeTCPInfoTail5_4 :: "bytes \<Rightarrow> TCPInfo \<Rightarrow> TCPInfo option" where
  "deserializeTCPInfoTail5_4 data t =
     (if length data < TCPInfo5_4_281_SizeCst then Some t
      else do {
        v224 \<leftarrow> LE_Uint32 data 224 228; v228 \<leftarrow> LE_Uint32 data 228 232;
        Some (t\<lparr>ti_RcvOoopack := v224, ti_SndWnd := v228\<rparr>)
      })"

definition deserializeTCPInfoTail6_6 :: "bytes \<Rightarrow> TCPInfo \<Rightarrow> TCPInfo option" where
  "deserializeTCPInfoTail6_6 data t =
     (if length data < TCPInfo6_6_44_SizeCst then Some t
      else do {
        v232 \<leftarrow> LE_Uint32 data 232 236; v236 \<leftarrow> LE_Uint32 data 236 240;
        Some (t\<lparr>ti_RcvWnd := v232, ti_Rehash := v236\<rparr>)
      })"

definition deserializeTCPInfoTail6_10 :: "bytes \<Rightarrow> TCPInfo \<Rightarrow> TCPInfo option" where
  "deserializeTCPInfoTail6_10 data t =
     (if length data < TCPInfo6_10_3_SizeCst then Some t
      else do {
        v240 \<leftarrow> LE_Uint16 data 240 242; v242 \<leftarrow> LE_Uint16 data 242 244;
        v244 \<leftarrow> LE_Uint32 data 244 248;
        Some (t\<lparr>ti_TotalRTO := v240, ti_TotalRTORecoveries := v242, ti_TotalRTOTime := v244\<rparr>)
      })"

definition deserializeTCPInfoTail7_0 :: "bytes \<Rightarrow> TCPInfo \<Rightarrow> TCPInfo option" where
  "deserializeTCPInfoTail7_0 data t =
     (if length data < TCPInfo7_0_3_SizeCst then Some t
      else do {
        v248 \<leftarrow> LE_Uint32 data 248 252; v252 \<leftarrow> LE_Uint32 data 252 256;
        v256 \<leftarrow> LE_Uint32 data 256 260; v260 \<leftarrow> LE_Uint32 data 260 264;
        v264 \<leftarrow> LE_Uint32 data 264 268; v268 \<leftarrow> LE_Uint32 data 268 272;
        v272 \<leftarrow> LE_Uint32 data 272 276; v276 \<leftarrow> LE_Uint32 data 276 280;
        Some (t\<lparr>ti_ReceivedCe := v248, ti_DeliveredE1Bytes := v252, ti_DeliveredE0Bytes := v256,
          ti_DeliveredCeBytes := v260, ti_ReceivedE1Bytes := v264,
          ti_ReceivedE0Bytes := v268, ti_ReceivedCeBytes := v272,
          ti_EcnMode := ucast (v276 AND 0x3),
          ti_AccecnOptSeen := ucast ((drop_bit 2 v276) AND 0x3),
          ti_AccecnFailMode := ucast ((drop_bit 4 v276) AND 0xF),
          ti_Options2 := (drop_bit 8 v276) AND 0xFFFFFF\<rparr>)
      })"

definition DeserializeTCPInfo :: "bytes \<Rightarrow> TCPInfo \<Rightarrow> (TCPInfo \<times> (nl_error + nat)) option" where
  "DeserializeTCPInfo data t =
     (if length data < TCPInfoMinSizeCst then Some (t, Inl ErrTCPInfoSmall)
      else do {
        t \<leftarrow> deserializeTCPInfoBase data t;
        if length data = TCPInfo4_15_SizeCst then Some (t, Inr (length data)) else do {
        t \<leftarrow> deserializeTCPInfoTail4_19 data t;
        if length data = TCPInfo4_19_219_SizeCst then Some (t, Inr TCPInfo4_19_219_SizeCst) else do {
        t \<leftarrow> deserializeTCPInfoTail5_4 data t;
        if length data = TCPInfo5_4_281_SizeCst then Some (t, Inr TCPInfo5_4_281_SizeCst) else do {
        t \<leftarrow> deserializeTCPInfoTail6_6 data t;
        if length data = TCPInfo6_6_44_SizeCst then Some (t, Inr TCPInfo6_6_44_SizeCst) else do {
        t \<leftarrow> deserializeTCPInfoTail6_10 data t;
        if length data < TCPInfo7_0_3_SizeCst then Some (t, Inr TCPInfo6_10_3_SizeCst) else do {
        t \<leftarrow> deserializeTCPInfoTail7_0 data t;
        Some (t, Inr TCPInfo7_0_3_SizeCst)
        }}}}}
      })"

section \<open>The record decoder\<close>

definition deserializeTCPInfoXTCPBase :: "bytes \<Rightarrow> XtcpFlatRecord \<Rightarrow> XtcpFlatRecord option" where
  "deserializeTCPInfoXTCPBase data x =
     (if length data < TCPInfoMinSizeCst then Some x
      else do {
        v0 \<leftarrow> go_index data 0; v1 \<leftarrow> go_index data 1;
        v2 \<leftarrow> go_index data 2; v3 \<leftarrow> go_index data 3;
        v4 \<leftarrow> go_index data 4; v5 \<leftarrow> go_index data 5;
        v6 \<leftarrow> go_index data 6; v7 \<leftarrow> go_index data 7;
        v8 \<leftarrow> LE_Uint32 data 8 12; v12 \<leftarrow> LE_Uint32 data 12 16;
        v16 \<leftarrow> LE_Uint32 data 16 20; v20 \<leftarrow> LE_Uint32 data 20 24;
        v24 \<leftarrow> LE_Uint32 data 24 28; v28 \<leftarrow> LE_Uint32 data 28 32;
        v32 \<leftarrow> LE_Uint32 data 32 36; v36 \<leftarrow> LE_Uint32 data 36 40;
        v44 \<leftarrow> LE_Uint32 data 44 48; v48 \<leftarrow> LE_Uint32 data 48 52;
        v52 \<leftarrow> LE_Uint32 data 52 56; v56 \<leftarrow> LE_Uint32 data 56 60;
        v60 \<leftarrow> LE_Uint32 data 60 64; v64 \<leftarrow> LE_Uint32 data 64 68;
        v68 \<leftarrow> LE_Uint32 data 68 72; v72 \<leftarrow> LE_Uint32 data 72 76;
        v76 \<leftarrow> LE_Uint32 data 76 80; v80 \<leftarrow> LE_Uint32 data 80 84;
        v84 \<leftarrow> LE_Uint32 data 84 88; v88 \<leftarrow> LE_Uint32 data 88 92;
        v92 \<leftarrow> LE_Uint32 data 92 96; v96 \<leftarrow> LE_Uint32 data 96 100;
        v100 \<leftarrow> LE_Uint32 data 100 104; v104 \<leftarrow> LE_Uint64 data 104 112;
        v112 \<leftarrow> LE_Uint64 data 112 120; v120 \<leftarrow> LE_Uint64 data 120 128;
        v128 \<leftarrow> LE_Uint64 data 128 136; v136 \<leftarrow> LE_Uint32 data 136 140;
        v140 \<leftarrow> LE_Uint32 data 140 144; v144 \<leftarrow> LE_Uint32 data 144 148;
        v148 \<leftarrow> LE_Uint32 data 148 152; v152 \<leftarrow> LE_Uint32 data 152 156;
        v156 \<leftarrow> LE_Uint32 data 156 160; v160 \<leftarrow> LE_Uint64 data 160 168;
        v168 \<leftarrow> LE_Uint64 data 168 176; v176 \<leftarrow> LE_Uint64 data 176 184;
        v184 \<leftarrow> LE_Uint64 data 184 192;
        Some (x\<lparr>TcpInfoState := ucast v0, TcpInfoCaState := ucast v1,
          TcpInfoRetransmits := ucast v2, TcpInfoProbes := ucast v3,
          TcpInfoBackoff := ucast v4, TcpInfoOptions := ucast v5,
          TcpInfoSndWscale := ucast (v6 AND 0xF),
          TcpInfoRcvWscale := ucast ((drop_bit 4 v6) AND 0xF),
          TcpInfoDeliveryRateAppLimited := ucast (v7 AND 0x1),
          TcpInfoFastopenClientFail := ucast ((drop_bit 1 v7) AND 0x3), TcpInfoRto := v8,
          TcpInfoAto := v12, TcpInfoSndMss := v16, TcpInfoRcvMss := v20,
          TcpInfoUnacked := v24, TcpInfoSacked := v28, TcpInfoLost := v32,
          TcpInfoRetrans := v36, TcpInfoLastDataSent := v44, TcpInfoLastAckSent := v48,
          TcpInfoLastDataRecv := v52, TcpInfoLastAckRecv := v56, TcpInfoPmtu := v60,
          TcpInfoRcvSsthresh := v64, TcpInfoRtt := v68, TcpInfoRttvar := v72,
          TcpInfoSndSsthresh := v76, TcpInfoSndCwnd := v80, TcpInfoAdvmss := v84,
          TcpInfoReordering := v88, TcpInfoRcvRtt := v92, TcpInfoRcvSpace := v96,
          TcpInfoTotalRetrans := v100, TcpInfoPacingRate := v104,
          TcpInfoMaxPacingRate := v112, TcpInfoBytesAcked := v120,
          TcpInfoBytesReceived := v128, TcpInfoSegsOut := v136, TcpInfoSegsIn := v140,
          TcpInfoNotsentBytes := v144, TcpInfoMinRtt := v148, TcpInfoDataSegsIn := v152,
          TcpInfoDataSegsOut := v156, TcpInfoDeliveryRate := v160, TcpInfoBusyTime := v168,
          TcpInfoRwndLimited := v176, TcpInfoSndbufLimited := v184\<rparr>)
      })"

definition deserializeTCPInfoXTCPTail4_19 :: "bytes \<Rightarrow> XtcpFlatRecord \<Rightarrow> XtcpFlatRecord option" where
  "deserializeTCPInfoXTCPTail4_19 data x =
     (if length data < TCPInfo4_19_219_SizeCst then Some x
      else do {
        v192 \<leftarrow> LE_Uint32 data 192 196; v196 \<leftarrow> LE_Uint32 data 196 200;
        v200 \<leftarrow> LE_Uint64 data 200 208; v208 \<leftarrow> LE_Uint64 data 208 216;
        v216 \<leftarrow> LE_Uint32 data 216 220; v220 \<leftarrow> LE_Uint32 data 220 224;
        Some (x\<lparr>TcpInfoDelivered := v192, TcpInfoDeliveredCe := v196, TcpInfoBytesSent := v200,
          TcpInfoBytesRetrans := v208, TcpInfoDsackDups := v216,
          TcpInfoReordSeen := v220\<rparr>)
      })"

definition deserializeTCPInfoXTCPTail5_4 :: "bytes \<Rightarrow> XtcpFlatRecord \<Rightarrow> XtcpFlatRecord option" where
  "deserializeTCPInfoXTCPTail5_4 data x =
     (if length data < TCPInfo5_4_281_SizeCst then Some x
      else do {
        v224 \<leftarrow> LE_Uint32 data 224 228; v228 \<leftarrow> LE_Uint32 data 228 232;
        Some (x\<lparr>TcpInfoRcvOoopack := v224, TcpInfoSndWnd := v228\<rparr>)
      })"

definition deserializeTCPInfoXTCPTail6_6 :: "bytes \<Rightarrow> XtcpFlatRecord \<Rightarrow> XtcpFlatRecord option" where
  "deserializeTCPInfoXTCPTail6_6 data x =
     (if length data < TCPInfo6_6_44_SizeCst then Some x
      else do {
        v232 \<leftarrow> LE_Uint32 data 232 236; v236 \<leftarrow> LE_Uint32 data 236 240;
        Some (x\<lparr>TcpInfoRcvWnd := v232, TcpInfoRehash := v236\<rparr>)
      })"

definition deserializeTCPInfoXTCPTail6_10 :: "bytes \<Rightarrow> XtcpFlatRecord \<Rightarrow> XtcpFlatRecord option" where
  "deserializeTCPInfoXTCPTail6_10 data x =
     (if length data < TCPInfo6_10_3_SizeCst then Some x
      else do {
        v240 \<leftarrow> LE_Uint16 data 240 242; v242 \<leftarrow> LE_Uint16 data 242 244;
        v244 \<leftarrow> LE_Uint32 data 244 248;
        Some (x\<lparr>TcpInfoTotalRto := ucast v240, TcpInfoTotalRtoRecoveries := ucast v242,
          TcpInfoTotalRtoTime := v244\<rparr>)
      })"

definition deserializeTCPInfoXTCPTail7_0 :: "bytes \<Rightarrow> XtcpFlatRecord \<Rightarrow> XtcpFlatRecord option" where
  "deserializeTCPInfoXTCPTail7_0 data x =
     (if length data < TCPInfo7_0_3_SizeCst then Some x
      else do {
        v248 \<leftarrow> LE_Uint32 data 248 252; v252 \<leftarrow> LE_Uint32 data 252 256;
        v256 \<leftarrow> LE_Uint32 data 256 260; v260 \<leftarrow> LE_Uint32 data 260 264;
        v264 \<leftarrow> LE_Uint32 data 264 268; v268 \<leftarrow> LE_Uint32 data 268 272;
        v272 \<leftarrow> LE_Uint32 data 272 276; v276 \<leftarrow> LE_Uint32 data 276 280;
        Some (x\<lparr>TcpInfoReceivedCe := v248, TcpInfoDeliveredE1Bytes := v252,
          TcpInfoDeliveredE0Bytes := v256, TcpInfoDeliveredCeBytes := v260,
          TcpInfoReceivedE1Bytes := v264, TcpInfoReceivedE0Bytes := v268,
          TcpInfoReceivedCeBytes := v272, TcpInfoEcnMode := v276 AND 0x3,
          TcpInfoAccecnOptSeen := (drop_bit 2 v276) AND 0x3,
          TcpInfoAccecnFailMode := (drop_bit 4 v276) AND 0xF,
          TcpInfoOptions2 := (drop_bit 8 v276) AND 0xFFFFFF\<rparr>)
      })"

definition DeserializeTCPInfoXTCP :: xtcp_decoder where
  "DeserializeTCPInfoXTCP data x =
     (if length data < TCPInfoMinSizeCst then Some (x, Some ErrTCPInfoSmall)
      else do {
        x \<leftarrow> deserializeTCPInfoXTCPBase data x;
        if length data = TCPInfo4_15_SizeCst then Some (x, None) else do {
        x \<leftarrow> deserializeTCPInfoXTCPTail4_19 data x;
        if length data = TCPInfo4_19_219_SizeCst then Some (x, None) else do {
        x \<leftarrow> deserializeTCPInfoXTCPTail5_4 data x;
        if length data = TCPInfo5_4_281_SizeCst then Some (x, None) else do {
        x \<leftarrow> deserializeTCPInfoXTCPTail6_6 data x;
        if length data = TCPInfo6_6_44_SizeCst then Some (x, None) else do {
        x \<leftarrow> deserializeTCPInfoXTCPTail6_10 data x;
        if length data < TCPInfo7_0_3_SizeCst then Some (x, None) else do {
        x \<leftarrow> deserializeTCPInfoXTCPTail7_0 data x;
        Some (x, None)
        }}}}}
      })"

section \<open>Both decoders agree\<close>

text \<open>One part of the struct copied into its columns.\<close>

definition put_tcp_Base :: "TCPInfo \<Rightarrow> XtcpFlatRecord \<Rightarrow> XtcpFlatRecord" where
  "put_tcp_Base t x =
     x\<lparr>TcpInfoState := ucast (ti_State t), TcpInfoCaState := ucast (ti_CaState t),
          TcpInfoRetransmits := ucast (ti_Retransmits t),
          TcpInfoProbes := ucast (ti_Probes t), TcpInfoBackoff := ucast (ti_Backoff t),
          TcpInfoOptions := ucast (ti_Options t),
          TcpInfoSndWscale := ucast (ti_SndWscale t),
          TcpInfoRcvWscale := ucast (ti_RcvWscale t),
          TcpInfoDeliveryRateAppLimited := ucast (ti_DeliveryRateAppLimited t),
          TcpInfoFastopenClientFail := ucast (ti_FastopenClientFail t),
          TcpInfoRto := ti_Rto t, TcpInfoAto := ti_Ato t, TcpInfoSndMss := ti_SndMss t,
          TcpInfoRcvMss := ti_RcvMss t, TcpInfoUnacked := ti_Unacked t,
          TcpInfoSacked := ti_Sacked t, TcpInfoLost := ti_Lost t,
          TcpInfoRetrans := ti_Retrans t, TcpInfoLastDataSent := ti_LastDataSent t,
          TcpInfoLastAckSent := ti_LastAckSent t, TcpInfoLastDataRecv := ti_LastDataRecv t,
          TcpInfoLastAckRecv := ti_LastAckRecv t, TcpInfoPmtu := ti_Pmtu t,
          TcpInfoRcvSsthresh := ti_RcvSsthresh t, TcpInfoRtt := ti_Rtt t,
          TcpInfoRttvar := ti_Rttvar t, TcpInfoSndSsthresh := ti_SndSsthresh t,
          TcpInfoSndCwnd := ti_SndCwnd t, TcpInfoAdvmss := ti_AdvMss t,
          TcpInfoReordering := ti_Reordering t, TcpInfoRcvRtt := ti_RcvRtt t,
          TcpInfoRcvSpace := ti_RcvSpace t, TcpInfoTotalRetrans := ti_TotalRetrans t,
          TcpInfoPacingRate := ti_PacingRate t, TcpInfoMaxPacingRate := ti_MaxPacingRate t,
          TcpInfoBytesAcked := ti_BytesAcked t, TcpInfoBytesReceived := ti_BytesReceived t,
          TcpInfoSegsOut := ti_SegsOut t, TcpInfoSegsIn := ti_SegsIn t,
          TcpInfoNotsentBytes := ti_NotSentBytes t, TcpInfoMinRtt := ti_MinRtt t,
          TcpInfoDataSegsIn := ti_DataSegsIn t, TcpInfoDataSegsOut := ti_DataSegsOut t,
          TcpInfoDeliveryRate := ti_DeliveryRate t, TcpInfoBusyTime := ti_BusyTime t,
          TcpInfoRwndLimited := ti_RwndLimited t,
          TcpInfoSndbufLimited := ti_SndbufLimited t\<rparr>"

definition put_tcp_Tail4_19 :: "TCPInfo \<Rightarrow> XtcpFlatRecord \<Rightarrow> XtcpFlatRecord" where
  "put_tcp_Tail4_19 t x =
     x\<lparr>TcpInfoDelivered := ti_Delivered t, TcpInfoDeliveredCe := ti_DeliveredCe t,
          TcpInfoBytesSent := ti_BytesSent t, TcpInfoBytesRetrans := ti_BytesRetrans t,
          TcpInfoDsackDups := ti_DsackDups t, TcpInfoReordSeen := ti_ReordSeen t\<rparr>"

definition put_tcp_Tail5_4 :: "TCPInfo \<Rightarrow> XtcpFlatRecord \<Rightarrow> XtcpFlatRecord" where
  "put_tcp_Tail5_4 t x =
     x\<lparr>TcpInfoRcvOoopack := ti_RcvOoopack t, TcpInfoSndWnd := ti_SndWnd t\<rparr>"

definition put_tcp_Tail6_6 :: "TCPInfo \<Rightarrow> XtcpFlatRecord \<Rightarrow> XtcpFlatRecord" where
  "put_tcp_Tail6_6 t x =
     x\<lparr>TcpInfoRcvWnd := ti_RcvWnd t, TcpInfoRehash := ti_Rehash t\<rparr>"

definition put_tcp_Tail6_10 :: "TCPInfo \<Rightarrow> XtcpFlatRecord \<Rightarrow> XtcpFlatRecord" where
  "put_tcp_Tail6_10 t x =
     x\<lparr>TcpInfoTotalRto := ucast (ti_TotalRTO t),
          TcpInfoTotalRtoRecoveries := ucast (ti_TotalRTORecoveries t),
          TcpInfoTotalRtoTime := ti_TotalRTOTime t\<rparr>"

definition put_tcp_Tail7_0 :: "TCPInfo \<Rightarrow> XtcpFlatRecord \<Rightarrow> XtcpFlatRecord" where
  "put_tcp_Tail7_0 t x =
     x\<lparr>TcpInfoReceivedCe := ti_ReceivedCe t,
          TcpInfoDeliveredE1Bytes := ti_DeliveredE1Bytes t,
          TcpInfoDeliveredE0Bytes := ti_DeliveredE0Bytes t,
          TcpInfoDeliveredCeBytes := ti_DeliveredCeBytes t,
          TcpInfoReceivedE1Bytes := ti_ReceivedE1Bytes t,
          TcpInfoReceivedE0Bytes := ti_ReceivedE0Bytes t,
          TcpInfoReceivedCeBytes := ti_ReceivedCeBytes t,
          TcpInfoEcnMode := ucast (ti_EcnMode t),
          TcpInfoAccecnOptSeen := ucast (ti_AccecnOptSeen t),
          TcpInfoAccecnFailMode := ucast (ti_AccecnFailMode t),
          TcpInfoOptions2 := ti_Options2 t\<rparr>"

lemmas put_tcp_defs =
  put_tcp_Base_def put_tcp_Tail4_19_def put_tcp_Tail5_4_def
  put_tcp_Tail6_6_def put_tcp_Tail6_10_def put_tcp_Tail7_0_def

text \<open>Both forms of a part read the same bytes: the struct form's result, copied, is the
  record form's result, and neither leaves the slice.\<close>

locale tcp_part =
  fixes sdec :: "bytes \<Rightarrow> TCPInfo \<Rightarrow> TCPInfo option"
    and xdec :: "bytes \<Rightarrow> XtcpFlatRecord \<Rightarrow> XtcpFlatRecord option"
    and put :: "TCPInfo \<Rightarrow> XtcpFlatRecord \<Rightarrow> XtcpFlatRecord" and sz :: nat
  assumes short: "length data < sz \<Longrightarrow> sdec data t = Some t \<and> xdec data x = Some x"
    and long: "sz \<le> length data \<Longrightarrow> \<exists>t'. sdec data t = Some t' \<and> xdec data x = Some (put t' x)"
begin

lemma sdec_the: "sdec data t = Some (the (sdec data t))"
  using short [of data t undefined] long [of data t undefined] by (cases "length data < sz") auto

lemma xdec_put:
  "xdec data x = Some (if sz \<le> length data then put (the (sdec data t)) x else x)"
  using short [of data t x] long [of data t x] by (cases "length data < sz") auto

end

interpretation tb: tcp_part deserializeTCPInfoBase deserializeTCPInfoXTCPBase put_tcp_Base TCPInfoMinSizeCst
  by unfold_locales
    (simp_all add: deserializeTCPInfoBase_def deserializeTCPInfoXTCPBase_def put_tcp_Base_def
      size_cst slice_simps codec_simps)

interpretation t419: tcp_part deserializeTCPInfoTail4_19 deserializeTCPInfoXTCPTail4_19 put_tcp_Tail4_19 TCPInfo4_19_219_SizeCst
  by unfold_locales
    (simp_all add: deserializeTCPInfoTail4_19_def deserializeTCPInfoXTCPTail4_19_def put_tcp_Tail4_19_def
      size_cst slice_simps codec_simps)

interpretation t54: tcp_part deserializeTCPInfoTail5_4 deserializeTCPInfoXTCPTail5_4 put_tcp_Tail5_4 TCPInfo5_4_281_SizeCst
  by unfold_locales
    (simp_all add: deserializeTCPInfoTail5_4_def deserializeTCPInfoXTCPTail5_4_def put_tcp_Tail5_4_def
      size_cst slice_simps codec_simps)

interpretation t66: tcp_part deserializeTCPInfoTail6_6 deserializeTCPInfoXTCPTail6_6 put_tcp_Tail6_6 TCPInfo6_6_44_SizeCst
  by unfold_locales
    (simp_all add: deserializeTCPInfoTail6_6_def deserializeTCPInfoXTCPTail6_6_def put_tcp_Tail6_6_def
      size_cst slice_simps codec_simps)

interpretation t610: tcp_part deserializeTCPInfoTail6_10 deserializeTCPInfoXTCPTail6_10 put_tcp_Tail6_10 TCPInfo6_10_3_SizeCst
  by unfold_locales
    (simp_all add: deserializeTCPInfoTail6_10_def deserializeTCPInfoXTCPTail6_10_def put_tcp_Tail6_10_def
      size_cst slice_simps codec_simps)

interpretation t70: tcp_part deserializeTCPInfoTail7_0 deserializeTCPInfoXTCPTail7_0 put_tcp_Tail7_0 TCPInfo7_0_3_SizeCst
  by unfold_locales
    (simp_all add: deserializeTCPInfoTail7_0_def deserializeTCPInfoXTCPTail7_0_def put_tcp_Tail7_0_def
      size_cst slice_simps codec_simps)

text \<open>The early returns skip only parts the payload is too short for, so both decoders run
  all six parts.\<close>

lemma DeserializeTCPInfoXTCP_chain:
  "192 \<le> length data \<Longrightarrow>
     DeserializeTCPInfoXTCP data x = do {
       x \<leftarrow> deserializeTCPInfoXTCPBase data x; x \<leftarrow> deserializeTCPInfoXTCPTail4_19 data x;
       x \<leftarrow> deserializeTCPInfoXTCPTail5_4 data x; x \<leftarrow> deserializeTCPInfoXTCPTail6_6 data x;
       x \<leftarrow> deserializeTCPInfoXTCPTail6_10 data x; x \<leftarrow> deserializeTCPInfoXTCPTail7_0 data x;
       Some (x, None) }"
  by (simp add: DeserializeTCPInfoXTCP_def size_cst tb.xdec_put [of _ _ undefined]
      t419.xdec_put [of _ _ undefined] t54.xdec_put [of _ _ undefined]
      t66.xdec_put [of _ _ undefined] t610.xdec_put [of _ _ undefined]
      t70.xdec_put [of _ _ undefined])

text \<open>The number of bytes the struct decoder reports.\<close>

definition tcp_info_consumed :: "nat \<Rightarrow> nat" where
  "tcp_info_consumed n = (if n \<in> {192, 224, 232, 240} then n else if n < 280 then 248 else 280)"

lemma DeserializeTCPInfo_chain:
  assumes "192 \<le> length data"
  shows "DeserializeTCPInfo data t = do {
       t \<leftarrow> deserializeTCPInfoBase data t; t \<leftarrow> deserializeTCPInfoTail4_19 data t;
       t \<leftarrow> deserializeTCPInfoTail5_4 data t; t \<leftarrow> deserializeTCPInfoTail6_6 data t;
       t \<leftarrow> deserializeTCPInfoTail6_10 data t; t \<leftarrow> deserializeTCPInfoTail7_0 data t;
       Some (t, Inr (tcp_info_consumed (length data))) }"
proof -
  note short = t419.short [THEN conjunct1] t54.short [THEN conjunct1] t66.short [THEN conjunct1]
    t610.short [THEN conjunct1] t70.short [THEN conjunct1]
  consider "length data \<in> {192, 224, 232, 240}" | "length data \<notin> {192, 224, 232, 240}" "length data < 280"
    | "280 \<le> length data" by linarith
  then show ?thesis
    using assms
    by cases (auto simp: DeserializeTCPInfo_def tcp_info_consumed_def size_cst short)
qed

text \<open>A later part leaves the fields of the earlier parts alone.\<close>

lemma put_tcp_frame_Tail4_19 [simp]:
  "put_tcp_Base (the (deserializeTCPInfoTail4_19 data t)) = put_tcp_Base t"
  by (cases "length data < TCPInfo4_19_219_SizeCst";
      simp add: deserializeTCPInfoTail4_19_def size_cst slice_simps;
      simp add: fun_eq_iff put_tcp_defs)+

lemma put_tcp_frame_Tail5_4 [simp]:
  "put_tcp_Base (the (deserializeTCPInfoTail5_4 data t)) = put_tcp_Base t"
  "put_tcp_Tail4_19 (the (deserializeTCPInfoTail5_4 data t)) = put_tcp_Tail4_19 t"
  by (cases "length data < TCPInfo5_4_281_SizeCst";
      simp add: deserializeTCPInfoTail5_4_def size_cst slice_simps;
      simp add: fun_eq_iff put_tcp_defs)+

lemma put_tcp_frame_Tail6_6 [simp]:
  "put_tcp_Base (the (deserializeTCPInfoTail6_6 data t)) = put_tcp_Base t"
  "put_tcp_Tail4_19 (the (deserializeTCPInfoTail6_6 data t)) = put_tcp_Tail4_19 t"
  "put_tcp_Tail5_4 (the (deserializeTCPInfoTail6_6 data t)) = put_tcp_Tail5_4 t"
  by (cases "length data < TCPInfo6_6_44_SizeCst";
      simp add: deserializeTCPInfoTail6_6_def size_cst slice_simps;
      simp add: fun_eq_iff put_tcp_defs)+

lemma put_tcp_frame_Tail6_10 [simp]:
  "put_tcp_Base (the (deserializeTCPInfoTail6_10 data t)) = put_tcp_Base t"
  "put_tcp_Tail4_19 (the (deserializeTCPInfoTail6_10 data t)) = put_tcp_Tail4_19 t"
  "put_tcp_Tail5_4 (the (deserializeTCPInfoTail6_10 data t)) = put_tcp_Tail5_4 t"
  "put_tcp_Tail6_6 (the (deserializeTCPInfoTail6_10 data t)) = put_tcp_Tail6_6 t"
  by (cases "length data < TCPInfo6_10_3_SizeCst";
      simp add: deserializeTCPInfoTail6_10_def size_cst slice_simps;
      simp add: fun_eq_iff put_tcp_defs)+

lemma put_tcp_frame_Tail7_0 [simp]:
  "put_tcp_Base (the (deserializeTCPInfoTail7_0 data t)) = put_tcp_Base t"
  "put_tcp_Tail4_19 (the (deserializeTCPInfoTail7_0 data t)) = put_tcp_Tail4_19 t"
  "put_tcp_Tail5_4 (the (deserializeTCPInfoTail7_0 data t)) = put_tcp_Tail5_4 t"
  "put_tcp_Tail6_6 (the (deserializeTCPInfoTail7_0 data t)) = put_tcp_Tail6_6 t"
  "put_tcp_Tail6_10 (the (deserializeTCPInfoTail7_0 data t)) = put_tcp_Tail6_10 t"
  by (cases "length data < TCPInfo7_0_3_SizeCst";
      simp add: deserializeTCPInfoTail7_0_def size_cst slice_simps;
      simp add: fun_eq_iff put_tcp_defs)+

text \<open>The parts of the struct that a payload of \<open>n\<close> bytes fills, copied into the columns.\<close>

definition put_TCPInfo :: "nat \<Rightarrow> TCPInfo \<Rightarrow> XtcpFlatRecord \<Rightarrow> XtcpFlatRecord" where
  "put_TCPInfo n t x = (
     let x = put_tcp_Base t x;
         x = (if 224 \<le> n then put_tcp_Tail4_19 t x else x);
         x = (if 232 \<le> n then put_tcp_Tail5_4 t x else x);
         x = (if 240 \<le> n then put_tcp_Tail6_6 t x else x);
         x = (if 248 \<le> n then put_tcp_Tail6_10 t x else x)
     in if 280 \<le> n then put_tcp_Tail7_0 t x else x)"

lemma DeserializeTCPInfo_the:
  assumes "192 \<le> length data"
  shows "\<exists>t'. DeserializeTCPInfo data t = Some (t', Inr (tcp_info_consumed (length data)))
     \<and> DeserializeTCPInfoXTCP data x = Some (put_TCPInfo (length data) t' x, None)"
proof -
  define t0 where "t0 = the (deserializeTCPInfoBase data t)"
  define t1 where "t1 = the (deserializeTCPInfoTail4_19 data t0)"
  define t2 where "t2 = the (deserializeTCPInfoTail5_4 data t1)"
  define t3 where "t3 = the (deserializeTCPInfoTail6_6 data t2)"
  define t4 where "t4 = the (deserializeTCPInfoTail6_10 data t3)"
  define t5 where "t5 = the (deserializeTCPInfoTail7_0 data t4)"
  note sdecs = tb.sdec_the [of data t, folded t0_def] t419.sdec_the [of data t0, folded t1_def]
    t54.sdec_the [of data t1, folded t2_def] t66.sdec_the [of data t2, folded t3_def]
    t610.sdec_the [of data t3, folded t4_def] t70.sdec_the [of data t4, folded t5_def]
  note xdecs = tb.xdec_put [of data _ t, folded t0_def] t419.xdec_put [of data _ t0, folded t1_def]
    t54.xdec_put [of data _ t1, folded t2_def] t66.xdec_put [of data _ t2, folded t3_def]
    t610.xdec_put [of data _ t3, folded t4_def] t70.xdec_put [of data _ t4, folded t5_def]
  have same: "put_tcp_Base t5 = put_tcp_Base t0" "put_tcp_Tail4_19 t5 = put_tcp_Tail4_19 t1"
    "put_tcp_Tail5_4 t5 = put_tcp_Tail5_4 t2" "put_tcp_Tail6_6 t5 = put_tcp_Tail6_6 t3"
    "put_tcp_Tail6_10 t5 = put_tcp_Tail6_10 t4"
    by (simp_all add: t1_def t2_def t3_def t4_def t5_def)
  have "DeserializeTCPInfo data t = Some (t5, Inr (tcp_info_consumed (length data)))"
    using assms by (simp add: DeserializeTCPInfo_chain sdecs)
  moreover have "DeserializeTCPInfoXTCP data x = Some (put_TCPInfo (length data) t5 x, None)"
    using assms
    by (cases "224 \<le> length data"; cases "232 \<le> length data"; cases "240 \<le> length data";
        cases "248 \<le> length data"; cases "280 \<le> length data")
      (simp_all add: DeserializeTCPInfoXTCP_chain xdecs put_TCPInfo_def same size_cst)
  ultimately show ?thesis by blast
qed

interpretation tcp: attr_decoder DeserializeTCPInfoXTCP TCPInfoMinSizeCst ErrTCPInfoSmall
proof
  fix data x
  show "length data < TCPInfoMinSizeCst \<Longrightarrow> DeserializeTCPInfoXTCP data x = Some (x, Some ErrTCPInfoSmall)"
    by (simp add: DeserializeTCPInfoXTCP_def)
  show "TCPInfoMinSizeCst \<le> length data \<Longrightarrow> \<exists>x'. DeserializeTCPInfoXTCP data x = Some (x', None)"
    using DeserializeTCPInfo_the [of data undefined x] by (auto simp: size_cst)
qed

lemma DeserializeTCPInfoXTCP_put:
  "\<exists>f. (\<forall>x. fst (the (DeserializeTCPInfoXTCP data x)) = f x) \<and> (f = id \<or> (\<exists>t. f = put_TCPInfo (length data) t))"
proof (cases "length data < 192")
  case True
  then show ?thesis by (intro exI [of _ id]) (simp add: DeserializeTCPInfoXTCP_def size_cst)
next
  case False
  then obtain t' where t': "DeserializeTCPInfo data undefined = Some (t', Inr (tcp_info_consumed (length data)))"
    using DeserializeTCPInfo_the [of data undefined undefined] by auto
  have "fst (the (DeserializeTCPInfoXTCP data x)) = put_TCPInfo (length data) t' x" for x
    using False t' DeserializeTCPInfo_the [of data undefined x] by auto
  then show ?thesis by (intro exI [of _ "put_TCPInfo (length data) t'"]) auto
qed

lemma put_TCPInfo_commutes:
  assumes "\<And>t r. put_tcp_Base t (g r) = g (put_tcp_Base t r)" "\<And>t r. put_tcp_Tail4_19 t (g r) = g (put_tcp_Tail4_19 t r)"
    "\<And>t r. put_tcp_Tail5_4 t (g r) = g (put_tcp_Tail5_4 t r)" "\<And>t r. put_tcp_Tail6_6 t (g r) = g (put_tcp_Tail6_6 t r)"
    "\<And>t r. put_tcp_Tail6_10 t (g r) = g (put_tcp_Tail6_10 t r)" "\<And>t r. put_tcp_Tail7_0 t (g r) = g (put_tcp_Tail7_0 t r)"
  shows "put_TCPInfo n t (g r) = g (put_TCPInfo n t r)"
  by (simp add: put_TCPInfo_def Let_def assms)

lemma put_TCPInfo_keeps:
  assumes "\<And>t r. h (put_tcp_Base t r) = h r" "\<And>t r. h (put_tcp_Tail4_19 t r) = h r"
    "\<And>t r. h (put_tcp_Tail5_4 t r) = h r" "\<And>t r. h (put_tcp_Tail6_6 t r) = h r"
    "\<And>t r. h (put_tcp_Tail6_10 t r) = h r" "\<And>t r. h (put_tcp_Tail7_0 t r) = h r"
  shows "h (put_TCPInfo n t r) = h r"
  by (simp add: put_TCPInfo_def Let_def assms)

section \<open>Properties\<close>

text \<open>C11: the two \<open>tcp_info\<close> decoders agree on every payload length, including those
  between kernel releases. Decoding into the record is decoding into the struct and
  copying exactly the parts the payload is long enough for; a part the payload does
  not reach leaves its columns as they were.\<close>

theorem tcp_info_decoders_agree:
  "DeserializeTCPInfoXTCP data x =
     map_option (via_struct (put_TCPInfo (length data)) x) (DeserializeTCPInfo data t)"
proof (cases "length data < 192")
  case True
  then show ?thesis
    by (simp add: DeserializeTCPInfoXTCP_def DeserializeTCPInfo_def via_struct_def size_cst)
next
  case False
  then show ?thesis
    using DeserializeTCPInfo_the [of data t x] by (auto simp: via_struct_def)
qed

text \<open>The byte count the struct decoder reports stays within the payload exactly for
  the five known sizes and for payloads of 248 bytes or more. For any other length
  from 193 to 247 it reports 248, more bytes than the message has.\<close>

theorem tcp_info_consumed_within:
  assumes "192 \<le> length data"
  shows "\<exists>t' n. DeserializeTCPInfo data t = Some (t', Inr n)
    \<and> (n \<le> length data \<longleftrightarrow> length data \<in> {192, 224, 232, 240} \<or> 248 \<le> length data)
    \<and> (\<not> n \<le> length data \<longrightarrow> n = TCPInfo6_10_3_SizeCst)"
  using DeserializeTCPInfo_the [OF assms, of t undefined]
  by (auto simp: tcp_info_consumed_def size_cst)

theorem tcp_info_consumed_within_witness:
  "\<forall>t0. \<exists>t' n. DeserializeTCPInfo (replicate 200 7) t0 = Some (t', Inr n) \<and> 200 < n"
proof
  fix t0
  show "\<exists>t' n. DeserializeTCPInfo (replicate 200 7) t0 = Some (t', Inr n) \<and> 200 < n"
    using tcp_info_consumed_within [of "replicate 200 7" t0] by auto
qed

end
