(* ===== verification/Wire_Format.thy ===== *)
theory Wire_Format
  imports Flat_Record
begin

text \<open>
  The protobuf wire form of the flat record and of its envelope, as the generated
  marshalling code writes it (\<open>gen/go/xtcp_flat_record/xtcp_flat_record_vtproto.pb.go\<close>):
  \<open>SizeVT\<close>, which sizes the buffer, and \<open>MarshalToSizedBufferVT\<close>, which fills it from
  the end. The two functions walk the 172 columns in opposite orders and each is
  split here into one definition per run of columns. The varint helpers of the
  vtprotobuf library are parameters: \<open>sov\<close> is \<open>SizeOfVarint\<close> and \<open>enc v\<close> the bytes
  \<open>EncodeVarint\<close> stores below its offset. A message of the daemon carries no unknown
  fields, so that slice is left out.
\<close>

section \<open>Numbers and bytes\<close>

fun Locality_num :: "Locality \<Rightarrow> u64" where
  "Locality_num LOCALITY_UNSPECIFIED = 0"
| "Locality_num LOCALITY_SELF = 1"
| "Locality_num LOCALITY_LOCAL_SUBNET = 2"
| "Locality_num LOCALITY_REMOTE = 3"

fun CongestionAlgorithm_num :: "CongestionAlgorithm \<Rightarrow> u64" where
  "CongestionAlgorithm_num CONGESTION_ALGORITHM_UNSPECIFIED = 0"
| "CongestionAlgorithm_num CONGESTION_ALGORITHM_CUBIC = 1"
| "CongestionAlgorithm_num CONGESTION_ALGORITHM_DCTCP = 2"
| "CongestionAlgorithm_num CONGESTION_ALGORITHM_VEGAS = 3"
| "CongestionAlgorithm_num CONGESTION_ALGORITHM_PRAGUE = 4"
| "CongestionAlgorithm_num CONGESTION_ALGORITHM_BBR1 = 5"
| "CongestionAlgorithm_num CONGESTION_ALGORITHM_BBR2 = 6"
| "CongestionAlgorithm_num CONGESTION_ALGORITHM_BBR3 = 7"

definition str_bytes :: "string \<Rightarrow> bytes" where
  "str_bytes s = map of_char s"

section \<open>Sizes\<close>

text \<open>One numeric column and one length-delimited column: the tag's \<open>k\<close> bytes and the
  value, and nothing at all for a zero or empty column.\<close>

definition size_u :: "(u64 \<Rightarrow> nat) \<Rightarrow> nat \<Rightarrow> u64 \<Rightarrow> nat" where
  "size_u sov k v = (if v \<noteq> 0 then k + sov v else 0)"

definition size_b :: "(u64 \<Rightarrow> nat) \<Rightarrow> nat \<Rightarrow> bytes \<Rightarrow> nat" where
  "size_b sov k b = (if 0 < length b then k + length b + sov (of_nat (length b)) else 0)"

definition SizeVT_1 :: "(u64 \<Rightarrow> nat) \<Rightarrow> XtcpFlatRecord \<Rightarrow> nat" where
  "SizeVT_1 sov m =
     size_u sov 1 (ucast (SchemaVersion m)) +
     size_b sov 1 (str_bytes (DaemonVersion m)) +
     size_u sov 1 (TimestampNs m) +
     size_b sov 2 (str_bytes (Hostname m)) +
     size_b sov 2 (str_bytes (Location m)) +
     size_b sov 2 (str_bytes (Netns m)) +
     size_u sov 2 (NetnsInode m) +
     size_u sov 2 (ucast (Nsid m)) +
     size_b sov 2 (str_bytes (ContainerId m)) +
     size_b sov 2 (str_bytes (ContainerRuntime m)) +
     size_b sov 2 (str_bytes (ContainerName m)) +
     size_b sov 2 (str_bytes (ContainerImage m)) +
     size_b sov 2 (str_bytes (Label m)) +
     size_b sov 2 (str_bytes (Tag m)) +
     size_u sov 2 (RecordCounter m) +
     size_u sov 2 (SocketFd m) +
     size_u sov 2 (NetlinkerId m) +
     size_b sov 2 (str_bytes (Uplink1Ifname m)) +
     size_b sov 2 (str_bytes (Uplink1NicDriver m)) +
     size_b sov 2 (str_bytes (Uplink1NicModel m)) +
     size_u sov 2 (ucast (Uplink1NicPciVendor m)) +
     size_u sov 2 (ucast (Uplink1NicPciDevice m)) +
     size_b sov 2 (str_bytes (Uplink1NicBusInfo m)) +
     size_u sov 2 (ucast (Uplink1NicSpeedMbps m)) +
     size_b sov 2 (str_bytes (Uplink1NicFwVersion m)) +
     size_b sov 2 (str_bytes (Uplink1LldpChassisName m)) +
     size_b sov 2 (str_bytes (Uplink1LldpChassisId m)) +
     size_b sov 2 (str_bytes (Uplink1LldpMgmtIp m)) +
     size_b sov 2 (str_bytes (Uplink1LldpPortId m)) +
     size_b sov 2 (str_bytes (Uplink1LldpPortDescr m)) +
     size_b sov 2 (str_bytes (Uplink2Ifname m)) +
     size_b sov 2 (str_bytes (Uplink2NicDriver m)) +
     size_b sov 2 (str_bytes (Uplink2NicModel m)) +
     size_u sov 2 (ucast (Uplink2NicPciVendor m)) +
     size_u sov 2 (ucast (Uplink2NicPciDevice m)) +
     size_b sov 2 (str_bytes (Uplink2NicBusInfo m))"

definition SizeVT_2 :: "(u64 \<Rightarrow> nat) \<Rightarrow> XtcpFlatRecord \<Rightarrow> nat" where
  "SizeVT_2 sov m =
     size_u sov 2 (ucast (Uplink2NicSpeedMbps m)) +
     size_b sov 2 (str_bytes (Uplink2NicFwVersion m)) +
     size_b sov 2 (str_bytes (Uplink2LldpChassisName m)) +
     size_b sov 2 (str_bytes (Uplink2LldpChassisId m)) +
     size_b sov 2 (str_bytes (Uplink2LldpMgmtIp m)) +
     size_b sov 2 (str_bytes (Uplink2LldpPortId m)) +
     size_b sov 2 (str_bytes (Uplink2LldpPortDescr m)) +
     size_b sov 2 (str_bytes (EnrichSocketInterfaceName m)) +
     size_u sov 2 (Locality_num (EnrichSocketDestLocality m)) +
     size_u sov 2 (ucast (EnrichSocketDestEgressIfindex m)) +
     size_b sov 2 (str_bytes (EnrichSocketDestEgressIfname m)) +
     size_u sov 2 (EnrichSocketDestAsn m) +
     size_u sov 2 (EnrichSocketDestNextHopAsn m) +
     size_b sov 2 (str_bytes (EnrichSocketDestNetworkOwner m)) +
     size_u sov 2 (ucast (InetDiagMsgFamily m)) +
     size_u sov 2 (ucast (InetDiagMsgState m)) +
     size_u sov 2 (ucast (InetDiagMsgTimer m)) +
     size_u sov 2 (ucast (InetDiagMsgRetrans m)) +
     size_u sov 2 (ucast (InetDiagMsgSocketSourcePort m)) +
     size_u sov 2 (ucast (InetDiagMsgSocketDestinationPort m)) +
     size_b sov 2 (InetDiagMsgSocketSource m) +
     size_b sov 2 (InetDiagMsgSocketDestination m) +
     size_u sov 2 (ucast (InetDiagMsgSocketInterface m)) +
     size_u sov 2 (InetDiagMsgSocketCookie m) +
     size_u sov 2 (ucast (InetDiagMsgExpires m)) +
     size_u sov 2 (ucast (InetDiagMsgRqueue m)) +
     size_u sov 2 (ucast (InetDiagMsgWqueue m)) +
     size_u sov 2 (ucast (InetDiagMsgUid m)) +
     size_u sov 2 (ucast (InetDiagMsgInode m)) +
     size_u sov 2 (ucast (MemInfoRmem m)) +
     size_u sov 2 (ucast (MemInfoWmem m)) +
     size_u sov 2 (ucast (MemInfoFmem m)) +
     size_u sov 2 (ucast (MemInfoTmem m)) +
     size_u sov 2 (ucast (TcpInfoState m)) +
     size_u sov 2 (ucast (TcpInfoCaState m)) +
     size_u sov 2 (ucast (TcpInfoRetransmits m))"

definition SizeVT_3 :: "(u64 \<Rightarrow> nat) \<Rightarrow> XtcpFlatRecord \<Rightarrow> nat" where
  "SizeVT_3 sov m =
     size_u sov 2 (ucast (TcpInfoProbes m)) +
     size_u sov 2 (ucast (TcpInfoBackoff m)) +
     size_u sov 2 (ucast (TcpInfoOptions m)) +
     size_u sov 2 (ucast (TcpInfoSndWscale m)) +
     size_u sov 2 (ucast (TcpInfoRcvWscale m)) +
     size_u sov 2 (ucast (TcpInfoDeliveryRateAppLimited m)) +
     size_u sov 2 (ucast (TcpInfoFastopenClientFail m)) +
     size_u sov 2 (ucast (TcpInfoRto m)) +
     size_u sov 2 (ucast (TcpInfoAto m)) +
     size_u sov 2 (ucast (TcpInfoSndMss m)) +
     size_u sov 2 (ucast (TcpInfoRcvMss m)) +
     size_u sov 2 (ucast (TcpInfoUnacked m)) +
     size_u sov 2 (ucast (TcpInfoSacked m)) +
     size_u sov 2 (ucast (TcpInfoLost m)) +
     size_u sov 2 (ucast (TcpInfoRetrans m)) +
     size_u sov 2 (ucast (TcpInfoFackets m)) +
     size_u sov 2 (ucast (TcpInfoLastDataSent m)) +
     size_u sov 2 (ucast (TcpInfoLastAckSent m)) +
     size_u sov 2 (ucast (TcpInfoLastDataRecv m)) +
     size_u sov 2 (ucast (TcpInfoLastAckRecv m)) +
     size_u sov 2 (ucast (TcpInfoPmtu m)) +
     size_u sov 2 (ucast (TcpInfoRcvSsthresh m)) +
     size_u sov 2 (ucast (TcpInfoRtt m)) +
     size_u sov 2 (ucast (TcpInfoRttvar m)) +
     size_u sov 2 (ucast (TcpInfoSndSsthresh m)) +
     size_u sov 2 (ucast (TcpInfoSndCwnd m)) +
     size_u sov 2 (ucast (TcpInfoAdvmss m)) +
     size_u sov 2 (ucast (TcpInfoReordering m)) +
     size_u sov 2 (ucast (TcpInfoRcvRtt m)) +
     size_u sov 2 (ucast (TcpInfoRcvSpace m)) +
     size_u sov 2 (ucast (TcpInfoTotalRetrans m)) +
     size_u sov 2 (TcpInfoPacingRate m) +
     size_u sov 2 (TcpInfoMaxPacingRate m) +
     size_u sov 2 (TcpInfoBytesAcked m) +
     size_u sov 2 (TcpInfoBytesReceived m) +
     size_u sov 2 (ucast (TcpInfoSegsOut m))"

definition SizeVT_4 :: "(u64 \<Rightarrow> nat) \<Rightarrow> XtcpFlatRecord \<Rightarrow> nat" where
  "SizeVT_4 sov m =
     size_u sov 2 (ucast (TcpInfoSegsIn m)) +
     size_u sov 2 (ucast (TcpInfoNotsentBytes m)) +
     size_u sov 2 (ucast (TcpInfoMinRtt m)) +
     size_u sov 2 (ucast (TcpInfoDataSegsIn m)) +
     size_u sov 2 (ucast (TcpInfoDataSegsOut m)) +
     size_u sov 2 (TcpInfoDeliveryRate m) +
     size_u sov 2 (TcpInfoBusyTime m) +
     size_u sov 2 (TcpInfoRwndLimited m) +
     size_u sov 2 (TcpInfoSndbufLimited m) +
     size_u sov 2 (ucast (TcpInfoDelivered m)) +
     size_u sov 2 (ucast (TcpInfoDeliveredCe m)) +
     size_u sov 2 (TcpInfoBytesSent m) +
     size_u sov 2 (TcpInfoBytesRetrans m) +
     size_u sov 2 (ucast (TcpInfoDsackDups m)) +
     size_u sov 2 (ucast (TcpInfoReordSeen m)) +
     size_u sov 2 (ucast (TcpInfoRcvOoopack m)) +
     size_u sov 2 (ucast (TcpInfoSndWnd m)) +
     size_u sov 2 (ucast (TcpInfoRcvWnd m)) +
     size_u sov 2 (ucast (TcpInfoRehash m)) +
     size_u sov 2 (ucast (TcpInfoTotalRto m)) +
     size_u sov 2 (ucast (TcpInfoTotalRtoRecoveries m)) +
     size_u sov 2 (ucast (TcpInfoTotalRtoTime m)) +
     size_u sov 2 (ucast (TcpInfoReceivedCe m)) +
     size_u sov 2 (ucast (TcpInfoDeliveredE1Bytes m)) +
     size_u sov 2 (ucast (TcpInfoDeliveredE0Bytes m)) +
     size_u sov 2 (ucast (TcpInfoDeliveredCeBytes m)) +
     size_u sov 2 (ucast (TcpInfoReceivedE1Bytes m)) +
     size_u sov 2 (ucast (TcpInfoReceivedE0Bytes m)) +
     size_u sov 2 (ucast (TcpInfoReceivedCeBytes m)) +
     size_u sov 2 (ucast (TcpInfoEcnMode m)) +
     size_u sov 2 (ucast (TcpInfoAccecnOptSeen m)) +
     size_u sov 2 (ucast (TcpInfoAccecnFailMode m)) +
     size_u sov 2 (ucast (TcpInfoOptions2 m)) +
     size_b sov 2 (str_bytes (InetDiagCong m)) +
     size_u sov 2 (CongestionAlgorithm_num (InetDiagCongEnum m)) +
     size_u sov 2 (ucast (InetDiagTos m))"

definition SizeVT_5 :: "(u64 \<Rightarrow> nat) \<Rightarrow> XtcpFlatRecord \<Rightarrow> nat" where
  "SizeVT_5 sov m =
     size_u sov 2 (ucast (InetDiagTclass m)) +
     size_u sov 2 (ucast (SkMemInfoRmemAlloc m)) +
     size_u sov 2 (ucast (SkMemInfoRcvbuf m)) +
     size_u sov 2 (ucast (SkMemInfoWmemAlloc m)) +
     size_u sov 2 (ucast (SkMemInfoSndbuf m)) +
     size_u sov 2 (ucast (SkMemInfoFwdAlloc m)) +
     size_u sov 2 (ucast (SkMemInfoWmemQueued m)) +
     size_u sov 2 (ucast (SkMemInfoOptmem m)) +
     size_u sov 2 (ucast (SkMemInfoBacklog m)) +
     size_u sov 2 (ucast (SkMemInfoDrops m)) +
     size_u sov 2 (ucast (InetDiagShutdown m)) +
     size_u sov 2 (ucast (VegasInfoEnabled m)) +
     size_u sov 2 (ucast (VegasInfoRttcnt m)) +
     size_u sov 2 (ucast (VegasInfoRtt m)) +
     size_u sov 2 (ucast (VegasInfoMinrtt m)) +
     size_u sov 2 (ucast (DctcpInfoEnabled m)) +
     size_u sov 2 (ucast (DctcpInfoCeState m)) +
     size_u sov 2 (ucast (DctcpInfoAlpha m)) +
     size_u sov 2 (ucast (DctcpInfoAbEcn m)) +
     size_u sov 2 (ucast (DctcpInfoAbTot m)) +
     size_u sov 2 (ucast (BbrInfoBwLo m)) +
     size_u sov 2 (ucast (BbrInfoBwHi m)) +
     size_u sov 2 (ucast (BbrInfoMinRtt m)) +
     size_u sov 2 (ucast (BbrInfoPacingGain m)) +
     size_u sov 2 (ucast (BbrInfoCwndGain m)) +
     size_u sov 2 (ucast (InetDiagClassId m)) +
     size_u sov 2 (ucast (InetDiagSockopt m)) +
     size_u sov 2 (InetDiagCgroupId m)"

definition SizeVT :: "(u64 \<Rightarrow> nat) \<Rightarrow> XtcpFlatRecord \<Rightarrow> nat" where
  "SizeVT sov m = SizeVT_1 sov m + SizeVT_2 sov m + SizeVT_3 sov m + SizeVT_4 sov m + SizeVT_5 sov m"

section \<open>Writing from the end of the buffer\<close>

text \<open>The buffer while it is filled: \<open>i\<close> free bytes and the bytes already stored above
  them. A store below index 0 panics.\<close>

type_synonym wbuf = "nat \<times> bytes"

definition put_byte :: "u8 \<Rightarrow> wbuf \<Rightarrow> wbuf option" where
  "put_byte b w = (case w of (i, s) \<Rightarrow> if i = 0 then None else Some (i - 1, b # s))"

definition put_copy :: "bytes \<Rightarrow> wbuf \<Rightarrow> wbuf option" where
  "put_copy b w = (case w of (i, s) \<Rightarrow> if i < length b then None else Some (i - length b, b @ s))"

fun put_tag :: "bytes \<Rightarrow> wbuf \<Rightarrow> wbuf option" where
  "put_tag [] w = Some w"
| "put_tag (t # ts) w = do { w \<leftarrow> put_tag ts w; put_byte t w }"

definition put_u :: "(u64 \<Rightarrow> bytes) \<Rightarrow> bytes \<Rightarrow> u64 \<Rightarrow> wbuf \<Rightarrow> wbuf option" where
  "put_u enc tag v w =
     (if v \<noteq> 0 then do { w \<leftarrow> put_copy (enc v) w; put_tag tag w } else Some w)"

definition put_b :: "(u64 \<Rightarrow> bytes) \<Rightarrow> bytes \<Rightarrow> bytes \<Rightarrow> wbuf \<Rightarrow> wbuf option" where
  "put_b enc tag b w =
     (if 0 < length b then do {
        w \<leftarrow> put_copy b w; w \<leftarrow> put_copy (enc (of_nat (length b))) w; put_tag tag w }
      else Some w)"

definition Marshal_1 :: "(u64 \<Rightarrow> bytes) \<Rightarrow> XtcpFlatRecord \<Rightarrow> wbuf \<Rightarrow> wbuf option" where
  "Marshal_1 enc m w = do {
     w \<leftarrow> put_u enc [0x98, 0x7d] (InetDiagCgroupId m) w;
     w \<leftarrow> put_u enc [0x90, 0x7d] (ucast (InetDiagSockopt m)) w;
     w \<leftarrow> put_u enc [0x88, 0x7d] (ucast (InetDiagClassId m)) w;
     w \<leftarrow> put_u enc [0x88, 0x77] (ucast (BbrInfoCwndGain m)) w;
     w \<leftarrow> put_u enc [0x80, 0x77] (ucast (BbrInfoPacingGain m)) w;
     w \<leftarrow> put_u enc [0xf8, 0x76] (ucast (BbrInfoMinRtt m)) w;
     w \<leftarrow> put_u enc [0xf0, 0x76] (ucast (BbrInfoBwHi m)) w;
     w \<leftarrow> put_u enc [0xe8, 0x76] (ucast (BbrInfoBwLo m)) w;
     w \<leftarrow> put_u enc [0xe8, 0x70] (ucast (DctcpInfoAbTot m)) w;
     w \<leftarrow> put_u enc [0xe0, 0x70] (ucast (DctcpInfoAbEcn m)) w;
     w \<leftarrow> put_u enc [0xd8, 0x70] (ucast (DctcpInfoAlpha m)) w;
     w \<leftarrow> put_u enc [0xd0, 0x70] (ucast (DctcpInfoCeState m)) w;
     w \<leftarrow> put_u enc [0xc8, 0x70] (ucast (DctcpInfoEnabled m)) w;
     w \<leftarrow> put_u enc [0xc0, 0x6a] (ucast (VegasInfoMinrtt m)) w;
     w \<leftarrow> put_u enc [0xb8, 0x6a] (ucast (VegasInfoRtt m)) w;
     put_u enc [0xb0, 0x6a] (ucast (VegasInfoRttcnt m)) w }"

definition Marshal_2 :: "(u64 \<Rightarrow> bytes) \<Rightarrow> XtcpFlatRecord \<Rightarrow> wbuf \<Rightarrow> wbuf option" where
  "Marshal_2 enc m w = do {
     w \<leftarrow> put_u enc [0xa8, 0x6a] (ucast (VegasInfoEnabled m)) w;
     w \<leftarrow> put_u enc [0x80, 0x64] (ucast (InetDiagShutdown m)) w;
     w \<leftarrow> put_u enc [0xa8, 0x5e] (ucast (SkMemInfoDrops m)) w;
     w \<leftarrow> put_u enc [0xa0, 0x5e] (ucast (SkMemInfoBacklog m)) w;
     w \<leftarrow> put_u enc [0x98, 0x5e] (ucast (SkMemInfoOptmem m)) w;
     w \<leftarrow> put_u enc [0x90, 0x5e] (ucast (SkMemInfoWmemQueued m)) w;
     w \<leftarrow> put_u enc [0x88, 0x5e] (ucast (SkMemInfoFwdAlloc m)) w;
     w \<leftarrow> put_u enc [0x80, 0x5e] (ucast (SkMemInfoSndbuf m)) w;
     w \<leftarrow> put_u enc [0xf8, 0x5d] (ucast (SkMemInfoWmemAlloc m)) w;
     w \<leftarrow> put_u enc [0xf0, 0x5d] (ucast (SkMemInfoRcvbuf m)) w;
     w \<leftarrow> put_u enc [0xe8, 0x5d] (ucast (SkMemInfoRmemAlloc m)) w;
     w \<leftarrow> put_u enc [0xd0, 0x57] (ucast (InetDiagTclass m)) w;
     w \<leftarrow> put_u enc [0xc8, 0x57] (ucast (InetDiagTos m)) w;
     w \<leftarrow> put_u enc [0xa8, 0x51] (CongestionAlgorithm_num (InetDiagCongEnum m)) w;
     w \<leftarrow> put_b enc [0xa2, 0x51] (str_bytes (InetDiagCong m)) w;
     put_u enc [0xe0, 0x4f] (ucast (TcpInfoOptions2 m)) w }"

definition Marshal_3 :: "(u64 \<Rightarrow> bytes) \<Rightarrow> XtcpFlatRecord \<Rightarrow> wbuf \<Rightarrow> wbuf option" where
  "Marshal_3 enc m w = do {
     w \<leftarrow> put_u enc [0xd8, 0x4f] (ucast (TcpInfoAccecnFailMode m)) w;
     w \<leftarrow> put_u enc [0xd0, 0x4f] (ucast (TcpInfoAccecnOptSeen m)) w;
     w \<leftarrow> put_u enc [0xc8, 0x4f] (ucast (TcpInfoEcnMode m)) w;
     w \<leftarrow> put_u enc [0xc0, 0x4f] (ucast (TcpInfoReceivedCeBytes m)) w;
     w \<leftarrow> put_u enc [0xb8, 0x4f] (ucast (TcpInfoReceivedE0Bytes m)) w;
     w \<leftarrow> put_u enc [0xb0, 0x4f] (ucast (TcpInfoReceivedE1Bytes m)) w;
     w \<leftarrow> put_u enc [0xa8, 0x4f] (ucast (TcpInfoDeliveredCeBytes m)) w;
     w \<leftarrow> put_u enc [0xa0, 0x4f] (ucast (TcpInfoDeliveredE0Bytes m)) w;
     w \<leftarrow> put_u enc [0x98, 0x4f] (ucast (TcpInfoDeliveredE1Bytes m)) w;
     w \<leftarrow> put_u enc [0x90, 0x4f] (ucast (TcpInfoReceivedCe m)) w;
     w \<leftarrow> put_u enc [0x88, 0x4f] (ucast (TcpInfoTotalRtoTime m)) w;
     w \<leftarrow> put_u enc [0x80, 0x4f] (ucast (TcpInfoTotalRtoRecoveries m)) w;
     w \<leftarrow> put_u enc [0xf8, 0x4e] (ucast (TcpInfoTotalRto m)) w;
     w \<leftarrow> put_u enc [0xf0, 0x4e] (ucast (TcpInfoRehash m)) w;
     w \<leftarrow> put_u enc [0xe8, 0x4e] (ucast (TcpInfoRcvWnd m)) w;
     put_u enc [0xe0, 0x4e] (ucast (TcpInfoSndWnd m)) w }"

definition Marshal_4 :: "(u64 \<Rightarrow> bytes) \<Rightarrow> XtcpFlatRecord \<Rightarrow> wbuf \<Rightarrow> wbuf option" where
  "Marshal_4 enc m w = do {
     w \<leftarrow> put_u enc [0xd8, 0x4e] (ucast (TcpInfoRcvOoopack m)) w;
     w \<leftarrow> put_u enc [0xd0, 0x4e] (ucast (TcpInfoReordSeen m)) w;
     w \<leftarrow> put_u enc [0xc8, 0x4e] (ucast (TcpInfoDsackDups m)) w;
     w \<leftarrow> put_u enc [0xc0, 0x4e] (TcpInfoBytesRetrans m) w;
     w \<leftarrow> put_u enc [0xb8, 0x4e] (TcpInfoBytesSent m) w;
     w \<leftarrow> put_u enc [0xb0, 0x4e] (ucast (TcpInfoDeliveredCe m)) w;
     w \<leftarrow> put_u enc [0xa8, 0x4e] (ucast (TcpInfoDelivered m)) w;
     w \<leftarrow> put_u enc [0xa0, 0x4e] (TcpInfoSndbufLimited m) w;
     w \<leftarrow> put_u enc [0x98, 0x4e] (TcpInfoRwndLimited m) w;
     w \<leftarrow> put_u enc [0x90, 0x4e] (TcpInfoBusyTime m) w;
     w \<leftarrow> put_u enc [0x88, 0x4e] (TcpInfoDeliveryRate m) w;
     w \<leftarrow> put_u enc [0x80, 0x4e] (ucast (TcpInfoDataSegsOut m)) w;
     w \<leftarrow> put_u enc [0xf8, 0x4d] (ucast (TcpInfoDataSegsIn m)) w;
     w \<leftarrow> put_u enc [0xf0, 0x4d] (ucast (TcpInfoMinRtt m)) w;
     w \<leftarrow> put_u enc [0xe8, 0x4d] (ucast (TcpInfoNotsentBytes m)) w;
     put_u enc [0xe0, 0x4d] (ucast (TcpInfoSegsIn m)) w }"

definition Marshal_5 :: "(u64 \<Rightarrow> bytes) \<Rightarrow> XtcpFlatRecord \<Rightarrow> wbuf \<Rightarrow> wbuf option" where
  "Marshal_5 enc m w = do {
     w \<leftarrow> put_u enc [0xd8, 0x4d] (ucast (TcpInfoSegsOut m)) w;
     w \<leftarrow> put_u enc [0xd0, 0x4d] (TcpInfoBytesReceived m) w;
     w \<leftarrow> put_u enc [0xc8, 0x4d] (TcpInfoBytesAcked m) w;
     w \<leftarrow> put_u enc [0xc0, 0x4d] (TcpInfoMaxPacingRate m) w;
     w \<leftarrow> put_u enc [0xb8, 0x4d] (TcpInfoPacingRate m) w;
     w \<leftarrow> put_u enc [0xb0, 0x4d] (ucast (TcpInfoTotalRetrans m)) w;
     w \<leftarrow> put_u enc [0xa8, 0x4d] (ucast (TcpInfoRcvSpace m)) w;
     w \<leftarrow> put_u enc [0xa0, 0x4d] (ucast (TcpInfoRcvRtt m)) w;
     w \<leftarrow> put_u enc [0x98, 0x4d] (ucast (TcpInfoReordering m)) w;
     w \<leftarrow> put_u enc [0x90, 0x4d] (ucast (TcpInfoAdvmss m)) w;
     w \<leftarrow> put_u enc [0x88, 0x4d] (ucast (TcpInfoSndCwnd m)) w;
     w \<leftarrow> put_u enc [0x80, 0x4d] (ucast (TcpInfoSndSsthresh m)) w;
     w \<leftarrow> put_u enc [0xf8, 0x4c] (ucast (TcpInfoRttvar m)) w;
     w \<leftarrow> put_u enc [0xf0, 0x4c] (ucast (TcpInfoRtt m)) w;
     w \<leftarrow> put_u enc [0xe8, 0x4c] (ucast (TcpInfoRcvSsthresh m)) w;
     put_u enc [0xe0, 0x4c] (ucast (TcpInfoPmtu m)) w }"

definition Marshal_6 :: "(u64 \<Rightarrow> bytes) \<Rightarrow> XtcpFlatRecord \<Rightarrow> wbuf \<Rightarrow> wbuf option" where
  "Marshal_6 enc m w = do {
     w \<leftarrow> put_u enc [0xd8, 0x4c] (ucast (TcpInfoLastAckRecv m)) w;
     w \<leftarrow> put_u enc [0xd0, 0x4c] (ucast (TcpInfoLastDataRecv m)) w;
     w \<leftarrow> put_u enc [0xc8, 0x4c] (ucast (TcpInfoLastAckSent m)) w;
     w \<leftarrow> put_u enc [0xc0, 0x4c] (ucast (TcpInfoLastDataSent m)) w;
     w \<leftarrow> put_u enc [0xb8, 0x4c] (ucast (TcpInfoFackets m)) w;
     w \<leftarrow> put_u enc [0xb0, 0x4c] (ucast (TcpInfoRetrans m)) w;
     w \<leftarrow> put_u enc [0xa8, 0x4c] (ucast (TcpInfoLost m)) w;
     w \<leftarrow> put_u enc [0xa0, 0x4c] (ucast (TcpInfoSacked m)) w;
     w \<leftarrow> put_u enc [0x98, 0x4c] (ucast (TcpInfoUnacked m)) w;
     w \<leftarrow> put_u enc [0x90, 0x4c] (ucast (TcpInfoRcvMss m)) w;
     w \<leftarrow> put_u enc [0x88, 0x4c] (ucast (TcpInfoSndMss m)) w;
     w \<leftarrow> put_u enc [0x80, 0x4c] (ucast (TcpInfoAto m)) w;
     w \<leftarrow> put_u enc [0xf8, 0x4b] (ucast (TcpInfoRto m)) w;
     w \<leftarrow> put_u enc [0xd0, 0x4b] (ucast (TcpInfoFastopenClientFail m)) w;
     w \<leftarrow> put_u enc [0xc8, 0x4b] (ucast (TcpInfoDeliveryRateAppLimited m)) w;
     put_u enc [0xc0, 0x4b] (ucast (TcpInfoRcvWscale m)) w }"

definition Marshal_7 :: "(u64 \<Rightarrow> bytes) \<Rightarrow> XtcpFlatRecord \<Rightarrow> wbuf \<Rightarrow> wbuf option" where
  "Marshal_7 enc m w = do {
     w \<leftarrow> put_u enc [0xb8, 0x4b] (ucast (TcpInfoSndWscale m)) w;
     w \<leftarrow> put_u enc [0xb0, 0x4b] (ucast (TcpInfoOptions m)) w;
     w \<leftarrow> put_u enc [0xa8, 0x4b] (ucast (TcpInfoBackoff m)) w;
     w \<leftarrow> put_u enc [0xa0, 0x4b] (ucast (TcpInfoProbes m)) w;
     w \<leftarrow> put_u enc [0x98, 0x4b] (ucast (TcpInfoRetransmits m)) w;
     w \<leftarrow> put_u enc [0x90, 0x4b] (ucast (TcpInfoCaState m)) w;
     w \<leftarrow> put_u enc [0x88, 0x4b] (ucast (TcpInfoState m)) w;
     w \<leftarrow> put_u enc [0x80, 0x45] (ucast (MemInfoTmem m)) w;
     w \<leftarrow> put_u enc [0xf8, 0x44] (ucast (MemInfoFmem m)) w;
     w \<leftarrow> put_u enc [0xf0, 0x44] (ucast (MemInfoWmem m)) w;
     w \<leftarrow> put_u enc [0xe8, 0x44] (ucast (MemInfoRmem m)) w;
     w \<leftarrow> put_u enc [0xc8, 0x3f] (ucast (InetDiagMsgInode m)) w;
     w \<leftarrow> put_u enc [0xc0, 0x3f] (ucast (InetDiagMsgUid m)) w;
     w \<leftarrow> put_u enc [0xb8, 0x3f] (ucast (InetDiagMsgWqueue m)) w;
     w \<leftarrow> put_u enc [0xb0, 0x3f] (ucast (InetDiagMsgRqueue m)) w;
     put_u enc [0xa8, 0x3f] (ucast (InetDiagMsgExpires m)) w }"

definition Marshal_8 :: "(u64 \<Rightarrow> bytes) \<Rightarrow> XtcpFlatRecord \<Rightarrow> wbuf \<Rightarrow> wbuf option" where
  "Marshal_8 enc m w = do {
     w \<leftarrow> put_u enc [0x90, 0x3f] (InetDiagMsgSocketCookie m) w;
     w \<leftarrow> put_u enc [0x88, 0x3f] (ucast (InetDiagMsgSocketInterface m)) w;
     w \<leftarrow> put_b enc [0x82, 0x3f] (InetDiagMsgSocketDestination m) w;
     w \<leftarrow> put_b enc [0xfa, 0x3e] (InetDiagMsgSocketSource m) w;
     w \<leftarrow> put_u enc [0xf0, 0x3e] (ucast (InetDiagMsgSocketDestinationPort m)) w;
     w \<leftarrow> put_u enc [0xe8, 0x3e] (ucast (InetDiagMsgSocketSourcePort m)) w;
     w \<leftarrow> put_u enc [0xe0, 0x3e] (ucast (InetDiagMsgRetrans m)) w;
     w \<leftarrow> put_u enc [0xd8, 0x3e] (ucast (InetDiagMsgTimer m)) w;
     w \<leftarrow> put_u enc [0xd0, 0x3e] (ucast (InetDiagMsgState m)) w;
     w \<leftarrow> put_u enc [0xc8, 0x3e] (ucast (InetDiagMsgFamily m)) w;
     w \<leftarrow> put_b enc [0x92, 0x14] (str_bytes (EnrichSocketDestNetworkOwner m)) w;
     w \<leftarrow> put_u enc [0x88, 0x14] (EnrichSocketDestNextHopAsn m) w;
     w \<leftarrow> put_u enc [0x80, 0x14] (EnrichSocketDestAsn m) w;
     w \<leftarrow> put_b enc [0xc2, 0x13] (str_bytes (EnrichSocketDestEgressIfname m)) w;
     w \<leftarrow> put_u enc [0xb8, 0x13] (ucast (EnrichSocketDestEgressIfindex m)) w;
     put_u enc [0xb0, 0x13] (Locality_num (EnrichSocketDestLocality m)) w }"

definition Marshal_9 :: "(u64 \<Rightarrow> bytes) \<Rightarrow> XtcpFlatRecord \<Rightarrow> wbuf \<Rightarrow> wbuf option" where
  "Marshal_9 enc m w = do {
     w \<leftarrow> put_b enc [0xe2, 0x12] (str_bytes (EnrichSocketInterfaceName m)) w;
     w \<leftarrow> put_b enc [0x82, 0xe] (str_bytes (Uplink2LldpPortDescr m)) w;
     w \<leftarrow> put_b enc [0xfa, 0xd] (str_bytes (Uplink2LldpPortId m)) w;
     w \<leftarrow> put_b enc [0xf2, 0xd] (str_bytes (Uplink2LldpMgmtIp m)) w;
     w \<leftarrow> put_b enc [0xea, 0xd] (str_bytes (Uplink2LldpChassisId m)) w;
     w \<leftarrow> put_b enc [0xe2, 0xd] (str_bytes (Uplink2LldpChassisName m)) w;
     w \<leftarrow> put_b enc [0xfa, 0xc] (str_bytes (Uplink2NicFwVersion m)) w;
     w \<leftarrow> put_u enc [0xf0, 0xc] (ucast (Uplink2NicSpeedMbps m)) w;
     w \<leftarrow> put_b enc [0xea, 0xc] (str_bytes (Uplink2NicBusInfo m)) w;
     w \<leftarrow> put_u enc [0xe0, 0xc] (ucast (Uplink2NicPciDevice m)) w;
     w \<leftarrow> put_u enc [0xd8, 0xc] (ucast (Uplink2NicPciVendor m)) w;
     w \<leftarrow> put_b enc [0xd2, 0xc] (str_bytes (Uplink2NicModel m)) w;
     w \<leftarrow> put_b enc [0xca, 0xc] (str_bytes (Uplink2NicDriver m)) w;
     w \<leftarrow> put_b enc [0xc2, 0xc] (str_bytes (Uplink2Ifname m)) w;
     w \<leftarrow> put_b enc [0xe2, 0x7] (str_bytes (Uplink1LldpPortDescr m)) w;
     put_b enc [0xda, 0x7] (str_bytes (Uplink1LldpPortId m)) w }"

definition Marshal_10 :: "(u64 \<Rightarrow> bytes) \<Rightarrow> XtcpFlatRecord \<Rightarrow> wbuf \<Rightarrow> wbuf option" where
  "Marshal_10 enc m w = do {
     w \<leftarrow> put_b enc [0xd2, 0x7] (str_bytes (Uplink1LldpMgmtIp m)) w;
     w \<leftarrow> put_b enc [0xca, 0x7] (str_bytes (Uplink1LldpChassisId m)) w;
     w \<leftarrow> put_b enc [0xc2, 0x7] (str_bytes (Uplink1LldpChassisName m)) w;
     w \<leftarrow> put_b enc [0xda, 0x6] (str_bytes (Uplink1NicFwVersion m)) w;
     w \<leftarrow> put_u enc [0xd0, 0x6] (ucast (Uplink1NicSpeedMbps m)) w;
     w \<leftarrow> put_b enc [0xca, 0x6] (str_bytes (Uplink1NicBusInfo m)) w;
     w \<leftarrow> put_u enc [0xc0, 0x6] (ucast (Uplink1NicPciDevice m)) w;
     w \<leftarrow> put_u enc [0xb8, 0x6] (ucast (Uplink1NicPciVendor m)) w;
     w \<leftarrow> put_b enc [0xb2, 0x6] (str_bytes (Uplink1NicModel m)) w;
     w \<leftarrow> put_b enc [0xaa, 0x6] (str_bytes (Uplink1NicDriver m)) w;
     w \<leftarrow> put_b enc [0xa2, 0x6] (str_bytes (Uplink1Ifname m)) w;
     w \<leftarrow> put_u enc [0xf0, 0x3] (NetlinkerId m) w;
     w \<leftarrow> put_u enc [0xe8, 0x3] (SocketFd m) w;
     w \<leftarrow> put_u enc [0xe0, 0x3] (RecordCounter m) w;
     w \<leftarrow> put_b enc [0x9a, 0x3] (str_bytes (Tag m)) w;
     put_b enc [0x92, 0x3] (str_bytes (Label m)) w }"

definition Marshal_11 :: "(u64 \<Rightarrow> bytes) \<Rightarrow> XtcpFlatRecord \<Rightarrow> wbuf \<Rightarrow> wbuf option" where
  "Marshal_11 enc m w = do {
     w \<leftarrow> put_b enc [0xda, 0x2] (str_bytes (ContainerImage m)) w;
     w \<leftarrow> put_b enc [0xd2, 0x2] (str_bytes (ContainerName m)) w;
     w \<leftarrow> put_b enc [0xca, 0x2] (str_bytes (ContainerRuntime m)) w;
     w \<leftarrow> put_b enc [0xc2, 0x2] (str_bytes (ContainerId m)) w;
     w \<leftarrow> put_u enc [0x80, 0x2] (ucast (Nsid m)) w;
     w \<leftarrow> put_u enc [0xf8, 0x1] (NetnsInode m) w;
     w \<leftarrow> put_b enc [0xf2, 0x1] (str_bytes (Netns m)) w;
     w \<leftarrow> put_b enc [0xaa, 0x1] (str_bytes (Location m)) w;
     w \<leftarrow> put_b enc [0xa2, 0x1] (str_bytes (Hostname m)) w;
     w \<leftarrow> put_u enc [0x50] (TimestampNs m) w;
     w \<leftarrow> put_b enc [0x12] (str_bytes (DaemonVersion m)) w;
     put_u enc [0x8] (ucast (SchemaVersion m)) w }"

definition MarshalToSizedBufferVT :: "(u64 \<Rightarrow> bytes) \<Rightarrow> XtcpFlatRecord \<Rightarrow> wbuf \<Rightarrow> wbuf option" where
  "MarshalToSizedBufferVT enc m w = do {
     w \<leftarrow> Marshal_1 enc m w;
     w \<leftarrow> Marshal_2 enc m w;
     w \<leftarrow> Marshal_3 enc m w;
     w \<leftarrow> Marshal_4 enc m w;
     w \<leftarrow> Marshal_5 enc m w;
     w \<leftarrow> Marshal_6 enc m w;
     w \<leftarrow> Marshal_7 enc m w;
     w \<leftarrow> Marshal_8 enc m w;
     w \<leftarrow> Marshal_9 enc m w;
     w \<leftarrow> Marshal_10 enc m w;
     Marshal_11 enc m w }"

text \<open>The buffer has the computed size; what is returned is the part written.\<close>

definition MarshalVT :: "(u64 \<Rightarrow> nat) \<Rightarrow> (u64 \<Rightarrow> bytes) \<Rightarrow> XtcpFlatRecord \<Rightarrow> bytes option" where
  "MarshalVT sov enc m = do {
     (i, s) \<leftarrow> MarshalToSizedBufferVT enc m (SizeVT sov m, []);
     Some (take (SizeVT sov m - i) (replicate i 0 @ s)) }"

text \<open>The envelope: the rows from the last to the first, each behind its length and the
  one-byte tag of field 10.\<close>

definition Envelope_SizeVT :: "(u64 \<Rightarrow> nat) \<Rightarrow> XtcpFlatRecord list \<Rightarrow> nat" where
  "Envelope_SizeVT sov rows =
     foldl (\<lambda>n e. let l = SizeVT sov e in n + (1 + l + sov (of_nat l))) 0 rows"

fun Envelope_rows :: "(u64 \<Rightarrow> bytes) \<Rightarrow> XtcpFlatRecord list \<Rightarrow> wbuf \<Rightarrow> wbuf option" where
  "Envelope_rows enc [] w = Some w"
| "Envelope_rows enc (r # rows) w = do {
     w \<leftarrow> Envelope_rows enc rows w;
     w' \<leftarrow> MarshalToSizedBufferVT enc r w;
     w'' \<leftarrow> put_copy (enc (of_nat (fst w - fst w'))) w';
     put_byte 0x52 w'' }"

definition Envelope_MarshalVT :: "(u64 \<Rightarrow> nat) \<Rightarrow> (u64 \<Rightarrow> bytes) \<Rightarrow> XtcpFlatRecord list \<Rightarrow> bytes option" where
  "Envelope_MarshalVT sov enc rows = do {
     (i, s) \<leftarrow> Envelope_rows enc rows (Envelope_SizeVT sov rows, []);
     Some (take (Envelope_SizeVT sov rows - i) (replicate i 0 @ s)) }"

section \<open>What is written\<close>

definition wire_u :: "(u64 \<Rightarrow> bytes) \<Rightarrow> bytes \<Rightarrow> u64 \<Rightarrow> bytes" where
  "wire_u enc tag v = (if v \<noteq> 0 then tag @ enc v else [])"

definition wire_b :: "(u64 \<Rightarrow> bytes) \<Rightarrow> bytes \<Rightarrow> bytes \<Rightarrow> bytes" where
  "wire_b enc tag b = (if 0 < length b then tag @ enc (of_nat (length b)) @ b else [])"

definition wire_1 :: "(u64 \<Rightarrow> bytes) \<Rightarrow> XtcpFlatRecord \<Rightarrow> bytes" where
  "wire_1 enc m =
     wire_u enc [0xb0, 0x6a] (ucast (VegasInfoRttcnt m)) @
     wire_u enc [0xb8, 0x6a] (ucast (VegasInfoRtt m)) @
     wire_u enc [0xc0, 0x6a] (ucast (VegasInfoMinrtt m)) @
     wire_u enc [0xc8, 0x70] (ucast (DctcpInfoEnabled m)) @
     wire_u enc [0xd0, 0x70] (ucast (DctcpInfoCeState m)) @
     wire_u enc [0xd8, 0x70] (ucast (DctcpInfoAlpha m)) @
     wire_u enc [0xe0, 0x70] (ucast (DctcpInfoAbEcn m)) @
     wire_u enc [0xe8, 0x70] (ucast (DctcpInfoAbTot m)) @
     wire_u enc [0xe8, 0x76] (ucast (BbrInfoBwLo m)) @
     wire_u enc [0xf0, 0x76] (ucast (BbrInfoBwHi m)) @
     wire_u enc [0xf8, 0x76] (ucast (BbrInfoMinRtt m)) @
     wire_u enc [0x80, 0x77] (ucast (BbrInfoPacingGain m)) @
     wire_u enc [0x88, 0x77] (ucast (BbrInfoCwndGain m)) @
     wire_u enc [0x88, 0x7d] (ucast (InetDiagClassId m)) @
     wire_u enc [0x90, 0x7d] (ucast (InetDiagSockopt m)) @
     wire_u enc [0x98, 0x7d] (InetDiagCgroupId m)"

definition wire_2 :: "(u64 \<Rightarrow> bytes) \<Rightarrow> XtcpFlatRecord \<Rightarrow> bytes" where
  "wire_2 enc m =
     wire_u enc [0xe0, 0x4f] (ucast (TcpInfoOptions2 m)) @
     wire_b enc [0xa2, 0x51] (str_bytes (InetDiagCong m)) @
     wire_u enc [0xa8, 0x51] (CongestionAlgorithm_num (InetDiagCongEnum m)) @
     wire_u enc [0xc8, 0x57] (ucast (InetDiagTos m)) @
     wire_u enc [0xd0, 0x57] (ucast (InetDiagTclass m)) @
     wire_u enc [0xe8, 0x5d] (ucast (SkMemInfoRmemAlloc m)) @
     wire_u enc [0xf0, 0x5d] (ucast (SkMemInfoRcvbuf m)) @
     wire_u enc [0xf8, 0x5d] (ucast (SkMemInfoWmemAlloc m)) @
     wire_u enc [0x80, 0x5e] (ucast (SkMemInfoSndbuf m)) @
     wire_u enc [0x88, 0x5e] (ucast (SkMemInfoFwdAlloc m)) @
     wire_u enc [0x90, 0x5e] (ucast (SkMemInfoWmemQueued m)) @
     wire_u enc [0x98, 0x5e] (ucast (SkMemInfoOptmem m)) @
     wire_u enc [0xa0, 0x5e] (ucast (SkMemInfoBacklog m)) @
     wire_u enc [0xa8, 0x5e] (ucast (SkMemInfoDrops m)) @
     wire_u enc [0x80, 0x64] (ucast (InetDiagShutdown m)) @
     wire_u enc [0xa8, 0x6a] (ucast (VegasInfoEnabled m))"

definition wire_3 :: "(u64 \<Rightarrow> bytes) \<Rightarrow> XtcpFlatRecord \<Rightarrow> bytes" where
  "wire_3 enc m =
     wire_u enc [0xe0, 0x4e] (ucast (TcpInfoSndWnd m)) @
     wire_u enc [0xe8, 0x4e] (ucast (TcpInfoRcvWnd m)) @
     wire_u enc [0xf0, 0x4e] (ucast (TcpInfoRehash m)) @
     wire_u enc [0xf8, 0x4e] (ucast (TcpInfoTotalRto m)) @
     wire_u enc [0x80, 0x4f] (ucast (TcpInfoTotalRtoRecoveries m)) @
     wire_u enc [0x88, 0x4f] (ucast (TcpInfoTotalRtoTime m)) @
     wire_u enc [0x90, 0x4f] (ucast (TcpInfoReceivedCe m)) @
     wire_u enc [0x98, 0x4f] (ucast (TcpInfoDeliveredE1Bytes m)) @
     wire_u enc [0xa0, 0x4f] (ucast (TcpInfoDeliveredE0Bytes m)) @
     wire_u enc [0xa8, 0x4f] (ucast (TcpInfoDeliveredCeBytes m)) @
     wire_u enc [0xb0, 0x4f] (ucast (TcpInfoReceivedE1Bytes m)) @
     wire_u enc [0xb8, 0x4f] (ucast (TcpInfoReceivedE0Bytes m)) @
     wire_u enc [0xc0, 0x4f] (ucast (TcpInfoReceivedCeBytes m)) @
     wire_u enc [0xc8, 0x4f] (ucast (TcpInfoEcnMode m)) @
     wire_u enc [0xd0, 0x4f] (ucast (TcpInfoAccecnOptSeen m)) @
     wire_u enc [0xd8, 0x4f] (ucast (TcpInfoAccecnFailMode m))"

definition wire_4 :: "(u64 \<Rightarrow> bytes) \<Rightarrow> XtcpFlatRecord \<Rightarrow> bytes" where
  "wire_4 enc m =
     wire_u enc [0xe0, 0x4d] (ucast (TcpInfoSegsIn m)) @
     wire_u enc [0xe8, 0x4d] (ucast (TcpInfoNotsentBytes m)) @
     wire_u enc [0xf0, 0x4d] (ucast (TcpInfoMinRtt m)) @
     wire_u enc [0xf8, 0x4d] (ucast (TcpInfoDataSegsIn m)) @
     wire_u enc [0x80, 0x4e] (ucast (TcpInfoDataSegsOut m)) @
     wire_u enc [0x88, 0x4e] (TcpInfoDeliveryRate m) @
     wire_u enc [0x90, 0x4e] (TcpInfoBusyTime m) @
     wire_u enc [0x98, 0x4e] (TcpInfoRwndLimited m) @
     wire_u enc [0xa0, 0x4e] (TcpInfoSndbufLimited m) @
     wire_u enc [0xa8, 0x4e] (ucast (TcpInfoDelivered m)) @
     wire_u enc [0xb0, 0x4e] (ucast (TcpInfoDeliveredCe m)) @
     wire_u enc [0xb8, 0x4e] (TcpInfoBytesSent m) @
     wire_u enc [0xc0, 0x4e] (TcpInfoBytesRetrans m) @
     wire_u enc [0xc8, 0x4e] (ucast (TcpInfoDsackDups m)) @
     wire_u enc [0xd0, 0x4e] (ucast (TcpInfoReordSeen m)) @
     wire_u enc [0xd8, 0x4e] (ucast (TcpInfoRcvOoopack m))"

definition wire_5 :: "(u64 \<Rightarrow> bytes) \<Rightarrow> XtcpFlatRecord \<Rightarrow> bytes" where
  "wire_5 enc m =
     wire_u enc [0xe0, 0x4c] (ucast (TcpInfoPmtu m)) @
     wire_u enc [0xe8, 0x4c] (ucast (TcpInfoRcvSsthresh m)) @
     wire_u enc [0xf0, 0x4c] (ucast (TcpInfoRtt m)) @
     wire_u enc [0xf8, 0x4c] (ucast (TcpInfoRttvar m)) @
     wire_u enc [0x80, 0x4d] (ucast (TcpInfoSndSsthresh m)) @
     wire_u enc [0x88, 0x4d] (ucast (TcpInfoSndCwnd m)) @
     wire_u enc [0x90, 0x4d] (ucast (TcpInfoAdvmss m)) @
     wire_u enc [0x98, 0x4d] (ucast (TcpInfoReordering m)) @
     wire_u enc [0xa0, 0x4d] (ucast (TcpInfoRcvRtt m)) @
     wire_u enc [0xa8, 0x4d] (ucast (TcpInfoRcvSpace m)) @
     wire_u enc [0xb0, 0x4d] (ucast (TcpInfoTotalRetrans m)) @
     wire_u enc [0xb8, 0x4d] (TcpInfoPacingRate m) @
     wire_u enc [0xc0, 0x4d] (TcpInfoMaxPacingRate m) @
     wire_u enc [0xc8, 0x4d] (TcpInfoBytesAcked m) @
     wire_u enc [0xd0, 0x4d] (TcpInfoBytesReceived m) @
     wire_u enc [0xd8, 0x4d] (ucast (TcpInfoSegsOut m))"

definition wire_6 :: "(u64 \<Rightarrow> bytes) \<Rightarrow> XtcpFlatRecord \<Rightarrow> bytes" where
  "wire_6 enc m =
     wire_u enc [0xc0, 0x4b] (ucast (TcpInfoRcvWscale m)) @
     wire_u enc [0xc8, 0x4b] (ucast (TcpInfoDeliveryRateAppLimited m)) @
     wire_u enc [0xd0, 0x4b] (ucast (TcpInfoFastopenClientFail m)) @
     wire_u enc [0xf8, 0x4b] (ucast (TcpInfoRto m)) @
     wire_u enc [0x80, 0x4c] (ucast (TcpInfoAto m)) @
     wire_u enc [0x88, 0x4c] (ucast (TcpInfoSndMss m)) @
     wire_u enc [0x90, 0x4c] (ucast (TcpInfoRcvMss m)) @
     wire_u enc [0x98, 0x4c] (ucast (TcpInfoUnacked m)) @
     wire_u enc [0xa0, 0x4c] (ucast (TcpInfoSacked m)) @
     wire_u enc [0xa8, 0x4c] (ucast (TcpInfoLost m)) @
     wire_u enc [0xb0, 0x4c] (ucast (TcpInfoRetrans m)) @
     wire_u enc [0xb8, 0x4c] (ucast (TcpInfoFackets m)) @
     wire_u enc [0xc0, 0x4c] (ucast (TcpInfoLastDataSent m)) @
     wire_u enc [0xc8, 0x4c] (ucast (TcpInfoLastAckSent m)) @
     wire_u enc [0xd0, 0x4c] (ucast (TcpInfoLastDataRecv m)) @
     wire_u enc [0xd8, 0x4c] (ucast (TcpInfoLastAckRecv m))"

definition wire_7 :: "(u64 \<Rightarrow> bytes) \<Rightarrow> XtcpFlatRecord \<Rightarrow> bytes" where
  "wire_7 enc m =
     wire_u enc [0xa8, 0x3f] (ucast (InetDiagMsgExpires m)) @
     wire_u enc [0xb0, 0x3f] (ucast (InetDiagMsgRqueue m)) @
     wire_u enc [0xb8, 0x3f] (ucast (InetDiagMsgWqueue m)) @
     wire_u enc [0xc0, 0x3f] (ucast (InetDiagMsgUid m)) @
     wire_u enc [0xc8, 0x3f] (ucast (InetDiagMsgInode m)) @
     wire_u enc [0xe8, 0x44] (ucast (MemInfoRmem m)) @
     wire_u enc [0xf0, 0x44] (ucast (MemInfoWmem m)) @
     wire_u enc [0xf8, 0x44] (ucast (MemInfoFmem m)) @
     wire_u enc [0x80, 0x45] (ucast (MemInfoTmem m)) @
     wire_u enc [0x88, 0x4b] (ucast (TcpInfoState m)) @
     wire_u enc [0x90, 0x4b] (ucast (TcpInfoCaState m)) @
     wire_u enc [0x98, 0x4b] (ucast (TcpInfoRetransmits m)) @
     wire_u enc [0xa0, 0x4b] (ucast (TcpInfoProbes m)) @
     wire_u enc [0xa8, 0x4b] (ucast (TcpInfoBackoff m)) @
     wire_u enc [0xb0, 0x4b] (ucast (TcpInfoOptions m)) @
     wire_u enc [0xb8, 0x4b] (ucast (TcpInfoSndWscale m))"

definition wire_8 :: "(u64 \<Rightarrow> bytes) \<Rightarrow> XtcpFlatRecord \<Rightarrow> bytes" where
  "wire_8 enc m =
     wire_u enc [0xb0, 0x13] (Locality_num (EnrichSocketDestLocality m)) @
     wire_u enc [0xb8, 0x13] (ucast (EnrichSocketDestEgressIfindex m)) @
     wire_b enc [0xc2, 0x13] (str_bytes (EnrichSocketDestEgressIfname m)) @
     wire_u enc [0x80, 0x14] (EnrichSocketDestAsn m) @
     wire_u enc [0x88, 0x14] (EnrichSocketDestNextHopAsn m) @
     wire_b enc [0x92, 0x14] (str_bytes (EnrichSocketDestNetworkOwner m)) @
     wire_u enc [0xc8, 0x3e] (ucast (InetDiagMsgFamily m)) @
     wire_u enc [0xd0, 0x3e] (ucast (InetDiagMsgState m)) @
     wire_u enc [0xd8, 0x3e] (ucast (InetDiagMsgTimer m)) @
     wire_u enc [0xe0, 0x3e] (ucast (InetDiagMsgRetrans m)) @
     wire_u enc [0xe8, 0x3e] (ucast (InetDiagMsgSocketSourcePort m)) @
     wire_u enc [0xf0, 0x3e] (ucast (InetDiagMsgSocketDestinationPort m)) @
     wire_b enc [0xfa, 0x3e] (InetDiagMsgSocketSource m) @
     wire_b enc [0x82, 0x3f] (InetDiagMsgSocketDestination m) @
     wire_u enc [0x88, 0x3f] (ucast (InetDiagMsgSocketInterface m)) @
     wire_u enc [0x90, 0x3f] (InetDiagMsgSocketCookie m)"

definition wire_9 :: "(u64 \<Rightarrow> bytes) \<Rightarrow> XtcpFlatRecord \<Rightarrow> bytes" where
  "wire_9 enc m =
     wire_b enc [0xda, 0x7] (str_bytes (Uplink1LldpPortId m)) @
     wire_b enc [0xe2, 0x7] (str_bytes (Uplink1LldpPortDescr m)) @
     wire_b enc [0xc2, 0xc] (str_bytes (Uplink2Ifname m)) @
     wire_b enc [0xca, 0xc] (str_bytes (Uplink2NicDriver m)) @
     wire_b enc [0xd2, 0xc] (str_bytes (Uplink2NicModel m)) @
     wire_u enc [0xd8, 0xc] (ucast (Uplink2NicPciVendor m)) @
     wire_u enc [0xe0, 0xc] (ucast (Uplink2NicPciDevice m)) @
     wire_b enc [0xea, 0xc] (str_bytes (Uplink2NicBusInfo m)) @
     wire_u enc [0xf0, 0xc] (ucast (Uplink2NicSpeedMbps m)) @
     wire_b enc [0xfa, 0xc] (str_bytes (Uplink2NicFwVersion m)) @
     wire_b enc [0xe2, 0xd] (str_bytes (Uplink2LldpChassisName m)) @
     wire_b enc [0xea, 0xd] (str_bytes (Uplink2LldpChassisId m)) @
     wire_b enc [0xf2, 0xd] (str_bytes (Uplink2LldpMgmtIp m)) @
     wire_b enc [0xfa, 0xd] (str_bytes (Uplink2LldpPortId m)) @
     wire_b enc [0x82, 0xe] (str_bytes (Uplink2LldpPortDescr m)) @
     wire_b enc [0xe2, 0x12] (str_bytes (EnrichSocketInterfaceName m))"

definition wire_10 :: "(u64 \<Rightarrow> bytes) \<Rightarrow> XtcpFlatRecord \<Rightarrow> bytes" where
  "wire_10 enc m =
     wire_b enc [0x92, 0x3] (str_bytes (Label m)) @
     wire_b enc [0x9a, 0x3] (str_bytes (Tag m)) @
     wire_u enc [0xe0, 0x3] (RecordCounter m) @
     wire_u enc [0xe8, 0x3] (SocketFd m) @
     wire_u enc [0xf0, 0x3] (NetlinkerId m) @
     wire_b enc [0xa2, 0x6] (str_bytes (Uplink1Ifname m)) @
     wire_b enc [0xaa, 0x6] (str_bytes (Uplink1NicDriver m)) @
     wire_b enc [0xb2, 0x6] (str_bytes (Uplink1NicModel m)) @
     wire_u enc [0xb8, 0x6] (ucast (Uplink1NicPciVendor m)) @
     wire_u enc [0xc0, 0x6] (ucast (Uplink1NicPciDevice m)) @
     wire_b enc [0xca, 0x6] (str_bytes (Uplink1NicBusInfo m)) @
     wire_u enc [0xd0, 0x6] (ucast (Uplink1NicSpeedMbps m)) @
     wire_b enc [0xda, 0x6] (str_bytes (Uplink1NicFwVersion m)) @
     wire_b enc [0xc2, 0x7] (str_bytes (Uplink1LldpChassisName m)) @
     wire_b enc [0xca, 0x7] (str_bytes (Uplink1LldpChassisId m)) @
     wire_b enc [0xd2, 0x7] (str_bytes (Uplink1LldpMgmtIp m))"

definition wire_11 :: "(u64 \<Rightarrow> bytes) \<Rightarrow> XtcpFlatRecord \<Rightarrow> bytes" where
  "wire_11 enc m =
     wire_u enc [0x8] (ucast (SchemaVersion m)) @
     wire_b enc [0x12] (str_bytes (DaemonVersion m)) @
     wire_u enc [0x50] (TimestampNs m) @
     wire_b enc [0xa2, 0x1] (str_bytes (Hostname m)) @
     wire_b enc [0xaa, 0x1] (str_bytes (Location m)) @
     wire_b enc [0xf2, 0x1] (str_bytes (Netns m)) @
     wire_u enc [0xf8, 0x1] (NetnsInode m) @
     wire_u enc [0x80, 0x2] (ucast (Nsid m)) @
     wire_b enc [0xc2, 0x2] (str_bytes (ContainerId m)) @
     wire_b enc [0xca, 0x2] (str_bytes (ContainerRuntime m)) @
     wire_b enc [0xd2, 0x2] (str_bytes (ContainerName m)) @
     wire_b enc [0xda, 0x2] (str_bytes (ContainerImage m))"

definition wire :: "(u64 \<Rightarrow> bytes) \<Rightarrow> XtcpFlatRecord \<Rightarrow> bytes" where
  "wire enc m = wire_11 enc m @ wire_10 enc m @ wire_9 enc m @ wire_8 enc m @ wire_7 enc m @ wire_6 enc m @ wire_5 enc m @ wire_4 enc m @ wire_3 enc m @ wire_2 enc m @ wire_1 enc m"

definition writes :: "bytes \<Rightarrow> (wbuf \<Rightarrow> wbuf option) \<Rightarrow> bool" where
  "writes b f \<longleftrightarrow> (\<forall>i s. f (i, s) = (if length b \<le> i then Some (i - length b, b @ s) else None))"

named_theorems writes_intros

lemma writes_bind [writes_intros]:
  "writes b f \<Longrightarrow> writes c g \<Longrightarrow> writes (c @ b) (\<lambda>w. f w \<bind> g)"
  by (auto simp: writes_def)

lemma writes_none: "writes [] (\<lambda>w. Some w)"
  by (simp add: writes_def)

lemma writes_copy [writes_intros]: "writes b (put_copy b)"
  by (auto simp: writes_def put_copy_def)

lemma writes_byte: "writes [b] (put_byte b)"
  by (auto simp: writes_def put_byte_def)

lemma writes_tag [writes_intros]: "writes t (put_tag t)"
proof (induction t)
  case Nil
  then show ?case by (simp add: writes_def)
next
  case (Cons b t)
  then show ?case
    using writes_bind [OF Cons writes_byte [of b]] by simp
qed

lemmas put_tag_apply = writes_tag [unfolded writes_def, rule_format]

lemma writes_u [writes_intros]: "writes (wire_u enc tag v) (put_u enc tag v)"
  by (auto simp: writes_def put_u_def wire_u_def put_copy_def put_tag_apply)

lemma writes_b [writes_intros]: "writes (wire_b enc tag b) (put_b enc tag b)"
  by (auto simp: writes_def put_b_def wire_b_def put_copy_def put_tag_apply)

lemma writes_Marshal_1 [writes_intros]: "writes (wire_1 enc m) (Marshal_1 enc m)"
  unfolding wire_1_def Marshal_1_def append_assoc [symmetric] by (intro writes_intros)

lemma writes_Marshal_2 [writes_intros]: "writes (wire_2 enc m) (Marshal_2 enc m)"
  unfolding wire_2_def Marshal_2_def append_assoc [symmetric] by (intro writes_intros)

lemma writes_Marshal_3 [writes_intros]: "writes (wire_3 enc m) (Marshal_3 enc m)"
  unfolding wire_3_def Marshal_3_def append_assoc [symmetric] by (intro writes_intros)

lemma writes_Marshal_4 [writes_intros]: "writes (wire_4 enc m) (Marshal_4 enc m)"
  unfolding wire_4_def Marshal_4_def append_assoc [symmetric] by (intro writes_intros)

lemma writes_Marshal_5 [writes_intros]: "writes (wire_5 enc m) (Marshal_5 enc m)"
  unfolding wire_5_def Marshal_5_def append_assoc [symmetric] by (intro writes_intros)

lemma writes_Marshal_6 [writes_intros]: "writes (wire_6 enc m) (Marshal_6 enc m)"
  unfolding wire_6_def Marshal_6_def append_assoc [symmetric] by (intro writes_intros)

lemma writes_Marshal_7 [writes_intros]: "writes (wire_7 enc m) (Marshal_7 enc m)"
  unfolding wire_7_def Marshal_7_def append_assoc [symmetric] by (intro writes_intros)

lemma writes_Marshal_8 [writes_intros]: "writes (wire_8 enc m) (Marshal_8 enc m)"
  unfolding wire_8_def Marshal_8_def append_assoc [symmetric] by (intro writes_intros)

lemma writes_Marshal_9 [writes_intros]: "writes (wire_9 enc m) (Marshal_9 enc m)"
  unfolding wire_9_def Marshal_9_def append_assoc [symmetric] by (intro writes_intros)

lemma writes_Marshal_10 [writes_intros]: "writes (wire_10 enc m) (Marshal_10 enc m)"
  unfolding wire_10_def Marshal_10_def append_assoc [symmetric] by (intro writes_intros)

lemma writes_Marshal_11 [writes_intros]: "writes (wire_11 enc m) (Marshal_11 enc m)"
  unfolding wire_11_def Marshal_11_def append_assoc [symmetric] by (intro writes_intros)

lemmas wire_defs = wire_def wire_1_def wire_2_def wire_3_def wire_4_def wire_5_def wire_6_def wire_7_def wire_8_def wire_9_def wire_10_def wire_11_def

lemmas SizeVT_defs = SizeVT_def SizeVT_1_def SizeVT_2_def SizeVT_3_def SizeVT_4_def SizeVT_5_def

lemma writes_MarshalToSizedBufferVT: "writes (wire enc m) (MarshalToSizedBufferVT enc m)"
  unfolding wire_def MarshalToSizedBufferVT_def append_assoc [symmetric] by (intro writes_intros)

lemma length_wire_u: "(\<And>v. length (enc v) = sov v) \<Longrightarrow> length (wire_u enc t v) = size_u sov (length t) v"
  by (simp add: wire_u_def size_u_def)

lemma length_wire_b: "(\<And>v. length (enc v) = sov v) \<Longrightarrow> length (wire_b enc t b) = size_b sov (length t) b"
  by (simp add: wire_b_def size_b_def)

lemma length_wire:
  assumes "\<And>v. length (enc v) = sov v"
  shows "length (wire enc m) = SizeVT sov m"
  by (simp only: wire_defs SizeVT_defs length_append length_wire_u [OF assms] length_wire_b [OF assms]
      list.size add.assoc add_0_right add_Suc_right One_nat_def numeral_2_eq_2)

text \<open>The envelope's bytes: every row behind tag and length.\<close>

definition wire_rows :: "(u64 \<Rightarrow> bytes) \<Rightarrow> XtcpFlatRecord list \<Rightarrow> bytes" where
  "wire_rows enc rows = concat (map (\<lambda>r. 0x52 # enc (of_nat (length (wire enc r))) @ wire enc r) rows)"

lemma writes_Envelope_rows: "writes (wire_rows enc rows) (Envelope_rows enc rows)"
proof (induction rows)
  case Nil
  then show ?case by (simp add: writes_def wire_rows_def)
next
  case (Cons r rows)
  note row = writes_MarshalToSizedBufferVT [of enc r, unfolded writes_def, rule_format]
  show ?case
    using Cons by (auto simp: writes_def wire_rows_def row put_copy_def put_byte_def)
qed

lemma foldl_add_nat: "foldl (\<lambda>n e. n + (f e :: nat)) k xs = k + (\<Sum>x\<leftarrow>xs. f x)"
  by (induction xs arbitrary: k) auto

lemma Envelope_SizeVT_sum:
  "Envelope_SizeVT sov rows = (\<Sum>r\<leftarrow>rows. 1 + SizeVT sov r + sov (of_nat (SizeVT sov r)))"
  by (simp add: Envelope_SizeVT_def Let_def foldl_add_nat add.assoc del: One_nat_def)

lemma length_wire_rows:
  assumes "\<And>v. length (enc v) = sov v"
  shows "length (wire_rows enc rows) = Envelope_SizeVT sov rows"
  by (simp add: wire_rows_def Envelope_SizeVT_sum length_concat comp_def length_wire [OF assms] assms
      add.commute)

section \<open>Properties\<close>

text \<open>The varint encoding, for the examples.\<close>

fun varint :: "nat \<Rightarrow> u64 \<Rightarrow> bytes" where
  "varint 0 v = [ucast v]"
| "varint (Suc k) v =
     (if v < 128 then [ucast v] else (ucast (v AND 127) OR 128) # varint k (drop_bit 7 v))"

definition wit_record :: XtcpFlatRecord where
  "wit_record = zero_record\<lparr>SchemaVersion := 2, Hostname := ''h'', InetDiagCgroupId := 300\<rparr>"

text \<open>Marshalling a record is exact. Whenever the varint helper stores as many bytes as
  the size helper announces, \<open>MarshalVT\<close> never runs off its buffer and leaves none of
  it unused: the result is the concatenation of the tagged columns in field order,
  and its length is \<open>SizeVT\<close>.\<close>

theorem marshal_exact:
  assumes "\<And>v. length (enc v) = sov v"
  shows "MarshalVT sov enc m = Some (wire enc m) \<and> length (wire enc m) = SizeVT sov m"
  using writes_MarshalToSizedBufferVT [of enc m] length_wire [where m = m, OF assms]
  by (simp add: MarshalVT_def writes_def)

theorem marshal_exact_witness:
  "MarshalVT (\<lambda>v. length (varint 9 v)) (varint 9) wit_record
     = Some [8, 2, 0xa2, 1, 1, 104, 0x98, 0x7d, 0xac, 2]"
  by (subst marshal_exact [of "varint 9", THEN conjunct1]) (simp, code_simp)

text \<open>C24: marshalling an envelope is exact in the same sense. The rows appear in order, each
  behind the tag of field 10 and its own length, and the envelope's \<open>SizeVT\<close> is the
  length of the result.\<close>

theorem envelope_marshal_exact:
  assumes "\<And>v. length (enc v) = sov v"
  shows "Envelope_MarshalVT sov enc rows = Some (wire_rows enc rows)
    \<and> length (wire_rows enc rows) = Envelope_SizeVT sov rows"
  using writes_Envelope_rows [of enc rows] length_wire_rows [where rows = rows, OF assms]
  by (simp add: Envelope_MarshalVT_def writes_def)

theorem envelope_marshal_exact_witness:
  "Envelope_MarshalVT (\<lambda>v. length (varint 9 v)) (varint 9) [zero_record, zero_record\<lparr>SchemaVersion := 2\<rparr>]
     = Some [0x52, 0, 0x52, 2, 8, 2]"
  by (subst envelope_marshal_exact [of "varint 9", THEN conjunct1]) (simp, code_simp)

end
