(* ===== verification/Envelope.thy ===== *)
theory Envelope
  imports Tcp_Info Wire_Format
begin

text \<open>
  The envelope that collects decoded records between two flushes
  (\<open>pkg/xtcp/deserialize.go\<close>, the tail of \<open>processInetDiagRecord\<close>;
  \<open>pkg/xtcp/poller.go\<close>, \<open>flushEnvelope\<close> and the envelope part of
  \<open>pollAllNetlinkSockets\<close>; \<open>pkg/xtcp/marshallers.go\<close>, the thresholds). The daemon's
  state and its constant parts are declared here because every later component
  works on them. \<open>envelopeMu\<close> makes an append and the first half of a flush atomic;
  the second half works on an envelope no other thread can reach. The step relation
  at the end interleaves these pieces of any number of decoders and the poller.
\<close>

section \<open>Pools\<close>

text \<open>\<open>xsync.Pool\<close>: \<open>Get\<close> hands out a pooled value or, when there is none, a new one.
  Which pooled value comes out is the runtime's choice; the theorems that concern
  recycled values hold for every pool contents.\<close>

definition pool_get :: "'a \<Rightarrow> 'a list \<Rightarrow> 'a \<times> 'a list" where
  "pool_get new p = (case p of [] \<Rightarrow> (new, []) | v # p' \<Rightarrow> (v, p'))"

definition pool_put :: "'a \<Rightarrow> 'a list \<Rightarrow> 'a list" where
  "pool_put v p = v # p"

lemma pool_get_set: "pool_get new p = (v, p') \<Longrightarrow> (v = new \<or> v \<in> set p) \<and> set p' \<subseteq> set p"
  by (auto simp: pool_get_def split: list.splits)

section \<open>The daemon\<close>

text \<open>A container of the Docker index, an uplink slot, and a resolved destination: the
  values the enrichment lookups return.\<close>

record Container =
  c_ID :: string
  c_Name :: string
  c_Image :: string

record uplinkColumns =
  u_ifname :: string
  u_nicDriver :: string
  u_nicModel :: string
  u_nicBusInfo :: string
  u_nicFwVersion :: string
  u_nicPCIVendor :: u32
  u_nicPCIDevice :: u32
  u_nicSpeedMbps :: u32
  u_lldpChassisName :: string
  u_lldpChassisID :: string
  u_lldpMgmtIP :: string
  u_lldpPortID :: string
  u_lldpPortDescr :: string

record uplinkStamp =
  us_slot0 :: uplinkColumns
  us_slot1 :: uplinkColumns
  us_enabled :: bool

datatype Addr = Addr4 bytes | Addr16 bytes

record localityResult =
  lr_Locality :: Locality
  lr_EgressIfindex :: u32
  lr_EgressIfname :: string
  lr_BoundIfname :: string
  lr_Remote :: bool

text \<open>What stays fixed while records are decoded: the configuration, the dispatch map, the
  enrichers (\<open>None\<close> is a nil one), the marshaller and the destination. \<open>destErr b\<close> says
  that \<open>Send\<close> of the buffer \<open>b\<close> reports an error, \<open>grpcErr c\<close> that a send to the stream of
  client \<open>c\<close> does; \<open>pw_\<close> are the size functions of the
  protobuf libraries.\<close>

record Daemon =
  hostname :: string
  cf_Modulus :: u64
  cf_DaemonVersion :: string
  cf_Label :: string
  cf_Tag :: string
  cf_Location :: string
  cf_FlushThresholdRows :: u32
  cf_FlushThresholdBytes :: u32
  pw_SizeTag :: "nat \<Rightarrow> nat"
  pw_SizeBytes :: "nat \<Rightarrow> nat"
  pw_SizeOfVarint :: "u64 \<Rightarrow> nat"
  EnvelopeMarshaller :: "XtcpFlatRecord list \<Rightarrow> bytes"
  destErr :: "bytes \<Rightarrow> bool"
  grpcErr :: "nat \<Rightarrow> bool"
  RTATypeDeserializer :: "nat \<Rightarrow> xtcp_decoder option"
  uplink :: uplinkStamp
  dockerIndex :: "(u64 \<Rightarrow> Container option) option"
  nsidByInode :: "(u64 \<Rightarrow> 32 word option) option"
  locality :: "(u64 \<Rightarrow> Addr \<Rightarrow> u32 \<Rightarrow> localityResult option) option"
  asn :: "(Addr \<Rightarrow> (u32 \<times> string) option) option"
  cgroupResolver :: "(u64 \<Rightarrow> string \<times> string) option"

text \<open>What changes. \<open>sent\<close> holds, latest first, the reason, rows, buffer and error of every
  \<open>Send\<close>; \<open>pC\<close> the label triples of the counters that were bumped.\<close>

type_synonym labels = "string \<times> string \<times> string"

record XTCP =
  currentEnvelope :: "XtcpFlatRecord list option"
  currentEnvelopeBytes :: int
  xtcpEnvelopePool :: "XtcpFlatRecord list list"
  xtcpRecordPool :: "XtcpFlatRecord list"
  nlhPool :: "NlMsgHdr list"
  rtaPool :: "RTAttr list"
  sent :: "(string \<times> XtcpFlatRecord list \<times> bytes \<times> bool) list"
  frClients :: "nat list"
  frStoreCount :: u64
  frDeleteCount :: u64
  pfrClients :: "nat list"
  pfrStoreCount :: u64
  pfrDeleteCount :: u64
  grpcSent :: "(nat \<times> XtcpFlatRecord) list"
  pollTime :: "int \<Rightarrow> u64 option"
  pC :: "labels list"

definition inc :: "string \<Rightarrow> string \<Rightarrow> string \<Rightarrow> XTCP \<Rightarrow> XTCP" where
  "inc a b c x = x\<lparr>pC := (a, b, c) # pC x\<rparr>"

section \<open>Thresholds and row sizes\<close>

definition EnvelopeFlushThresholdBytesCst :: int where
  "EnvelopeFlushThresholdBytesCst = 768 * 1024"

definition EnvelopeFlushThresholdRowsCst :: int where
  "EnvelopeFlushThresholdRowsCst = 10000"

definition envelopeRowFieldNumber :: nat where
  "envelopeRowFieldNumber = 10"

definition envelopeRowBytes :: "Daemon \<Rightarrow> XtcpFlatRecord \<Rightarrow> nat" where
  "envelopeRowBytes d r =
     pw_SizeTag d envelopeRowFieldNumber + pw_SizeBytes d (SizeVT (pw_SizeOfVarint d) r)"

definition rowThreshold :: "Daemon \<Rightarrow> int" where
  "rowThreshold d =
     (if uint (cf_FlushThresholdRows d) = 0 then EnvelopeFlushThresholdRowsCst
      else uint (cf_FlushThresholdRows d))"

definition byteThreshold :: "Daemon \<Rightarrow> int" where
  "byteThreshold d =
     (if uint (cf_FlushThresholdBytes d) = 0 then EnvelopeFlushThresholdBytesCst
      else uint (cf_FlushThresholdBytes d))"

lemma rowThreshold_pos: "1 \<le> rowThreshold d"
proof -
  have "0 \<le> uint (cf_FlushThresholdRows d)" by (rule uint_ge_0)
  then show ?thesis unfolding rowThreshold_def EnvelopeFlushThresholdRowsCst_def by presburger
qed

section \<open>Append and flush\<close>

text \<open>The critical section at the end of \<open>processInetDiagRecord\<close>: append the record and
  decide whether this decoder flushes. Without an envelope the record is reset, pooled
  and counted as dropped.\<close>

definition appendRow :: "Daemon \<Rightarrow> XtcpFlatRecord \<Rightarrow> XTCP \<Rightarrow> XTCP \<times> string option" where
  "appendRow d r x =
     (case currentEnvelope x of
        None \<Rightarrow>
          (inc ''Deserialize'' ''envelopePostFlushDrop'' ''error''
             (x\<lparr>xtcpRecordPool := pool_put zero_record (xtcpRecordPool x)\<rparr>), None)
      | Some rows \<Rightarrow>
          let rows' = rows @ [r];
              bytes' = currentEnvelopeBytes x + int (envelopeRowBytes d r);
              flushReason =
                (if int (length rows') \<ge> rowThreshold d then Some ''rows_cap''
                 else if bytes' > byteThreshold d then Some ''size_cap'' else None)
          in (inc ''Deserialize'' ''envelopeAppend'' ''count''
                (x\<lparr>currentEnvelope := Some rows', currentEnvelopeBytes := bytes'\<rparr>), flushReason))"

definition reAcquire :: "string \<Rightarrow> bool" where
  "reAcquire reason \<longleftrightarrow> reason = ''size_cap'' \<or> reason = ''rows_cap''"

text \<open>The critical section of \<open>flushEnvelope\<close>: take the envelope out and leave a fresh one
  (a cap flush) or none.\<close>

definition flushTake :: "string \<Rightarrow> XTCP \<Rightarrow> XTCP \<times> XtcpFlatRecord list option" where
  "flushTake reason x =
     (let e = currentEnvelope x;
          x = (if reAcquire reason
               then (case pool_get [] (xtcpEnvelopePool x) of (n, p) \<Rightarrow>
                       x\<lparr>currentEnvelope := Some n, xtcpEnvelopePool := p\<rparr>)
               else x\<lparr>currentEnvelope := None\<rparr>)
      in (x\<lparr>currentEnvelopeBytes := 0\<rparr>, e))"

text \<open>The rest of \<open>flushEnvelope\<close>: an empty envelope only goes back to its pool; a full one
  is marshalled and sent, and its records are reset and pooled, whether or not the
  destination took them.\<close>

definition flushDeliver :: "Daemon \<Rightarrow> string \<Rightarrow> XtcpFlatRecord list option \<Rightarrow> XTCP \<Rightarrow> XTCP" where
  "flushDeliver d reason e x =
     (case e of
        None \<Rightarrow> x
      | Some rows \<Rightarrow>
          if rows = [] then x\<lparr>xtcpEnvelopePool := pool_put [] (xtcpEnvelopePool x)\<rparr>
          else
            let buf = EnvelopeMarshaller d rows;
                err = destErr d buf;
                x = x\<lparr>sent := (reason, rows, buf, err) # sent x\<rparr>;
                x = inc ''Poller'' ''envelopeFlush'' reason x;
                x = (if err then inc ''Poller'' ''envelopeFlush'' ''error'' x else x);
                x = x\<lparr>xtcpRecordPool := fold (\<lambda>_. pool_put zero_record) rows (xtcpRecordPool x)\<rparr>
            in x\<lparr>xtcpEnvelopePool := pool_put [] (xtcpEnvelopePool x)\<rparr>)"

definition flushEnvelope :: "Daemon \<Rightarrow> string \<Rightarrow> XTCP \<Rightarrow> XTCP" where
  "flushEnvelope d reason x = (case flushTake reason x of (x', e) \<Rightarrow> flushDeliver d reason e x')"

text \<open>The start of \<open>pollAllNetlinkSockets\<close>: a fresh envelope replaces whatever is there.\<close>

definition startEnvelope :: "XTCP \<Rightarrow> XTCP" where
  "startEnvelope x =
     (case pool_get [] (xtcpEnvelopePool x) of (n, p) \<Rightarrow>
        x\<lparr>currentEnvelope := Some n, xtcpEnvelopePool := p, currentEnvelopeBytes := 0\<rparr>)"

section \<open>Interleaving decoders and the poller\<close>

text \<open>A thread of the envelope: a decoder between its append and its flush, or any thread
  between the two halves of a flush. Thread 0 is the poller. The history variables of
  the system record every row that was handed to the envelope, every row that was
  dropped because there was none, and every row that a new poll found in the envelope
  it replaced.\<close>

datatype pc = Idle | WantFlush string | Delivering string "XtcpFlatRecord list option"

record system =
  shared :: XTCP
  thread :: "nat \<Rightarrow> pc"
  offered :: "XtcpFlatRecord list"
  dropped :: "XtcpFlatRecord list"
  replaced :: "XtcpFlatRecord list"

definition rowsOf :: "XtcpFlatRecord list option \<Rightarrow> XtcpFlatRecord list" where
  "rowsOf e = (case e of None \<Rightarrow> [] | Some rows \<Rightarrow> rows)"

text \<open>The atomic actions. \<open>n\<close> is the number of decoders, threads 1 to \<open>n\<close>.\<close>

datatype action =
    Append nat XtcpFlatRecord
  | Take nat
  | Deliver nat
  | Terminal string
  | StartPoll

fun enabled :: "nat \<Rightarrow> action \<Rightarrow> system \<Rightarrow> bool" where
  "enabled n (Append i r) s = (1 \<le> i \<and> i \<le> n \<and> thread s i = Idle)"
| "enabled n (Take i) s = (1 \<le> i \<and> i \<le> n \<and> (case thread s i of WantFlush _ \<Rightarrow> True | _ \<Rightarrow> False))"
| "enabled n (Deliver i) s = (i \<le> n \<and> (case thread s i of Delivering _ _ \<Rightarrow> True | _ \<Rightarrow> False))"
| "enabled n (Terminal reason) s =
     ((reason = ''poll_end'' \<or> reason = ''poll_timeout'' \<or> reason = ''shutdown'') \<and> thread s 0 = Idle)"
| "enabled n StartPoll s = (thread s 0 = Idle)"

fun run_action :: "Daemon \<Rightarrow> action \<Rightarrow> system \<Rightarrow> system" where
  "run_action d (Append i r) s =
     (case appendRow d r (shared s) of (x, reason) \<Rightarrow>
        s\<lparr>shared := x, offered := r # offered s,
          dropped := (if currentEnvelope (shared s) = None then r # dropped s else dropped s),
          thread := (thread s)(i := (case reason of None \<Rightarrow> Idle | Some f \<Rightarrow> WantFlush f))\<rparr>)"
| "run_action d (Take i) s =
     (case thread s i of
        WantFlush f \<Rightarrow> (case flushTake f (shared s) of (x, e) \<Rightarrow>
          s\<lparr>shared := x, thread := (thread s)(i := Delivering f e)\<rparr>)
      | _ \<Rightarrow> s)"
| "run_action d (Deliver i) s =
     (case thread s i of
        Delivering f e \<Rightarrow>
          s\<lparr>shared := flushDeliver d f e (shared s), thread := (thread s)(i := Idle)\<rparr>
      | _ \<Rightarrow> s)"
| "run_action d (Terminal f) s =
     (case flushTake f (shared s) of (x, e) \<Rightarrow>
        s\<lparr>shared := x, thread := (thread s)(0 := Delivering f e)\<rparr>)"
| "run_action d StartPoll s =
     s\<lparr>shared := startEnvelope (shared s),
       replaced := rowsOf (currentEnvelope (shared s)) @ replaced s\<rparr>"

inductive env_step :: "Daemon \<Rightarrow> nat \<Rightarrow> system \<Rightarrow> system \<Rightarrow> bool" for d n where
  env_stepI: "enabled n a s \<Longrightarrow> env_step d n s (run_action d a s)"

inductive env_reach :: "Daemon \<Rightarrow> nat \<Rightarrow> system \<Rightarrow> system \<Rightarrow> bool" for d n where
  env_refl: "env_reach d n s s"
| env_trans: "env_reach d n s t \<Longrightarrow> env_step d n t u \<Longrightarrow> env_reach d n s u"

text \<open>Running a schedule, for examples.\<close>

fun run_schedule :: "Daemon \<Rightarrow> nat \<Rightarrow> action list \<Rightarrow> system \<Rightarrow> system option" where
  "run_schedule d n [] s = Some s"
| "run_schedule d n (a # as) s =
     (if enabled n a s then run_schedule d n as (run_action d a s) else None)"

lemma run_schedule_reach:
  "env_reach d n s t \<Longrightarrow> run_schedule d n as t = Some u \<Longrightarrow> env_reach d n s u"
  by (induction as arbitrary: t) (auto split: if_splits intro: env_trans env_stepI)

section \<open>The invariant\<close>

text \<open>The byte total is exact, pooled envelopes are empty, and the envelope exceeds the row
  cap only by decoders that are already on their way to flush it.\<close>

definition wanting :: "nat \<Rightarrow> system \<Rightarrow> nat set" where
  "wanting n s = {i. 1 \<le> i \<and> i \<le> n \<and> (\<exists>f. thread s i = WantFlush f)}"

definition bytes_exact :: "Daemon \<Rightarrow> XTCP \<Rightarrow> bool" where
  "bytes_exact d x \<longleftrightarrow>
     currentEnvelopeBytes x = int (\<Sum>r\<leftarrow>rowsOf (currentEnvelope x). envelopeRowBytes d r)"

definition env_inv :: "Daemon \<Rightarrow> nat \<Rightarrow> system \<Rightarrow> bool" where
  "env_inv d n s \<longleftrightarrow>
     bytes_exact d (shared s)
     \<and> (\<forall>e \<in> set (xtcpEnvelopePool (shared s)). e = [])
     \<and> int (length (rowsOf (currentEnvelope (shared s)))) < rowThreshold d + int (card (wanting n s))
     \<and> (\<forall>i f. thread s i = WantFlush f \<longrightarrow> 1 \<le> i \<and> i \<le> n \<and> reAcquire f)"

lemma finite_wanting [simp]: "finite (wanting n s)"
  by (rule finite_subset [of _ "{..n}"]) (auto simp: wanting_def)

lemma wanting_cong: "thread s = thread s' \<Longrightarrow> wanting n s = wanting n s'"
  by (simp add: wanting_def)

lemma wanting_set:
  "thread s' = (thread s)(i := p) \<Longrightarrow> \<nexists>f. p = WantFlush f \<Longrightarrow> wanting n s' = wanting n s - {i}"
  by (auto simp: wanting_def)

lemma wanting_add:
  "thread s' = (thread s)(i := WantFlush f) \<Longrightarrow> 1 \<le> i \<Longrightarrow> i \<le> n \<Longrightarrow> wanting n s' = insert i (wanting n s)"
  by (auto simp: wanting_def)

lemma flushTake_inv:
  assumes "flushTake f x = (x', e)" "\<forall>v \<in> set (xtcpEnvelopePool x). v = []"
  shows "rowsOf (currentEnvelope x') = []" "currentEnvelopeBytes x' = 0" "e = currentEnvelope x"
    "\<forall>v \<in> set (xtcpEnvelopePool x'). v = []" "xtcpRecordPool x' = xtcpRecordPool x" "sent x' = sent x"
    "currentEnvelope x' = None \<longleftrightarrow> \<not> reAcquire f"
  using assms
  by (auto simp: flushTake_def rowsOf_def pool_get_def Let_def split: if_splits list.splits)

lemma flushDeliver_inv:
  assumes "\<forall>v \<in> set (xtcpEnvelopePool x). v = []"
  shows "currentEnvelope (flushDeliver d f e x) = currentEnvelope x"
    "currentEnvelopeBytes (flushDeliver d f e x) = currentEnvelopeBytes x"
    "\<forall>v \<in> set (xtcpEnvelopePool (flushDeliver d f e x)). v = []"
  using assms
  by (auto simp: flushDeliver_def pool_put_def inc_def Let_def split: option.splits)

lemma startEnvelope_inv:
  assumes "\<forall>v \<in> set (xtcpEnvelopePool x). v = []"
  shows "currentEnvelope (startEnvelope x) = Some []" "currentEnvelopeBytes (startEnvelope x) = 0"
    "\<forall>v \<in> set (xtcpEnvelopePool (startEnvelope x)). v = []" "sent (startEnvelope x) = sent x"
  using assms by (auto simp: startEnvelope_def pool_get_def split: list.splits)

lemma appendRow_some:
  assumes "currentEnvelope x = Some rows" "appendRow d r x = (x', reason)"
  shows "currentEnvelope x' = Some (rows @ [r])"
    "currentEnvelopeBytes x' = currentEnvelopeBytes x + int (envelopeRowBytes d r)"
    "xtcpEnvelopePool x' = xtcpEnvelopePool x" "sent x' = sent x" "xtcpRecordPool x' = xtcpRecordPool x"
    "reason = None \<Longrightarrow> int (length rows) + 1 < rowThreshold d"
    "reason = Some f \<Longrightarrow> reAcquire f"
  using assms by (auto simp: appendRow_def inc_def reAcquire_def Let_def split: if_splits)

lemma appendRow_none:
  assumes "currentEnvelope x = None" "appendRow d r x = (x', reason)"
  shows "currentEnvelope x' = None" "currentEnvelopeBytes x' = currentEnvelopeBytes x" "reason = None"
    "xtcpEnvelopePool x' = xtcpEnvelopePool x" "sent x' = sent x"
  using assms by (auto simp: appendRow_def inc_def)

lemma env_inv_append:
  assumes inv: "env_inv d n s" and en: "enabled n (Append i r) s"
  shows "env_inv d n (run_action d (Append i r) s)"
proof -
  obtain x' reason where ap: "appendRow d r (shared s) = (x', reason)" by force
  have i: "1 \<le> i" "i \<le> n" "thread s i = Idle" using en by auto
  then have notin: "i \<notin> wanting n s" by (simp add: wanting_def)
  define t where "t = run_action d (Append i r) s"
  have t: "shared t = x'"
      "thread t = (thread s)(i := (case reason of None \<Rightarrow> Idle | Some f \<Rightarrow> WantFlush f))"
    by (simp_all add: t_def ap)
  show ?thesis
  proof (cases "currentEnvelope (shared s)")
    case None
    note none = appendRow_none [OF None ap]
    have "wanting n t = wanting n s"
      using wanting_set [of t s i Idle n] t(2) notin none(3) by simp
    then show ?thesis
      using inv none i t None unfolding t_def [symmetric]
      by (auto simp: env_inv_def bytes_exact_def rowsOf_def)
  next
    case (Some rows)
    note some = appendRow_some [OF Some ap]
    have card: "card (wanting n t) = card (wanting n s) + (if reason = None then 0 else 1)"
    proof (cases reason)
      case None
      then show ?thesis using wanting_set [of t s i Idle n] t(2) notin by simp
    next
      case (Some f)
      then show ?thesis using wanting_add [of t s i f n] t(2) notin i by simp
    qed
    have rows_bound: "int (length rows) < rowThreshold d + int (card (wanting n s))"
      using inv Some by (simp add: env_inv_def rowsOf_def)
    then have "int (length (rows @ [r])) < rowThreshold d + int (card (wanting n t))"
      using some(6) by (cases reason) (auto simp: card)
    moreover have "\<forall>j f. thread t j = WantFlush f \<longrightarrow> 1 \<le> j \<and> j \<le> n \<and> reAcquire f"
      using inv i t(2) some(7) by (auto simp: env_inv_def split: option.splits)
    ultimately show ?thesis
      using inv some Some t(1) unfolding t_def [symmetric]
      by (simp add: env_inv_def bytes_exact_def rowsOf_def)
  qed
qed

lemma env_inv_step:
  assumes "env_inv d n s" "enabled n a s"
  shows "env_inv d n (run_action d a s)"
proof (cases a)
  case (Append i r)
  then show ?thesis using env_inv_append assms by simp
next
  case (Take i)
  obtain f where f: "thread s i = WantFlush f" using assms(2) Take by (auto split: pc.splits)
  obtain x e where take: "flushTake f (shared s) = (x, e)" by force
  have pool: "\<forall>v \<in> set (xtcpEnvelopePool (shared s)). v = []" using assms(1) by (simp add: env_inv_def)
  show ?thesis
    using assms(1) f take flushTake_inv [OF take pool] rowThreshold_pos [of d]
    by (auto simp: Take env_inv_def bytes_exact_def)
next
  case (Deliver i)
  obtain f e where f: "thread s i = Delivering f e" using assms(2) Deliver by (auto split: pc.splits)
  have pool: "\<forall>v \<in> set (xtcpEnvelopePool (shared s)). v = []" using assms(1) by (simp add: env_inv_def)
  have "wanting n (run_action d a s) = wanting n s"
    using f by (auto simp: Deliver wanting_def)
  then show ?thesis
    using assms(1) f flushDeliver_inv [OF pool, of d f e]
    by (auto simp: Deliver env_inv_def bytes_exact_def)
next
  case (Terminal f)
  obtain x e where take: "flushTake f (shared s) = (x, e)" by force
  have pool: "\<forall>v \<in> set (xtcpEnvelopePool (shared s)). v = []" using assms(1) by (simp add: env_inv_def)
  show ?thesis
    using assms(1) take flushTake_inv [OF take pool] rowThreshold_pos [of d]
    by (auto simp: Terminal env_inv_def bytes_exact_def)
next
  case StartPoll
  have pool: "\<forall>v \<in> set (xtcpEnvelopePool (shared s)). v = []" using assms(1) by (simp add: env_inv_def)
  show ?thesis
    using assms(1) startEnvelope_inv [OF pool] rowThreshold_pos [of d]
    by (auto simp: StartPoll env_inv_def bytes_exact_def rowsOf_def)
qed

lemma env_inv_reach: "env_reach d n s t \<Longrightarrow> env_inv d n s \<Longrightarrow> env_inv d n t"
  by (induction rule: env_reach.induct) (auto elim!: env_step.cases intro: env_inv_step)

section \<open>Conservation of rows\<close>

fun held :: "pc \<Rightarrow> XtcpFlatRecord multiset" where
  "held (Delivering f e) = mset (rowsOf e)"
| "held _ = {#}"

definition delivered :: "XTCP \<Rightarrow> XtcpFlatRecord multiset" where
  "delivered x = (\<Sum>(f, rows, buf, err)\<leftarrow>sent x. mset rows)"

definition conserved :: "nat \<Rightarrow> system \<Rightarrow> bool" where
  "conserved n s \<longleftrightarrow>
     mset (offered s) =
       mset (rowsOf (currentEnvelope (shared s))) + (\<Sum>i\<in>{..n}. held (thread s i))
       + delivered (shared s) + mset (dropped s) + mset (replaced s)"

lemma held_upd:
  "(i :: nat) \<le> n \<Longrightarrow> (\<Sum>j\<in>{..n}. held ((th(i := p)) j)) + held (th i) = (\<Sum>j\<in>{..n}. held (th j)) + held p"
proof -
  assume "i \<le> n"
  then have i: "finite {..n}" "i \<in> {..n}" by auto
  have "(\<Sum>j\<in>{..n} - {i}. held ((th(i := p)) j)) = (\<Sum>j\<in>{..n} - {i}. held (th j))"
    by (intro sum.cong) auto
  moreover have "(\<Sum>j\<in>{..n}. held ((th(i := p)) j)) = held p + (\<Sum>j\<in>{..n} - {i}. held ((th(i := p)) j))"
    by (subst sum.remove [OF i]) simp
  moreover have "(\<Sum>j\<in>{..n}. held (th j)) = held (th i) + (\<Sum>j\<in>{..n} - {i}. held (th j))"
    by (rule sum.remove [OF i])
  ultimately show ?thesis by (simp only: ac_simps)
qed

lemma held_upd_idle:
  "(i :: nat) \<le> n \<Longrightarrow> held (th i) = {#} \<Longrightarrow> (\<Sum>j\<in>{..n}. held ((th(i := p)) j)) = (\<Sum>j\<in>{..n}. held (th j)) + held p"
  using held_upd [of i n th p] by simp

lemma delivered_flushDeliver:
  "delivered (flushDeliver d f e x) = delivered x + mset (rowsOf e)"
  by (auto simp: flushDeliver_def delivered_def inc_def rowsOf_def Let_def split: option.splits)

lemma conserved_step:
  assumes "conserved n s" "env_inv d n s" "enabled n a s"
  shows "conserved n (run_action d a s)"
proof -
  have pool: "\<forall>v \<in> set (xtcpEnvelopePool (shared s)). v = []" using assms(2) by (simp add: env_inv_def)
  show ?thesis
  proof (cases a)
    case (Append i r)
    obtain x' reason where ap: "appendRow d r (shared s) = (x', reason)" by force
    have idle: "i \<le> n" "held (thread s i) = {#}" using assms(3) Append by auto
    have sum: "(\<Sum>j\<in>{..n}. held (((thread s)(i := (case reason of None \<Rightarrow> Idle | Some f \<Rightarrow> WantFlush f))) j))
        = (\<Sum>j\<in>{..n}. held (thread s j))"
      using held_upd_idle [of i n "thread s", OF idle] by (cases reason) auto
    show ?thesis
    proof (cases "currentEnvelope (shared s)")
      case None
      then show ?thesis
        using assms(1) appendRow_none [OF None ap] sum
        by (simp add: Append conserved_def ap rowsOf_def delivered_def)
    next
      case (Some rows)
      then show ?thesis
        using assms(1) appendRow_some [OF Some ap] sum
        by (simp add: Append conserved_def ap rowsOf_def delivered_def)
    qed
  next
    case (Take i)
    obtain f where f: "thread s i = WantFlush f" "i \<le> n" using assms(3) Take by (auto split: pc.splits)
    obtain x e where take: "flushTake f (shared s) = (x, e)" by force
    show ?thesis
      using assms(1) f flushTake_inv [OF take pool] held_upd_idle [of i n "thread s"]
      by (simp add: Take take conserved_def delivered_def)
  next
    case (Deliver i)
    obtain f e where f: "thread s i = Delivering f e" "i \<le> n" using assms(3) Deliver by (auto split: pc.splits)
    show ?thesis
      using assms(1) f flushDeliver_inv [OF pool, of d f e] held_upd [of i n "thread s" Idle]
      by (simp add: Deliver conserved_def delivered_flushDeliver)
  next
    case (Terminal f)
    obtain x e where take: "flushTake f (shared s) = (x, e)" by force
    have idle: "held (thread s 0) = {#}" using assms(3) Terminal by simp
    show ?thesis
      using assms(1) flushTake_inv [OF take pool] held_upd_idle [of 0 n "thread s", OF _ idle]
      by (simp add: Terminal take conserved_def delivered_def)
  next
    case StartPoll
    then show ?thesis
      using assms(1) startEnvelope_inv [OF pool] by (simp add: conserved_def rowsOf_def delivered_def)
  qed
qed

lemma conserved_reach: "env_reach d n s t \<Longrightarrow> env_inv d n s \<Longrightarrow> conserved n s \<Longrightarrow> conserved n t"
proof (induction rule: env_reach.induct)
  case (env_trans s t u)
  then have "env_inv d n t" "conserved n t" by (auto intro: env_inv_reach)
  then show ?case using env_trans.hyps(2) by (auto elim!: env_step.cases intro: conserved_step)
qed simp

section \<open>Properties\<close>

text \<open>The daemon before its first poll.\<close>

definition start_system :: "XTCP \<Rightarrow> system" where
  "start_system x =
     \<lparr>shared = x, thread = (\<lambda>_. Idle), offered = [], dropped = [], replaced = []\<rparr>"

definition fresh_daemon :: "XTCP \<Rightarrow> bool" where
  "fresh_daemon x \<longleftrightarrow> currentEnvelope x = None \<and> currentEnvelopeBytes x = 0 \<and> sent x = []
     \<and> xtcpEnvelopePool x = []"

lemma start_inv: "fresh_daemon x \<Longrightarrow> env_inv d n (start_system x)"
  using rowThreshold_pos [of d]
  by (simp add: env_inv_def start_system_def fresh_daemon_def bytes_exact_def rowsOf_def wanting_def)

lemma start_conserved: "fresh_daemon x \<Longrightarrow> conserved n (start_system x)"
  by (simp add: conserved_def start_system_def fresh_daemon_def rowsOf_def delivered_def)

text \<open>A small daemon for the examples: two rows per envelope and no enrichers.\<close>

definition wit_columns :: uplinkColumns where
  "wit_columns = \<lparr>u_ifname = [], u_nicDriver = [], u_nicModel = [], u_nicBusInfo = [], u_nicFwVersion = [],
     u_nicPCIVendor = 0, u_nicPCIDevice = 0, u_nicSpeedMbps = 0, u_lldpChassisName = [],
     u_lldpChassisID = [], u_lldpMgmtIP = [], u_lldpPortID = [], u_lldpPortDescr = []\<rparr>"

definition wit_daemon :: Daemon where
  "wit_daemon = \<lparr>hostname = ''h'', cf_Modulus = 1, cf_DaemonVersion = ''v'', cf_Label = [], cf_Tag = [],
     cf_Location = [], cf_FlushThresholdRows = 2, cf_FlushThresholdBytes = 0,
     pw_SizeTag = (\<lambda>_. 1), pw_SizeBytes = (\<lambda>n. Suc n), pw_SizeOfVarint = (\<lambda>_. 1),
     EnvelopeMarshaller = (\<lambda>rows. [of_nat (length rows)]), destErr = (\<lambda>_. False),
     grpcErr = (\<lambda>_. False),
     RTATypeDeserializer = (\<lambda>_. None),
     uplink = \<lparr>us_slot0 = wit_columns, us_slot1 = wit_columns, us_enabled = False\<rparr>,
     dockerIndex = None, nsidByInode = None, locality = None, asn = None, cgroupResolver = None\<rparr>"

definition wit_xtcp :: XTCP where
  "wit_xtcp = \<lparr>currentEnvelope = None, currentEnvelopeBytes = 0, xtcpEnvelopePool = [], xtcpRecordPool = [],
     nlhPool = [], rtaPool = [], sent = [], frClients = [], frStoreCount = 0, frDeleteCount = 0,
     pfrClients = [], pfrStoreCount = 0, pfrDeleteCount = 0, grpcSent = [], pollTime = (\<lambda>_. None), pC = []\<rparr>"

lemma wit_fresh: "fresh_daemon wit_xtcp"
  by (simp add: fresh_daemon_def wit_xtcp_def)

lemma SizeVT_zero: "SizeVT sov zero_record = 0"
  by (simp add: SizeVT_defs size_u_def size_b_def zero_record_def str_bytes_def)

lemma wit_rowBytes: "envelopeRowBytes wit_daemon zero_record = 2"
  by (simp add: envelopeRowBytes_def SizeVT_zero wit_daemon_def)

lemma wit_thresholds: "rowThreshold wit_daemon = 2" "byteThreshold wit_daemon = 786432"
  by (simp_all add: rowThreshold_def byteThreshold_def wit_daemon_def EnvelopeFlushThresholdBytesCst_def)

text \<open>A poll whose third row arrives after a cap flush and a timeout have crossed.\<close>

definition wit_schedule :: "action list" where
  "wit_schedule = [StartPoll, Append 1 zero_record, Append 1 zero_record, Terminal ''poll_timeout'',
     Deliver 0, Take 1, Deliver 1, Append 2 zero_record]"

definition wit_view where
  "wit_view s = (rowsOf (currentEnvelope (shared s)), map (thread s) [0, 1, 2], offered s, dropped s, replaced s,
     (''Deserialize'', ''envelopePostFlushDrop'', ''error'') \<in> set (pC (shared s)))"

lemma wit_schedule_runs:
  "map_option wit_view (run_schedule wit_daemon 2 wit_schedule (start_system wit_xtcp))
     = Some ([zero_record], [Idle, Idle, Idle], [zero_record, zero_record, zero_record], [], [], False)"
  by code_simp

text \<open>C20: in every interleaving of any number of decoders with the poller, the running byte
  total equals the sum of the exact wire contributions of the rows in the envelope,
  and the envelope never holds more rows than the threshold minus one plus one per
  decoder: a decoder that pushed it to the cap cannot append again before it flushed.\<close>

theorem envelope_caps:
  assumes "fresh_daemon x" "env_reach d n (start_system x) s"
  shows "currentEnvelopeBytes (shared s)
           = int (\<Sum>r\<leftarrow>rowsOf (currentEnvelope (shared s)). envelopeRowBytes d r)
    \<and> int (length (rowsOf (currentEnvelope (shared s)))) \<le> rowThreshold d - 1 + int n"
proof -
  have inv: "env_inv d n s" using env_inv_reach [OF assms(2) start_inv [OF assms(1)]] .
  have "card (wanting n s) \<le> card {1..n}"
    by (rule card_mono) (auto simp: wanting_def)
  with inv show ?thesis by (auto simp: env_inv_def bytes_exact_def)
qed

text \<open>C1: no interleaving duplicates or invents a row. Every row handed to the envelope is, at
  every moment, exactly once in one of: the current envelope, an envelope some thread
  is delivering, the envelopes handed to the destination, the rows dropped (and
  counted) for want of an envelope, and the rows a new poll found in the envelope it
  replaced.\<close>

theorem envelope_conservation:
  assumes "fresh_daemon x" "env_reach d n (start_system x) s"
  shows "mset (offered s) =
       mset (rowsOf (currentEnvelope (shared s))) + (\<Sum>i\<in>{..n}. held (thread s i))
       + delivered (shared s) + mset (dropped s) + mset (replaced s)"
  using conserved_reach [OF assms(2) start_inv [OF assms(1)] start_conserved [OF assms(1)]]
  by (simp add: conserved_def)


theorem envelope_caps_witness:
  "\<exists>s. env_reach wit_daemon 2 (start_system wit_xtcp) s \<and> rowsOf (currentEnvelope (shared s)) = [zero_record]
     \<and> currentEnvelopeBytes (shared s) = 2"
proof -
  obtain s where s: "run_schedule wit_daemon 2 wit_schedule (start_system wit_xtcp) = Some s"
      "rowsOf (currentEnvelope (shared s)) = [zero_record]"
    using wit_schedule_runs by (auto simp: wit_view_def)
  have reach: "env_reach wit_daemon 2 (start_system wit_xtcp) s"
    using run_schedule_reach [OF env_refl s(1)] .
  show ?thesis
    using envelope_caps [OF wit_fresh reach] s(2) reach by (auto simp: wit_rowBytes)
qed

theorem envelope_conservation_witness:
  "\<exists>s. env_reach wit_daemon 2 (start_system wit_xtcp) s \<and> size (delivered (shared s)) = 2"
proof -
  obtain s where s: "run_schedule wit_daemon 2 wit_schedule (start_system wit_xtcp) = Some s"
      "rowsOf (currentEnvelope (shared s)) = [zero_record]"
      "thread s 0 = Idle" "thread s 1 = Idle" "thread s 2 = Idle"
      "offered s = [zero_record, zero_record, zero_record]" "dropped s = []" "replaced s = []"
    using wit_schedule_runs by (auto simp: wit_view_def)
  have reach: "env_reach wit_daemon 2 (start_system wit_xtcp) s"
    using run_schedule_reach [OF env_refl s(1)] .
  have "(\<Sum>i\<in>{..2}. held (thread s i)) = {#}"
    using s(3-5) by (simp add: numeral_2_eq_2)
  then have "size (mset (offered s)) = size (delivered (shared s)) + 1"
    using s(2,7,8) by (subst envelope_conservation [OF wit_fresh reach]) simp
  then show ?thesis using s(6) reach by auto
qed

text \<open>The incremental byte count is exact. When the protobuf library sizes a tag of
  field 10 as one byte and a length-delimited value as its length plus the length's
  varint, the row contributions of any envelope add up to the size the marshaller
  computes for the whole envelope.\<close>

theorem row_bytes_sum_to_envelope_size:
  assumes "pw_SizeTag d 10 = 1" "\<And>l. pw_SizeBytes d l = pw_SizeOfVarint d (of_nat l) + l"
  shows "(\<Sum>r\<leftarrow>rows. envelopeRowBytes d r) = Envelope_SizeVT (pw_SizeOfVarint d) rows"
  by (simp add: envelopeRowBytes_def envelopeRowFieldNumber_def assms Envelope_SizeVT_sum add_ac)

theorem row_bytes_sum_to_envelope_size_witness:
  "(\<Sum>r\<leftarrow>[zero_record, zero_record\<lparr>SchemaVersion := 2\<rparr>]. envelopeRowBytes wit_daemon r) = 6"
  by (subst row_bytes_sum_to_envelope_size)
    (simp, simp_all add: wit_daemon_def Envelope_SizeVT_sum SizeVT_zero, code_simp)

end
