(* ===== verification/Enrich.thy ===== *)
theory Enrich
  imports Envelope
begin

text \<open>
  Metadata enrichment on the decode path (\<open>pkg/xtcp/enrich.go\<close>): the static uplink
  columns, the container and nsid of the record's namespace, the locality and ASN of
  the destination, and the container fallback from the cgroup id
  (\<open>processInetDiagRecord\<close>). The lookups themselves belong to other packages and are
  functions of the daemon record; an absent one is a nil enricher (for locality, also
  one with no snapshot to answer from).
\<close>

section \<open>Uplink columns\<close>

definition uplinkStamp_apply :: "uplinkStamp \<Rightarrow> XtcpFlatRecord \<Rightarrow> XtcpFlatRecord" where
  "uplinkStamp_apply s r =
     (if \<not> us_enabled s then r
      else
        let u1 = us_slot0 s; u2 = us_slot1 s in
        r\<lparr>Uplink1Ifname := u_ifname u1, Uplink1NicDriver := u_nicDriver u1, Uplink1NicModel := u_nicModel u1,
          Uplink1NicBusInfo := u_nicBusInfo u1, Uplink1NicFwVersion := u_nicFwVersion u1,
          Uplink1NicPciVendor := u_nicPCIVendor u1, Uplink1NicPciDevice := u_nicPCIDevice u1,
          Uplink1NicSpeedMbps := u_nicSpeedMbps u1, Uplink1LldpChassisName := u_lldpChassisName u1,
          Uplink1LldpChassisId := u_lldpChassisID u1, Uplink1LldpMgmtIp := u_lldpMgmtIP u1,
          Uplink1LldpPortId := u_lldpPortID u1, Uplink1LldpPortDescr := u_lldpPortDescr u1,
          Uplink2Ifname := u_ifname u2, Uplink2NicDriver := u_nicDriver u2, Uplink2NicModel := u_nicModel u2,
          Uplink2NicBusInfo := u_nicBusInfo u2, Uplink2NicFwVersion := u_nicFwVersion u2,
          Uplink2NicPciVendor := u_nicPCIVendor u2, Uplink2NicPciDevice := u_nicPCIDevice u2,
          Uplink2NicSpeedMbps := u_nicSpeedMbps u2, Uplink2LldpChassisName := u_lldpChassisName u2,
          Uplink2LldpChassisId := u_lldpChassisID u2, Uplink2LldpMgmtIp := u_lldpMgmtIP u2,
          Uplink2LldpPortId := u_lldpPortID u2, Uplink2LldpPortDescr := u_lldpPortDescr u2\<rparr>)"

text \<open>\<open>buildUplinkStamp\<close>: slot \<open>i\<close> is the interface \<open>ifnames[i]\<close>; a later NIC of the same name
  overwrites an earlier one in the map it builds.\<close>

record NIC =
  nic_Ifname :: string
  nic_Driver :: string
  nic_Model :: string
  nic_BusInfo :: string
  nic_FwVersion :: string
  nic_PCIVendor :: u32
  nic_PCIDevice :: u32
  nic_SpeedMbps :: u32

record Neighbor =
  nb_ChassisName :: string
  nb_ChassisID :: string
  nb_MgmtIP :: string
  nb_PortID :: string
  nb_PortDescr :: string

definition maxUplinks :: nat where
  "maxUplinks = 2"

definition empty_columns :: uplinkColumns where
  "empty_columns =
     \<lparr>u_ifname = [], u_nicDriver = [], u_nicModel = [], u_nicBusInfo = [], u_nicFwVersion = [],
      u_nicPCIVendor = 0, u_nicPCIDevice = 0, u_nicSpeedMbps = 0, u_lldpChassisName = [],
      u_lldpChassisID = [], u_lldpMgmtIP = [], u_lldpPortID = [], u_lldpPortDescr = []\<rparr>"

definition uplink_slot ::
    "(string \<Rightarrow> NIC option) \<Rightarrow> (string \<Rightarrow> Neighbor option) \<Rightarrow> string \<Rightarrow> uplinkColumns" where
  "uplink_slot nicByName neigh name =
     (let col = empty_columns\<lparr>u_ifname := name\<rparr>;
          col = (case nicByName name of None \<Rightarrow> col | Some n \<Rightarrow>
            col\<lparr>u_nicDriver := nic_Driver n, u_nicModel := nic_Model n, u_nicBusInfo := nic_BusInfo n,
              u_nicFwVersion := nic_FwVersion n, u_nicPCIVendor := nic_PCIVendor n,
              u_nicPCIDevice := nic_PCIDevice n, u_nicSpeedMbps := nic_SpeedMbps n\<rparr>)
      in case neigh name of None \<Rightarrow> col | Some nb \<Rightarrow>
            col\<lparr>u_lldpChassisName := nb_ChassisName nb, u_lldpChassisID := nb_ChassisID nb,
              u_lldpMgmtIP := nb_MgmtIP nb, u_lldpPortID := nb_PortID nb,
              u_lldpPortDescr := nb_PortDescr nb\<rparr>)"

definition buildUplinkStamp ::
    "string list \<Rightarrow> NIC list \<Rightarrow> (string \<Rightarrow> Neighbor option) \<Rightarrow> uplinkStamp" where
  "buildUplinkStamp ifnames nics neigh =
     (let nicByName = fold (\<lambda>n m. m(nic_Ifname n \<mapsto> n)) nics (\<lambda>_. None);
          slot = (\<lambda>i. if i < length ifnames \<and> i < maxUplinks
                      then uplink_slot nicByName neigh (ifnames ! i) else empty_columns)
      in \<lparr>us_slot0 = slot 0, us_slot1 = slot 1, us_enabled = ifnames \<noteq> []\<rparr>)"

section \<open>Destination address\<close>

text \<open>\<open>netip.Addr.Unmap\<close>: an IPv4-mapped IPv6 address becomes the IPv4 address.\<close>

fun Unmap :: "Addr \<Rightarrow> Addr" where
  "Unmap (Addr4 b) = Addr4 b"
| "Unmap (Addr16 b) =
     (if take 12 b = replicate 10 0 @ [255, 255] then Addr4 (drop 12 b) else Addr16 b)"

definition AF_INET :: u32 where
  "AF_INET = 2"

definition AF_INET6 :: u32 where
  "AF_INET6 = 10"

definition destAddr :: "u32 \<Rightarrow> bytes \<Rightarrow> Addr option" where
  "destAddr family b =
     (if family = AF_INET then (if 4 \<le> length b then Some (Addr4 (take 4 b)) else None)
      else if family = AF_INET6 then
        (if 16 \<le> length b then Some (Unmap (Addr16 (take 16 b))) else None)
      else None)"

section \<open>Stamping a record\<close>

definition has_prefix :: "string \<Rightarrow> string \<Rightarrow> bool" where
  "has_prefix s p \<longleftrightarrow> take (length p) s = p"

definition enrich_container :: "Daemon \<Rightarrow> XtcpFlatRecord \<Rightarrow> XtcpFlatRecord" where
  "enrich_container d r =
     (case dockerIndex d of
        None \<Rightarrow> r
      | Some Lookup \<Rightarrow>
          (case Lookup (NetnsInode r) of
             None \<Rightarrow> r
           | Some c \<Rightarrow>
               let r = r\<lparr>ContainerId := c_ID c, ContainerRuntime := ''docker'',
                         ContainerName := c_Name c, ContainerImage := c_Image c\<rparr>
               in if c_Name c \<noteq> [] \<and> has_prefix (Netns r) ''netns:['' then r\<lparr>Netns := c_Name c\<rparr> else r))"

definition enrich_nsid :: "Daemon \<Rightarrow> XtcpFlatRecord \<Rightarrow> XtcpFlatRecord" where
  "enrich_nsid d r =
     (case nsidByInode d of
        None \<Rightarrow> r
      | Some m \<Rightarrow> (case m (NetnsInode r) of None \<Rightarrow> r | Some i \<Rightarrow> r\<lparr>Nsid := i\<rparr>))"

text \<open>The destination: the locality result is stamped, and the ASN is looked up unless the
  locality says the destination is not remote.\<close>

definition stamp_locality :: "localityResult \<Rightarrow> XtcpFlatRecord \<Rightarrow> XtcpFlatRecord" where
  "stamp_locality res r =
     r\<lparr>EnrichSocketDestLocality := lr_Locality res,
       EnrichSocketDestEgressIfindex := lr_EgressIfindex res,
       EnrichSocketDestEgressIfname := lr_EgressIfname res,
       EnrichSocketInterfaceName := lr_BoundIfname res\<rparr>"

definition stamp_asn :: "u32 \<Rightarrow> string \<Rightarrow> XtcpFlatRecord \<Rightarrow> XtcpFlatRecord" where
  "stamp_asn a owner r = r\<lparr>EnrichSocketDestAsn := ucast a, EnrichSocketDestNetworkOwner := owner\<rparr>"

definition enrich_destination :: "Daemon \<Rightarrow> XtcpFlatRecord \<Rightarrow> XtcpFlatRecord" where
  "enrich_destination d r =
     (if asn d = None \<and> locality d = None then r
      else case destAddr (InetDiagMsgFamily r) (InetDiagMsgSocketDestination r) of
        None \<Rightarrow> r
      | Some addr \<Rightarrow>
          let (r, remote) =
                (case locality d of
                   None \<Rightarrow> (r, True)
                 | Some Resolve \<Rightarrow>
                     (case Resolve (NetnsInode r) addr (InetDiagMsgSocketInterface r) of
                        None \<Rightarrow> (r, True)
                      | Some res \<Rightarrow>
                          (stamp_locality res r, lr_Remote res)))
          in if \<not> remote then r
             else case asn d of
               None \<Rightarrow> r
             | Some LookupAsn \<Rightarrow>
                 (case LookupAsn addr of
                    None \<Rightarrow> r
                  | Some (a, owner) \<Rightarrow> stamp_asn a owner r))"

definition applyEnrichment :: "Daemon \<Rightarrow> XtcpFlatRecord \<Rightarrow> XtcpFlatRecord" where
  "applyEnrichment d r =
     enrich_destination d (enrich_nsid d (enrich_container d (uplinkStamp_apply (uplink d) r)))"

text \<open>The fallback in \<open>processInetDiagRecord\<close>: a container id from the socket's cgroup when
  the Docker index gave none.\<close>

definition cgroup_fallback :: "Daemon \<Rightarrow> XtcpFlatRecord \<Rightarrow> XtcpFlatRecord" where
  "cgroup_fallback d r =
     (if ContainerId r = [] \<and> InetDiagCgroupId r \<noteq> 0 then
        (case cgroupResolver d of
           None \<Rightarrow> r
         | Some Resolve \<Rightarrow>
             (case Resolve (InetDiagCgroupId r) of (cid, rt) \<Rightarrow>
                r\<lparr>ContainerId := cid, ContainerRuntime := rt\<rparr>))
      else r)"

section \<open>Properties\<close>

lemma enrich_container_dest [simp]:
  "EnrichSocketDestAsn (enrich_container d r) = EnrichSocketDestAsn r"
  "InetDiagMsgFamily (enrich_container d r) = InetDiagMsgFamily r"
  "InetDiagMsgSocketDestination (enrich_container d r) = InetDiagMsgSocketDestination r"
  "InetDiagMsgSocketInterface (enrich_container d r) = InetDiagMsgSocketInterface r"
  "NetnsInode (enrich_container d r) = NetnsInode r"
  by (simp_all add: enrich_container_def Let_def split: option.split)

lemma enrich_nsid_dest [simp]:
  "EnrichSocketDestAsn (enrich_nsid d r) = EnrichSocketDestAsn r"
  "InetDiagMsgFamily (enrich_nsid d r) = InetDiagMsgFamily r"
  "InetDiagMsgSocketDestination (enrich_nsid d r) = InetDiagMsgSocketDestination r"
  "InetDiagMsgSocketInterface (enrich_nsid d r) = InetDiagMsgSocketInterface r"
  "NetnsInode (enrich_nsid d r) = NetnsInode r"
  by (simp_all add: enrich_nsid_def split: option.split)

lemma uplinkStamp_apply_dest [simp]:
  "EnrichSocketDestAsn (uplinkStamp_apply s r) = EnrichSocketDestAsn r"
  "InetDiagMsgFamily (uplinkStamp_apply s r) = InetDiagMsgFamily r"
  "InetDiagMsgSocketDestination (uplinkStamp_apply s r) = InetDiagMsgSocketDestination r"
  "InetDiagMsgSocketInterface (uplinkStamp_apply s r) = InetDiagMsgSocketInterface r"
  "NetnsInode (uplinkStamp_apply s r) = NetnsInode r"
  by (simp_all add: uplinkStamp_apply_def Let_def)

text \<open>A destination the locality snapshot places on this host or on a connected subnet is
  tagged with its locality and never gets an internet ASN, whatever the other
  enrichers and the ASN index say.\<close>

theorem local_destination_no_asn:
  assumes "locality d = Some Resolve"
    and "destAddr (InetDiagMsgFamily r) (InetDiagMsgSocketDestination r) = Some addr"
    and "Resolve (NetnsInode r) addr (InetDiagMsgSocketInterface r) = Some res" "\<not> lr_Remote res"
  shows "EnrichSocketDestAsn (applyEnrichment d r) = EnrichSocketDestAsn r
    \<and> EnrichSocketDestLocality (applyEnrichment d r) = lr_Locality res"
  using assms by (simp add: applyEnrichment_def enrich_destination_def stamp_locality_def)

theorem local_destination_no_asn_witness:
  "EnrichSocketDestAsn (applyEnrichment
     (wit_daemon\<lparr>asn := Some (\<lambda>_. Some (64512, ''x'')),
        locality := Some (\<lambda>_ _ _. Some \<lparr>lr_Locality = LOCALITY_SELF, lr_EgressIfindex = 1,
          lr_EgressIfname = ''lo'', lr_BoundIfname = [], lr_Remote = False\<rparr>)\<rparr>)
     (zero_record\<lparr>InetDiagMsgFamily := 2, InetDiagMsgSocketDestination := replicate 16 0\<rparr>)) = 0"
  by (subst local_destination_no_asn [THEN conjunct1])
    (auto simp: destAddr_def AF_INET_def wit_daemon_def zero_record_def)

text \<open>The two ways a socket can carry an IPv4 peer give the same address. An IPv4 socket
  keeps it in the first four bytes of the slot, a dual-stack socket as an IPv4-mapped
  IPv6 address; both become the same IPv4 address for the lookups.\<close>

theorem mapped_destination_same_addr:
  assumes "length a = 4" "length b = 12"
  shows "destAddr AF_INET (a @ b) = Some (Addr4 a)
    \<and> destAddr AF_INET6 (replicate 10 0 @ [255, 255] @ a) = Some (Addr4 a)"
  using assms by (simp add: destAddr_def AF_INET_def AF_INET6_def)

theorem mapped_destination_same_addr_witness:
  "destAddr 10 (replicate 10 0 @ [255, 255] @ [10, 0, 0, 1]) = Some (Addr4 [10, 0, 0, 1])"
  using mapped_destination_same_addr [of "[10, 0, 0, 1]" "replicate 12 0"]
  by (simp add: AF_INET6_def)

end
