(* ===== verification/Deserialize.thy ===== *)
theory Deserialize
  imports Enrich
begin

text \<open>
  From a netlink packet to records (\<open>pkg/xtcp/deserialize.go\<close>,
  \<open>pkg/xtcp/deserializers.go\<close>, \<open>pkg/xtcp/zeroizers.go\<close>,
  \<open>pkg/xtcp/grpc_flatRecordService.go\<close>): the dispatch table and the sets derived from
  it, the attribute loop, the handler of one \<open>inet_diag_msg\<close> and the message loop. A
  panic (an access outside the packet, a division by zero) is \<open>None\<close>. Both loops are
  total functions; their measures are the termination arguments of the code.
\<close>

section \<open>The dispatch table\<close>

record deserializerEntry =
  de_key :: string
  de_enum :: nat
  de_fn :: xtcp_decoder

definition dispatchTable :: "deserializerEntry list" where
  "dispatchTable =
     [\<lparr>de_key = ''meminfo'', de_enum = unat MemInfoEmumValueCst, de_fn = DeserializeMemInfoXTCP\<rparr>,
      \<lparr>de_key = ''info'', de_enum = unat TCPInfoEmumValueCst, de_fn = DeserializeTCPInfoXTCP\<rparr>,
      \<lparr>de_key = ''vegas'', de_enum = unat VegasInfoEnumValueCst, de_fn = DeserializeVegasInfoXTCP\<rparr>,
      \<lparr>de_key = ''cong'', de_enum = unat CongInfoEmumValueCst, de_fn = DeserializeCongInfoXTCP\<rparr>,
      \<lparr>de_key = ''tos'', de_enum = unat TypeOfServiceEmumValueCst, de_fn = DeserializeTypeOfServiceXTCP\<rparr>,
      \<lparr>de_key = ''tc'', de_enum = unat TrafficClassEmumValueCst, de_fn = DeserializeTrafficClassXTCP\<rparr>,
      \<lparr>de_key = ''skmem'', de_enum = unat SkMemInfoEnumValueCst, de_fn = DeserializeSkMemInfoXTCP\<rparr>,
      \<lparr>de_key = ''shut'', de_enum = unat ShutdownEmumValueCst, de_fn = DeserializeShutdownXTCP\<rparr>,
      \<lparr>de_key = ''dctcp'', de_enum = unat DCTCPInfoEnumValueCst, de_fn = DeserializeDCTCPInfoXTCP\<rparr>,
      \<lparr>de_key = ''bbr'', de_enum = unat BBRInfoEnumValueCst, de_fn = DeserializeBBRInfoXTCP\<rparr>,
      \<lparr>de_key = ''classid'', de_enum = unat ClassIDEnumValueCst, de_fn = DeserializeClassIDXTCP\<rparr>,
      \<lparr>de_key = ''cgroup'', de_enum = unat CGroupIDEnumValueCst, de_fn = DeserializeCGroupIDXTCP\<rparr>,
      \<lparr>de_key = ''sockopt'', de_enum = unat SockOptEnumValueCst, de_fn = DeserializeSockOptXTCP\<rparr>]"

definition GetAllDeserializers :: "string list" where
  "GetAllDeserializers = map de_key dispatchTable"

definition deserializersOffByDefault :: "string \<Rightarrow> bool" where
  "deserializersOffByDefault key \<longleftrightarrow> key = ''meminfo''"

definition GetDefaultDeserializers :: "string list" where
  "GetDefaultDeserializers =
     map de_key (filter (\<lambda>e. \<not> deserializersOffByDefault (de_key e)) dispatchTable)"

text \<open>A Go map lookup of a missing key gives \<open>false\<close>.\<close>

definition enabled_key :: "(string \<rightharpoonup> bool) \<Rightarrow> string \<Rightarrow> bool" where
  "enabled_key m k \<longleftrightarrow> m k = Some True"

definition IDiagExtFromEnabled :: "(string \<rightharpoonup> bool) \<Rightarrow> u8" where
  "IDiagExtFromEnabled m =
     (let ext = fold (\<lambda>e ext.
            if 1 \<le> de_enum e \<and> de_enum e \<le> 8 \<and> enabled_key m (de_key e)
            then ext OR push_bit (de_enum e - 1) 1 else ext) dispatchTable 0
      in if enabled_key m ''vegas'' \<or> enabled_key m ''dctcp'' \<or> enabled_key m ''bbr''
         then ext OR push_bit (unat VegasInfoEnumValueCst - 1) 1 else ext)"

text \<open>The argument is nil when the configuration has no deserializer section.\<close>

definition InitDeserializers :: "(string \<rightharpoonup> bool) option \<Rightarrow> nat \<Rightarrow> xtcp_decoder option" where
  "InitDeserializers cfg =
     (case cfg of
        None \<Rightarrow> (\<lambda>_. None)
      | Some m \<Rightarrow>
          fold (\<lambda>e reg. if enabled_key m (de_key e) then reg(de_enum e \<mapsto> de_fn e) else reg)
            dispatchTable (\<lambda>_. None))"

section \<open>Zeroizers\<close>

definition InitZeroizers :: "CongestionAlgorithm \<Rightarrow> (XtcpFlatRecord \<Rightarrow> XtcpFlatRecord) option" where
  "InitZeroizers = (\<lambda>_. None)(CONGESTION_ALGORITHM_BBR1 \<mapsto> ZeroizeBBRInfoXTCP,
     CONGESTION_ALGORITHM_DCTCP \<mapsto> ZeroizeDCTCPInfoXTCP, CONGESTION_ALGORITHM_VEGAS \<mapsto> ZeroizeVegasInfoXTCP)"

definition ZeroXTCPCongRecord :: "XtcpFlatRecord \<Rightarrow> XtcpFlatRecord" where
  "ZeroXTCPCongRecord r =
     (case InitZeroizers (InetDiagCongEnum r) of None \<Rightarrow> r | Some zeroer \<Rightarrow> zeroer r)"

section \<open>Attributes\<close>

definition DeserializeAttribute ::
    "Daemon \<Rightarrow> nat \<Rightarrow> bytes \<Rightarrow> XtcpFlatRecord \<Rightarrow> XTCP
      \<Rightarrow> (XtcpFlatRecord \<times> nl_error option \<times> XTCP) option" where
  "DeserializeAttribute d ty buf r x =
     (case RTATypeDeserializer d ty of
        None \<Rightarrow> Some (r, None, x)
      | Some dec \<Rightarrow> do {
          (r, derr) \<leftarrow> dec buf r;
          Some (r, derr, if derr \<noteq> None then inc ''DeserializeAttribute'' ''deserializer'' ''error'' x else x) })"

text \<open>The length of an attribute's body with its padding; below zero only for a declared
  length of zero.\<close>

definition attrBodyLen :: "RTAttr \<Rightarrow> int" where
  "attrBodyLen rta = int (unat (rta_Len rta)) - int RTAttrSizeCst + FourByteAlignPadding (int (unat (rta_Len rta)))"

definition zero_rta :: RTAttr where
  "zero_rta = \<lparr>rta_Len = 0, rta_Type = 0\<rparr>"

definition zero_nlh :: NlMsgHdr where
  "zero_nlh = \<lparr>nlh_Len = 0, nlh_Type = 0, nlh_Flags = 0, nlh_Seq = 0, nlh_Pid = 0\<rparr>"

definition put_rta :: "RTAttr \<Rightarrow> XTCP \<Rightarrow> XTCP" where
  "put_rta rta x = x\<lparr>rtaPool := pool_put rta (rtaPool x)\<rparr>"

datatype 'r progress = Stop 'r | Next nat 'r

text \<open>One round of the loop in \<open>DeserializeAttributes\<close>, for an offset below the end.\<close>

definition attr_round ::
    "Daemon \<Rightarrow> bytes \<Rightarrow> nat \<Rightarrow> nat \<Rightarrow> XtcpFlatRecord \<times> XTCP \<Rightarrow> (XtcpFlatRecord \<times> XTCP) progress option" where
  "attr_round d pkt offset end rx =
     (case rx of (r, x) \<Rightarrow>
      let bufEnd = length pkt in
      if end < offset + RTAttrSizeCst \<or> bufEnd < offset + RTAttrSizeCst
      then Some (Stop (r, inc ''DeserializeAttributes'' ''truncatedRTAttrHeader'' ''error'' x))
      else do {
        let (rta, p) = pool_get zero_rta (rtaPool x);
        let x = x\<lparr>rtaPool := p\<rparr>;
        hdr \<leftarrow> go_slice pkt offset (offset + RTAttrSizeCst);
        (rta, res) \<leftarrow> DeserializeRTAttr hdr rta;
        case res of
          Inl errD \<Rightarrow>
            Some (Stop (r, put_rta rta (inc ''DeserializeAttributes'' ''DeserializeRTAttr'' ''error'' x)))
        | Inr _ \<Rightarrow>
            let offset = offset + RTAttrSizeCst; bodyLen = attrBodyLen rta in
            if bodyLen < 0
            then Some (Stop (r, put_rta rta (inc ''DeserializeAttributes'' ''rtaLenTooSmall'' ''error'' x)))
            else do {
              let e = offset + nat bodyLen;
              let (e, x) =
                (if end < e \<or> bufEnd < e
                 then (if end < bufEnd then end else bufEnd,
                       inc ''DeserializeAttributes'' ''rtaLenOverflow'' ''error'' x)
                 else (e, x));
              buf \<leftarrow> go_slice pkt offset e;
              (r, aerr, x) \<leftarrow> DeserializeAttribute d (unat (rta_Type rta)) buf r x;
              let x = (if aerr \<noteq> None then inc ''DeserializeAttributes'' ''attribute'' ''error'' x else x);
              Some (Next (offset + nat bodyLen) (r, put_rta rta x))
            }
      })"

text \<open>The header the first four bytes of a buffer spell, and the round in closed form.\<close>

definition rta_of :: "bytes \<Rightarrow> RTAttr" where
  "rta_of b = \<lparr>rta_Len = le_word (take 2 b), rta_Type = le_word (take 2 (drop 2 b))\<rparr>"

lemma attr_round_short:
  "\<not> (offset + 4 \<le> end \<and> offset + 4 \<le> length pkt) \<Longrightarrow>
     attr_round d pkt offset end (r, x)
       = Some (Stop (r, inc ''DeserializeAttributes'' ''truncatedRTAttrHeader'' ''error'' x))"
  by (auto simp: attr_round_def RTAttrSizeCst_def)

lemma attr_round_eq:
  assumes "offset + 4 \<le> end" "offset + 4 \<le> length pkt"
  shows "attr_round d pkt offset end (r, x) =
    (let x1 = x\<lparr>rtaPool := snd (pool_get zero_rta (rtaPool x))\<rparr>;
         rta = rta_of (drop offset pkt); bl = attrBodyLen rta;
         over = end < offset + 4 + nat bl \<or> length pkt < offset + 4 + nat bl;
         e = (if over then min end (length pkt) else offset + 4 + nat bl);
         x2 = (if over then inc ''DeserializeAttributes'' ''rtaLenOverflow'' ''error'' x1 else x1)
     in if bl < 0 then Some (Stop (r, put_rta rta (inc ''DeserializeAttributes'' ''rtaLenTooSmall'' ''error'' x1)))
        else do {
          (r, aerr, x3) \<leftarrow> DeserializeAttribute d (unat (rta_Type rta)) (take (e - (offset + 4)) (drop (offset + 4) pkt)) r x2;
          let x4 = (if aerr \<noteq> None then inc ''DeserializeAttributes'' ''attribute'' ''error'' x3 else x3);
          Some (Next (offset + 4 + nat bl) (r, put_rta rta x4)) })"
proof -
  have hdr: "DeserializeRTAttr (take 4 (drop offset pkt)) rta0 = Some (rta_of (drop offset pkt), Inr 4)" for rta0
    using assms by (subst DeserializeRTAttr_ok) (simp_all add: rta_of_def drop_take)
  have slice: "go_slice pkt offset (offset + 4) = Some (take 4 (drop offset pkt))"
    using assms by (simp add: go_slice_Some)
  obtain rta0 p where pg: "pool_get zero_rta (rtaPool x) = (rta0, p)" by force
  show ?thesis
    using assms by (auto simp: attr_round_def RTAttrSizeCst_def Let_def slice hdr pg go_slice_def)
qed

lemma attr_round_advances:
  "attr_round d pkt offset end rx = Some (Next offset' rx') \<Longrightarrow> offset + 4 \<le> offset'"
  by (cases rx; cases "offset + 4 \<le> end \<and> offset + 4 \<le> length pkt")
    (auto simp: attr_round_short attr_round_eq Let_def bind_eq_Some_conv split: if_splits)

function DeserializeAttributes ::
    "Daemon \<Rightarrow> bytes \<Rightarrow> nat \<Rightarrow> nat \<Rightarrow> XtcpFlatRecord \<times> XTCP \<Rightarrow> (XtcpFlatRecord \<times> XTCP) option" where
  "DeserializeAttributes d pkt offset end rx =
     (if offset < end then
        (case attr_round d pkt offset end rx of
           None \<Rightarrow> None
         | Some (Stop rx') \<Rightarrow> Some rx'
         | Some (Next offset' rx') \<Rightarrow> DeserializeAttributes d pkt offset' end rx')
      else Some rx)"
  by pat_completeness auto
termination
  by (relation "measure (\<lambda>(d, pkt, offset, end, rx). end - offset)")
    (auto dest: attr_round_advances)

declare DeserializeAttributes.simps [simp del]

section \<open>One record\<close>

record DeserializeArgs =
  da_ns :: string
  da_fd :: int
  da_inode :: u64
  da_NLPacket :: bytes
  da_id :: u32

definition XtcpFlatRecordSchemaVersion :: u32 where
  "XtcpFlatRecordSchemaVersion = 2"

text \<open>The twelve columns \<open>Deserialize\<close> sets on a record fresh from the pool.\<close>

definition stamp :: "Daemon \<Rightarrow> DeserializeArgs \<Rightarrow> u64 \<Rightarrow> u64 \<Rightarrow> XtcpFlatRecord \<Rightarrow> XtcpFlatRecord" where
  "stamp d a timestampNs n r =
     r\<lparr>Hostname := hostname d, SchemaVersion := XtcpFlatRecordSchemaVersion,
       DaemonVersion := cf_DaemonVersion d, Label := cf_Label d, Tag := cf_Tag d, Location := cf_Location d,
       TimestampNs := timestampNs, Netns := da_ns a, NetnsInode := da_inode a, RecordCounter := n,
       SocketFd := word_of_int (da_fd a), NetlinkerId := ucast (da_id a)\<rparr>"

definition frMapCount :: "XTCP \<Rightarrow> u64" where
  "frMapCount x = frStoreCount x - frDeleteCount x"

definition pfrMapCount :: "XTCP \<Rightarrow> u64" where
  "pfrMapCount x = pfrStoreCount x - pfrDeleteCount x"

text \<open>One \<open>Send\<close> per client stream; an error is only counted.\<close>

definition streamSend :: "Daemon \<Rightarrow> string \<Rightarrow> string \<Rightarrow> XtcpFlatRecord \<Rightarrow> nat \<Rightarrow> XTCP \<Rightarrow> XTCP" where
  "streamSend d errL sentL r c x =
     (let x = x\<lparr>grpcSent := (c, r) # grpcSent x\<rparr>;
          x = (if grpcErr d c then inc ''flatRecordServiceSend'' errL ''error'' x else x)
      in inc ''flatRecordServiceSend'' sentL ''count'' x)"

definition flatRecordServiceSend :: "Daemon \<Rightarrow> XtcpFlatRecord \<Rightarrow> XTCP \<Rightarrow> XTCP" where
  "flatRecordServiceSend d r x =
     (let fr = frMapCount x; pfr = pfrMapCount x in
      if fr = 0 \<and> pfr = 0 then x
      else
        let x = inc ''flatRecordServiceSend'' ''start'' ''count'' x;
            x = (if fr > 0 then fold (streamSend d ''frSend'' ''frSent'' r) (frClients x) x else x);
            x = (if pfr > 0 then fold (streamSend d ''pfrSend'' ''pfrSent'' r) (pfrClients x) x else x)
        in inc ''flatRecordServiceSend'' ''complete'' ''count'' x)"

definition put_nlh :: "NlMsgHdr \<Rightarrow> XTCP \<Rightarrow> XTCP" where
  "put_nlh h x = x\<lparr>nlhPool := pool_put h (nlhPool x)\<rparr>"

definition put_record :: "XtcpFlatRecord \<Rightarrow> XTCP \<Rightarrow> XTCP" where
  "put_record r x = x\<lparr>xtcpRecordPool := pool_put r (xtcpRecordPool x)\<rparr>"

text \<open>The length of the attribute section: never negative and never beyond the buffer.\<close>

definition clampAttrLen :: "NlMsgHdr \<Rightarrow> nat \<Rightarrow> nat \<Rightarrow> XTCP \<Rightarrow> int \<times> XTCP" where
  "clampAttrLen nlh offset bufEnd x =
     (let attrLen = int (unat (nlh_Len nlh)) - int NlMsgHdrSizeCst - int InetDiagMsgSizeCst;
          (attrLen, x) =
            (if attrLen < 0 then (0, inc ''Deserialize'' ''inetDiagNlhLenTooSmall'' ''error'' x)
             else (attrLen, x))
      in if int bufEnd < int offset + attrLen
         then (int bufEnd - int offset, inc ''Deserialize'' ''inetDiagNlhLenOverflow'' ''error'' x)
         else (attrLen, x))"

text \<open>\<open>processInetDiagRecord\<close>: decode the message and its attributes, enrich, stream, append,
  and flush when the append hit a cap. Returns the offset after the message.\<close>

definition processInetDiagRecord ::
    "Daemon \<Rightarrow> DeserializeArgs \<Rightarrow> XtcpFlatRecord \<Rightarrow> NlMsgHdr \<Rightarrow> nat \<Rightarrow> XTCP \<Rightarrow> (nat \<times> XTCP) option" where
  "processInetDiagRecord d a r nlh offset x =
     (let pkt = da_NLPacket a; bufEnd = length pkt in
      if bufEnd < offset + InetDiagMsgSizeCst
      then Some (bufEnd, inc ''Deserialize'' ''truncatedInetDiagMsg'' ''error'' x)
      else do {
        body \<leftarrow> go_slice pkt offset (offset + InetDiagMsgSizeCst);
        (r, ierr) \<leftarrow> DeserializeInetDiagMsgXTCP body r;
        let x = (if ierr \<noteq> None then inc ''Deserialize'' ''DeserializeInetDiagMsgXTCP'' ''error'' x else x);
        let offset = offset + InetDiagMsgSizeCst;
        let (attrLen, x) = clampAttrLen nlh offset bufEnd x;
        (r, x) \<leftarrow> DeserializeAttributes d pkt offset (offset + nat attrLen) (r, x);
        let offset = offset + nat attrLen;
        let r = cgroup_fallback d (applyEnrichment d r);
        let x = flatRecordServiceSend d r x;
        let (x, reason) = appendRow d r x;
        Some (offset, case reason of None \<Rightarrow> x | Some f \<Rightarrow> flushEnvelope d f x)
      })"

text \<open>\<open>skipUnknownNlmsg\<close>: the offset after a message of another type, if its length is sane.\<close>

definition skipUnknownNlmsg :: "NlMsgHdr \<Rightarrow> nat \<Rightarrow> nat \<Rightarrow> XTCP \<Rightarrow> nat option \<times> XTCP" where
  "skipUnknownNlmsg nlh offset end x =
     (let x = inc ''Deserialize'' ''skipUnknownType'' ''count'' x;
          bodyLen = int (unat (nlh_Len nlh)) - int NlMsgHdrSizeCst in
      if bodyLen < 0 \<or> int end < int offset + bodyLen
      then (None, inc ''Deserialize'' ''skipUnknownTypeBadLen'' ''error'' x)
      else (Some (offset + nat bodyLen), x))"

section \<open>The message loop\<close>

datatype deser_error = ErrParseDeserializeNlMsgHdr

type_synonym deser_result = "deser_error option \<times> XTCP"

text \<open>One round of the loop in \<open>Deserialize\<close>, for an offset below the end. A \<open>Modulus\<close> of zero
  makes \<open>n % Modulus\<close> panic.\<close>

definition msg_round ::
    "Daemon \<Rightarrow> DeserializeArgs \<Rightarrow> u64 \<Rightarrow> u64 \<Rightarrow> nat \<Rightarrow> XTCP \<Rightarrow> deser_result progress option" where
  "msg_round d a timestampNs n offset x =
     (let pkt = da_NLPacket a; end = length pkt in
      if end - offset < NlMsgHdrSizeCst
      then Some (Stop (Some ErrParseDeserializeNlMsgHdr, inc ''Deserialize'' ''truncatedAtHeader'' ''error'' x))
      else if cf_Modulus d = 0 then None
      else if cf_Modulus d \<noteq> 1 \<and> n mod cf_Modulus d \<noteq> 1
      then Some (Next offset (None, inc ''Deserialize'' ''continue'' ''count'' x))
      else do {
        let (r, p) = pool_get zero_record (xtcpRecordPool x);
        let x = x\<lparr>xtcpRecordPool := p\<rparr>;
        let r = stamp d a timestampNs n r;
        let (nlh, p) = pool_get zero_nlh (nlhPool x);
        let x = x\<lparr>nlhPool := p\<rparr>;
        hdr \<leftarrow> go_slice pkt offset (offset + NlMsgHdrSizeCst);
        (nlh, res) \<leftarrow> DeserializeNlMsgHdr hdr nlh;
        case res of
          Inl errD \<Rightarrow>
            Some (Stop (Some ErrParseDeserializeNlMsgHdr,
              put_record r (put_nlh nlh (inc ''Deserialize'' ''DeserializeNlMsgHdr'' ''error'' x))))
        | Inr _ \<Rightarrow>
            let offset = offset + NlMsgHdrSizeCst in
            if nlh_Type nlh = NlMsgHdrTypeDoneCst
            then Some (Stop (None, put_record r (put_nlh nlh x)))
            else if nlh_Type nlh \<noteq> NlMsgHdrTypeInetDiagCst
            then (case skipUnknownNlmsg nlh offset end x of (adv, x) \<Rightarrow>
                    let x = put_record r (put_nlh nlh x) in
                    (case adv of
                       None \<Rightarrow> Some (Stop (None, x))
                     | Some offset' \<Rightarrow> Some (Next offset' (None, x))))
            else do {
              (offset', x) \<leftarrow> processInetDiagRecord d a r nlh offset x;
              Some (Next offset' (None, put_nlh nlh x))
            }
      })"

section \<open>What the attribute loop computes\<close>

text \<open>The attributes of a section, as type and payload (padding included). A section ends at
  its last complete header, or at a header that declares the length zero.\<close>

function tlvs :: "bytes \<Rightarrow> (nat \<times> bytes) list" where
  "tlvs b =
     (if length b < 4 \<or> attrBodyLen (rta_of b) < 0 then []
      else (unat (rta_Type (rta_of b)), take (nat (attrBodyLen (rta_of b))) (drop 4 b))
             # tlvs (drop (4 + nat (attrBodyLen (rta_of b))) b))"
  by pat_completeness auto
termination
  by (relation "measure length") auto

declare tlvs.simps [simp del]

definition apply_attr :: "(nat \<Rightarrow> xtcp_decoder option) \<Rightarrow> nat \<times> bytes \<Rightarrow> XtcpFlatRecord \<Rightarrow> XtcpFlatRecord" where
  "apply_attr reg tb r = (case reg (fst tb) of None \<Rightarrow> r | Some dec \<Rightarrow> fst (the (dec (snd tb) r)))"

text \<open>A registry whose decoders never leave their payload. \<open>InitDeserializers\<close> builds one from
  any configuration.\<close>

definition registry_ok :: "(nat \<Rightarrow> xtcp_decoder option) \<Rightarrow> bool" where
  "registry_ok reg \<longleftrightarrow> (\<forall>ty dec. reg ty = Some dec \<longrightarrow> (\<forall>buf r. \<exists>r' e. dec buf r = Some (r', e)))"

lemma dispatchTable_total: "e \<in> set dispatchTable \<Longrightarrow> \<exists>r' err. de_fn e buf r = Some (r', err)"
  unfolding dispatchTable_def
  by (auto intro: mi.dec_total tcp.dec_total vi.dec_total ci.dec_total tos.dec_total tc.dec_total
      sm.dec_total sh.dec_total dc.dec_total bb.dec_total cl.dec_total cg.dec_total so.dec_total)

lemma registry_fold:
  assumes "\<forall>e \<in> set es. \<forall>buf r. \<exists>r' err. de_fn e buf r = Some (r', err)" "registry_ok reg"
  shows "registry_ok (fold (\<lambda>e reg. if P e then reg(de_enum e \<mapsto> de_fn e) else reg) es reg)"
  using assms
proof (induction es arbitrary: reg)
  case (Cons e es)
  have "registry_ok (if P e then reg(de_enum e \<mapsto> de_fn e) else reg)"
    using Cons.prems by (auto simp: registry_ok_def)
  then show ?case using Cons by simp
qed simp

lemma InitDeserializers_ok: "registry_ok (InitDeserializers cfg)"
proof (cases cfg)
  case None
  then show ?thesis by (simp add: InitDeserializers_def registry_ok_def)
next
  case (Some m)
  have "registry_ok (\<lambda>_. None)" by (simp add: registry_ok_def)
  then show ?thesis
    using dispatchTable_total by (auto simp: InitDeserializers_def Some intro!: registry_fold)
qed

text \<open>The part of the state that is not a pool of scratch structs or a counter.\<close>

definition base :: "XTCP \<Rightarrow> XTCP" where
  "base x = x\<lparr>rtaPool := [], nlhPool := [], pC := []\<rparr>"

lemma base_simps [simp]:
  "base (inc u v w x) = base x" "base (put_rta rta x) = base x" "base (put_nlh h x) = base x"
  "base (x\<lparr>rtaPool := p\<rparr>) = base x" "base (x\<lparr>nlhPool := q\<rparr>) = base x"
  by (simp_all add: base_def inc_def put_rta_def put_nlh_def)

lemma DeserializeAttribute_ok:
  assumes "registry_ok (RTATypeDeserializer d)"
  shows "\<exists>aerr x'. DeserializeAttribute d ty buf r x
      = Some (apply_attr (RTATypeDeserializer d) (ty, buf) r, aerr, x') \<and> base x' = base x"
proof (cases "RTATypeDeserializer d ty")
  case None
  then show ?thesis by (simp add: DeserializeAttribute_def apply_attr_def)
next
  case (Some dec)
  then obtain r' e where "dec buf r = Some (r', e)"
    using assms by (auto simp: registry_ok_def) metis
  then show ?thesis using Some by (simp add: DeserializeAttribute_def apply_attr_def)
qed

text \<open>One round on a complete header decodes the head of the remaining section.\<close>

lemma attr_round_next:
  assumes reg: "registry_ok (RTATypeDeserializer d)" and ok: "offset + 4 \<le> end" "end \<le> length pkt"
    and b: "b = take (end - offset) (drop offset pkt)" and pos: "\<not> attrBodyLen (rta_of b) < 0"
  shows "\<exists>x'. attr_round d pkt offset end (r, x)
      = Some (Next (offset + 4 + nat (attrBodyLen (rta_of b)))
          (apply_attr (RTATypeDeserializer d)
            (unat (rta_Type (rta_of b)), take (nat (attrBodyLen (rta_of b))) (drop 4 b)) r, x'))
    \<and> base x' = base x"
proof -
  define bl where "bl = nat (attrBodyLen (rta_of b))"
  define over where "over = (end < offset + 4 + bl \<or> length pkt < offset + 4 + bl)"
  have rta: "rta_of (drop offset pkt) = rta_of b" using ok by (simp add: b rta_of_def drop_take)
  have buf: "take ((if over then min end (length pkt) else offset + 4 + bl) - (offset + 4)) (drop (offset + 4) pkt)
      = take bl (drop 4 b)"
    using ok by (auto simp: b over_def drop_take min_def add.commute [of 4 offset])
  let ?x1 = "x\<lparr>rtaPool := snd (pool_get zero_rta (rtaPool x))\<rparr>"
  let ?x2 = "if over then inc ''DeserializeAttributes'' ''rtaLenOverflow'' ''error'' ?x1 else ?x1"
  obtain aerr x3 where at: "DeserializeAttribute d (unat (rta_Type (rta_of b))) (take bl (drop 4 b)) r ?x2
      = Some (apply_attr (RTATypeDeserializer d) (unat (rta_Type (rta_of b)), take bl (drop 4 b)) r, aerr, x3)"
      "base x3 = base ?x2"
    using DeserializeAttribute_ok [OF reg] by blast
  have ok': "offset + 4 \<le> end" "offset + 4 \<le> length pkt" using ok by auto
  show ?thesis
    using pos at buf
    by (cases over) (simp_all add: attr_round_eq [OF ok'] rta bl_def [symmetric] over_def [symmetric] Let_def)
qed

lemma tlvs_next:
  "4 \<le> length b \<Longrightarrow> \<not> attrBodyLen (rta_of b) < 0 \<Longrightarrow>
     tlvs b = (unat (rta_Type (rta_of b)), take (nat (attrBodyLen (rta_of b))) (drop 4 b))
       # tlvs (drop (4 + nat (attrBodyLen (rta_of b))) b)"
  by (subst tlvs.simps) simp

lemma tlvs_end: "length b < 4 \<or> attrBodyLen (rta_of b) < 0 \<Longrightarrow> tlvs b = []"
  by (simp add: tlvs.simps)

lemma DeserializeAttributes_tlvs:
  assumes "registry_ok (RTATypeDeserializer d)" "end \<le> length pkt"
  shows "\<exists>x'. DeserializeAttributes d pkt offset end (r, x)
      = Some (fold (apply_attr (RTATypeDeserializer d)) (tlvs (take (end - offset) (drop offset pkt))) r, x')
    \<and> base x' = base x"
proof (induction "end - offset" arbitrary: offset r x rule: less_induct)
  case less
  define b where "b = take (end - offset) (drop offset pkt)"
  have len: "length b = end - offset" using assms(2) by (simp add: b_def)
  have rta: "rta_of (drop offset pkt) = rta_of b" if "offset + 4 \<le> end"
    using that by (simp add: b_def rta_of_def drop_take)
  consider (stop) "\<not> offset < end" | (short) "offset < end" "\<not> offset + 4 \<le> end"
    | (bad) "offset + 4 \<le> end" "attrBodyLen (rta_of b) < 0"
    | (good) "offset + 4 \<le> end" "\<not> attrBodyLen (rta_of b) < 0"
    by linarith
  then show ?case
  proof cases
    case stop
    then show ?thesis by (simp add: DeserializeAttributes.simps tlvs_end)
  next
    case short
    then have "length b < 4" using len by linarith
    then show ?thesis
      using short by (simp add: DeserializeAttributes.simps attr_round_short b_def [symmetric] tlvs_end)
  next
    case bad
    then show ?thesis
      using assms(2) rta
      by (simp add: DeserializeAttributes.simps [of d pkt offset] attr_round_eq Let_def b_def [symmetric] tlvs_end)
  next
    case good
    define bl where "bl = nat (attrBodyLen (rta_of b))"
    have next_b: "drop (4 + bl) b = take (end - (offset + 4 + bl)) (drop (offset + 4 + bl) pkt)"
      by (simp add: b_def drop_take add_ac)
    obtain x1 where round: "attr_round d pkt offset end (r, x) = Some (Next (offset + 4 + bl)
          (apply_attr (RTATypeDeserializer d) (unat (rta_Type (rta_of b)), take bl (drop 4 b)) r, x1))"
        "base x1 = base x"
      using attr_round_next [OF assms(1) good(1) assms(2) b_def good(2)] bl_def by blast
    have "\<exists>x'. DeserializeAttributes d pkt (offset + 4 + bl) end (r', x1)
        = Some (fold (apply_attr (RTATypeDeserializer d)) (tlvs (drop (4 + bl) b)) r', x') \<and> base x' = base x1" for r'
      using less.hyps [of "offset + 4 + bl" r' x1] good(1) by (simp add: next_b)
    then show ?thesis
      using round good len tlvs_next [of b]
      by (simp add: DeserializeAttributes.simps [of d pkt offset] b_def [symmetric] bl_def [symmetric])
  qed
qed

section \<open>The loop as a function\<close>

lemma msg_round_truncated:
  "length (da_NLPacket a) - offset < 16 \<Longrightarrow>
     msg_round d a ts n offset x
       = Some (Stop (Some ErrParseDeserializeNlMsgHdr, inc ''Deserialize'' ''truncatedAtHeader'' ''error'' x))"
  by (simp add: msg_round_def NlMsgHdrSizeCst_def)

lemma msg_round_sampled:
  "16 \<le> length (da_NLPacket a) - offset \<Longrightarrow> cf_Modulus d \<noteq> 0 \<Longrightarrow> cf_Modulus d \<noteq> 1 \<Longrightarrow>
     n mod cf_Modulus d \<noteq> 1 \<Longrightarrow>
     msg_round d a ts n offset x = Some (Next offset (None, inc ''Deserialize'' ''continue'' ''count'' x))"
  by (simp add: msg_round_def NlMsgHdrSizeCst_def)

text \<open>A round that decodes: the header always reads, and only a length below the header or
  beyond the packet stops the loop.\<close>

lemma msg_round_decode:
  assumes len: "16 \<le> length (da_NLPacket a) - offset" and hit: "cf_Modulus d \<noteq> 0"
      "cf_Modulus d = 1 \<or> n mod cf_Modulus d = 1"
    and h: "h = nlmsghdr_of (drop offset (da_NLPacket a))"
    and x1: "x1 = x\<lparr>xtcpRecordPool := snd (pool_get zero_record (xtcpRecordPool x)),
          nlhPool := snd (pool_get zero_nlh (nlhPool x))\<rparr>"
    and r: "r = stamp d a ts n (fst (pool_get zero_record (xtcpRecordPool x)))"
  shows "msg_round d a ts n offset x =
     (if nlh_Type h = 3 then Some (Stop (None, put_record r (put_nlh h x1)))
      else if nlh_Type h \<noteq> 20 then
        (let x2 = put_record r (put_nlh h (snd (skipUnknownNlmsg h (offset + 16) (length (da_NLPacket a)) x1))) in
         if unat (nlh_Len h) < 16 \<or> length (da_NLPacket a) - offset < unat (nlh_Len h)
         then Some (Stop (None, x2)) else Some (Next (offset + unat (nlh_Len h)) (None, x2)))
      else do {
        (offset', x2) \<leftarrow> processInetDiagRecord d a r h (offset + 16) x1;
        Some (Next offset' (None, put_nlh h x2)) })"
proof -
  let ?pkt = "da_NLPacket a"
  have slice: "go_slice ?pkt offset (offset + 16) = Some (take 16 (drop offset ?pkt))"
    using len by (simp add: go_slice_Some)
  have hdr: "DeserializeNlMsgHdr (take 16 (drop offset ?pkt)) h0 = Some (h, Inr 16)" for h0
    using len by (subst DeserializeNlMsgHdr_ok) (simp_all add: h)
  obtain r0 p where pg: "pool_get zero_record (xtcpRecordPool x) = (r0, p)" by force
  obtain h0 q where qg: "pool_get zero_nlh (nlhPool x) = (h0, q)" by force
  have skip: "fst (skipUnknownNlmsg h (offset + 16) (length ?pkt) x') =
      (if unat (nlh_Len h) < 16 \<or> length ?pkt - offset < unat (nlh_Len h) then None
       else Some (offset + unat (nlh_Len h)))" for x'
  proof -
    obtain l where l: "unat (nlh_Len h) = l" by blast
    show ?thesis using len unfolding skipUnknownNlmsg_def Let_def NlMsgHdrSizeCst_def l by auto
  qed
  show ?thesis
    using len hit skip [of x1]
    by (auto simp: msg_round_def NlMsgHdrSizeCst_def NlMsgHdrTypeDoneCst_def NlMsgHdrTypeInetDiagCst_def
        slice hdr pg qg x1 r Let_def split: prod.splits)
qed

text \<open>What happens to a finished record: streamed, appended, and flushed at a cap.\<close>

definition emit :: "Daemon \<Rightarrow> XtcpFlatRecord \<Rightarrow> XTCP \<Rightarrow> XTCP" where
  "emit d r x =
     (case appendRow d r (flatRecordServiceSend d r x) of (x, reason) \<Rightarrow>
        case reason of None \<Rightarrow> x | Some f \<Rightarrow> flushEnvelope d f x)"

text \<open>The record of one message, from its body and its attribute section.\<close>

definition finish_record :: "Daemon \<Rightarrow> bytes \<Rightarrow> bytes \<Rightarrow> XtcpFlatRecord \<Rightarrow> XtcpFlatRecord" where
  "finish_record d body attrs r =
     cgroup_fallback d (applyEnrichment d
       (fold (apply_attr (RTATypeDeserializer d)) (tlvs attrs) (put_InetDiagMsg (inet_diag_msg_of body) r)))"

lemma inet_diag_msg_of_take [simp]: "inet_diag_msg_of (take 72 b) = inet_diag_msg_of b"
  by (simp add: inet_diag_msg_of_def drop_take)

lemma processInetDiagRecord_truncated:
  "length (da_NLPacket a) < offset + 72 \<Longrightarrow> processInetDiagRecord d a r h offset x
     = Some (length (da_NLPacket a), inc ''Deserialize'' ''truncatedInetDiagMsg'' ''error'' x)"
  by (simp add: processInetDiagRecord_def size_cst)

lemma clampAttrLen_eq:
  assumes "offset \<le> bufEnd"
  shows "\<exists>x'. clampAttrLen h offset bufEnd x = (int (min (unat (nlh_Len h) - 88) (bufEnd - offset)), x')
    \<and> base x' = base x"
proof -
  obtain l where l: "unat (nlh_Len h) = l" by blast
  show ?thesis
    using assms unfolding clampAttrLen_def l Let_def NlMsgHdrSizeCst_def size_cst by auto
qed

lemma processInetDiagRecord_ok:
  assumes reg: "registry_ok (RTATypeDeserializer d)" and len: "offset + 72 \<le> length (da_NLPacket a)"
    and al: "attrLen = min (unat (nlh_Len h) - 88) (length (da_NLPacket a) - (offset + 72))"
  shows "\<exists>x1. processInetDiagRecord d a r h offset x = Some (offset + 72 + attrLen,
      emit d (finish_record d (drop offset (da_NLPacket a)) (take attrLen (drop (offset + 72) (da_NLPacket a))) r) x1)
    \<and> base x1 = base x"
proof -
  let ?pkt = "da_NLPacket a" and ?r = "put_InetDiagMsg (inet_diag_msg_of (drop offset (da_NLPacket a))) r"
  have slice: "go_slice ?pkt offset (offset + 72) = Some (take 72 (drop offset ?pkt))"
    using len by (simp add: go_slice_Some)
  have dec: "DeserializeInetDiagMsgXTCP (take 72 (drop offset ?pkt)) r = Some (?r, None)"
    using len by (subst DeserializeInetDiagMsgXTCP_ok) simp_all
  obtain x2 where clamp: "clampAttrLen h (offset + 72) (length ?pkt) x = (int attrLen, x2)" "base x2 = base x"
    using clampAttrLen_eq [OF len, of h x] unfolding al by blast
  have bound: "offset + 72 + attrLen \<le> length ?pkt" using len al by linarith
  obtain x3 where attrs: "DeserializeAttributes d ?pkt (offset + 72) (offset + 72 + attrLen) (?r, x2)
      = Some (fold (apply_attr (RTATypeDeserializer d)) (tlvs (take attrLen (drop (offset + 72) ?pkt))) ?r, x3)"
      "base x3 = base x2"
    using DeserializeAttributes_tlvs [OF reg bound, where offset = "offset + 72" and r = ?r and x = x2] by auto
  have "processInetDiagRecord d a r h offset x = Some (offset + 72 + attrLen,
      emit d (finish_record d (drop offset ?pkt) (take attrLen (drop (offset + 72) ?pkt)) r) x3)"
    using len attrs(1) slice dec clamp(1)
    by (simp add: processInetDiagRecord_def size_cst Let_def finish_record_def emit_def split_beta
        cong: option.case_cong)
  then show ?thesis using clamp(2) attrs(2) by auto
qed

lemma processInetDiagRecord_forward:
  "processInetDiagRecord d a r h offset x = Some (offset', x') \<Longrightarrow> offset \<le> length (da_NLPacket a) \<Longrightarrow>
     offset \<le> offset'"
  by (auto simp: processInetDiagRecord_def Let_def bind_eq_Some_conv split_beta size_cst split: if_splits)

lemma msg_round_progress:
  assumes "offset < length (da_NLPacket a)" "msg_round d a ts n offset x = Some (Next offset' y)"
  shows "offset < offset'
    \<or> (offset' = offset \<and> cf_Modulus d \<noteq> 1 \<and> cf_Modulus d \<noteq> 0 \<and> n mod cf_Modulus d \<noteq> 1)"
proof -
  let ?pkt = "da_NLPacket a"
  consider (trunc) "length ?pkt - offset < 16" | (zero) "16 \<le> length ?pkt - offset" "cf_Modulus d = 0"
    | (skip) "16 \<le> length ?pkt - offset" "cf_Modulus d \<noteq> 0" "cf_Modulus d \<noteq> 1" "n mod cf_Modulus d \<noteq> 1"
    | (hit) "16 \<le> length ?pkt - offset" "cf_Modulus d \<noteq> 0" "cf_Modulus d = 1 \<or> n mod cf_Modulus d = 1"
    by linarith
  then show ?thesis
  proof cases
    case hit
    show ?thesis
      using assms(2) hit(1)
      by (auto simp: msg_round_decode [OF hit refl refl refl] Let_def bind_eq_Some_conv split: if_splits
          dest!: processInetDiagRecord_forward)
  qed (use assms(2) in \<open>auto simp: msg_round_truncated msg_round_sampled msg_round_def NlMsgHdrSizeCst_def\<close>)
qed

text \<open>How many rounds the sampling counter needs at most until it decodes again: 1 leaves the
  remainder 1 for every modulus above 1, and the counter wraps.\<close>

definition rounds_to_hit :: "u64 \<Rightarrow> nat" where
  "rounds_to_hit n = (if n \<le> 1 then 1 - unat n else 2 ^ 64 - unat n + 1)"

lemma rounds_to_hit_decreases:
  assumes "n mod m \<noteq> 1" "m \<noteq> 0" "m \<noteq> 1"
  shows "rounds_to_hit (n + 1) < rounds_to_hit n"
proof -
  have m: "1 < unat m"
    using assms(2,3) word_unat_eq_iff [of m 0] word_unat_eq_iff [of m 1] by simp
  have "n \<noteq> 1"
    using assms(1) m by (auto simp: word_unat_eq_iff unat_mod)
  then have n: "unat n \<noteq> 1" using word_unat_eq_iff [of n 1] by simp
  have lt: "unat n < 2 ^ 64" using unsigned_less [of n] by simp
  have suc: "unat (n + 1) = (if unat n = 2 ^ 64 - 1 then 0 else unat n + 1)"
    using lt by (auto simp: unat_word_ariths)
  show ?thesis
    using n lt by (auto simp: rounds_to_hit_def word_le_nat_alt suc)
qed

text \<open>The loop, with the number of rounds it returns.\<close>

function deserialize_loop ::
    "Daemon \<Rightarrow> DeserializeArgs \<Rightarrow> u64 \<Rightarrow> u64 \<Rightarrow> nat \<Rightarrow> XTCP \<Rightarrow> (u64 \<times> deser_result) option" where
  "deserialize_loop d a timestampNs n offset x =
     (if offset < length (da_NLPacket a) then
        (case msg_round d a timestampNs n offset x of
           None \<Rightarrow> None
         | Some (Stop res) \<Rightarrow> Some (n, res)
         | Some (Next offset' res) \<Rightarrow> deserialize_loop d a timestampNs (n + 1) offset' (snd res))
      else Some (n, None, x))"
  by pat_completeness auto
termination
proof (relation "measures [\<lambda>(d, a, ts, n, offset, x). length (da_NLPacket a) - offset,
    \<lambda>(d, a, ts, n, offset, x). rounds_to_hit n]", goal_cases)
  case 1
  then show ?case by simp
next
  case (2 d a ts n offset x y offset' res)
  then show ?case
    using msg_round_progress [of offset a d ts n x offset' res] rounds_to_hit_decreases [of n "cf_Modulus d"]
    by auto
qed

declare deserialize_loop.simps [simp del]

definition Deserialize :: "Daemon \<Rightarrow> DeserializeArgs \<Rightarrow> u64 \<Rightarrow> XTCP \<Rightarrow> (u64 \<times> deser_result) option" where
  "Deserialize d a now x =
     (let x = inc ''Deserialize'' ''start'' ''count'' x;
          (timestampNs, x) =
            (case pollTime x (da_fd a) of
               Some t \<Rightarrow> (t, x)
             | None \<Rightarrow> (now, inc ''Deserialize'' ''pollTime'' ''error'' x))
      in deserialize_loop d a timestampNs 0 0 x)"

end
