(* ===== verification/Decode_Refinement.thy ===== *)
theory Decode_Refinement
  imports Deserialize
begin

text \<open>
  What \<open>Deserialize\<close> promises, as a function of the packet alone: the records it hands
  on, in order, and whether it reports an error. The refinement theorem says that the
  daemon's loop, with its recycled structs, pools, counters and offsets, does exactly
  that to the observable state, for every packet a socket can deliver.
\<close>

section \<open>Recycled records\<close>

text \<open>A pooled record is clean when every column outside the twelve stamped ones is zero.\<close>

definition unstamp :: "XtcpFlatRecord \<Rightarrow> XtcpFlatRecord" where
  "unstamp r =
     r\<lparr>Hostname := [], SchemaVersion := 0, DaemonVersion := [], Label := [], Tag := [], Location := [],
       TimestampNs := 0, Netns := [], NetnsInode := 0, RecordCounter := 0, SocketFd := 0, NetlinkerId := 0\<rparr>"

definition clean :: "XtcpFlatRecord \<Rightarrow> bool" where
  "clean r \<longleftrightarrow> unstamp r = zero_record"

lemma clean_zero [simp]: "clean zero_record"
  by (simp add: clean_def unstamp_def zero_record_def)

lemma clean_stamp [simp]: "clean (stamp d a ts n r) = clean r"
  by (simp add: clean_def unstamp_def stamp_def)

lemma stamp_unstamp: "stamp d a ts n (unstamp r) = stamp d a ts n r"
  by (simp add: unstamp_def stamp_def)

lemma stamp_clean: "clean r \<Longrightarrow> stamp d a ts n r = stamp d a ts n zero_record"
  by (metis clean_def stamp_unstamp)

section \<open>The observable state\<close>

text \<open>Pools and counters are not observable.\<close>

definition view :: "XTCP \<Rightarrow> XTCP" where
  "view x = x\<lparr>xtcpEnvelopePool := [], xtcpRecordPool := [], nlhPool := [], rtaPool := [], pC := []\<rparr>"

definition pools_ok :: "XTCP \<Rightarrow> bool" where
  "pools_ok x \<longleftrightarrow> (\<forall>r \<in> set (xtcpRecordPool x). clean r) \<and> (\<forall>e \<in> set (xtcpEnvelopePool x). e = [])"

lemma view_simps [simp]:
  "view (inc u v w x) = view x" "view (put_rta rta x) = view x" "view (put_nlh h x) = view x"
  "view (put_record r x) = view x" "view (x\<lparr>rtaPool := p\<rparr>) = view x" "view (x\<lparr>nlhPool := q\<rparr>) = view x"
  "view (x\<lparr>xtcpRecordPool := s\<rparr>) = view x" "view (view x) = view x"
  by (simp_all add: view_def inc_def put_rta_def put_nlh_def put_record_def)

lemma pools_ok_simps [simp]:
  "pools_ok (inc u v w x) = pools_ok x" "pools_ok (put_rta rta x) = pools_ok x"
  "pools_ok (put_nlh h x) = pools_ok x" "pools_ok (x\<lparr>rtaPool := p\<rparr>) = pools_ok x"
  "pools_ok (x\<lparr>nlhPool := q\<rparr>) = pools_ok x"
  "pools_ok (put_record r x) \<longleftrightarrow> clean r \<and> pools_ok x"
  by (auto simp: pools_ok_def inc_def put_rta_def put_nlh_def put_record_def pool_put_def)

lemma base_view: "base x = base y \<Longrightarrow> view x = view y"
proof -
  have "view z = (base z)\<lparr>xtcpEnvelopePool := [], xtcpRecordPool := []\<rparr>" for z
    by (simp add: view_def base_def)
  then show "base x = base y \<Longrightarrow> view x = view y" by simp
qed

lemma base_pools_ok: "base x = base y \<Longrightarrow> pools_ok x = pools_ok y"
proof -
  have "pools_ok z = pools_ok (base z)" for z by (simp add: pools_ok_def base_def)
  then show "base x = base y \<Longrightarrow> pools_ok x = pools_ok y" by metis
qed

lemma pools_ok_get_record:
  "pools_ok x \<Longrightarrow> clean (fst (pool_get zero_record (xtcpRecordPool x)))
     \<and> pools_ok (x\<lparr>xtcpRecordPool := snd (pool_get zero_record (xtcpRecordPool x))\<rparr>)"
  by (auto simp: pools_ok_def pool_get_def split: list.splits)

section \<open>Handing a record on\<close>

text \<open>What streaming, appending and flushing do to the observable state.\<close>

definition sends :: "XTCP \<Rightarrow> XtcpFlatRecord \<Rightarrow> (nat \<times> XtcpFlatRecord) list" where
  "sends x r =
     (if pfrMapCount x > 0 then rev (map (\<lambda>c. (c, r)) (pfrClients x)) else [])
     @ (if frMapCount x > 0 then rev (map (\<lambda>c. (c, r)) (frClients x)) else [])"

lemma streamSend_fold:
  "view (fold (streamSend d e s r) cs x) = (view x)\<lparr>grpcSent := rev (map (\<lambda>c. (c, r)) cs) @ grpcSent x\<rparr>
   \<and> pools_ok (fold (streamSend d e s r) cs x) = pools_ok x
   \<and> frClients (fold (streamSend d e s r) cs x) = frClients x \<and> pfrClients (fold (streamSend d e s r) cs x) = pfrClients x
   \<and> grpcSent (fold (streamSend d e s r) cs x) = rev (map (\<lambda>c. (c, r)) cs) @ grpcSent x"
proof (induction cs arbitrary: x)
  case Nil
  then show ?case by (simp add: view_def)
next
  case (Cons c cs)
  have "view (streamSend d e s r c x) = (view x)\<lparr>grpcSent := (c, r) # grpcSent x\<rparr>"
      "pools_ok (streamSend d e s r c x) = pools_ok x" "frClients (streamSend d e s r c x) = frClients x"
      "pfrClients (streamSend d e s r c x) = pfrClients x" "grpcSent (streamSend d e s r c x) = (c, r) # grpcSent x"
    by (simp_all add: streamSend_def view_def inc_def Let_def pools_ok_def)
  then show ?case using Cons [of "streamSend d e s r c x"] by simp
qed

lemma flatRecordServiceSend_view:
  "view (flatRecordServiceSend d r x) = (view x)\<lparr>grpcSent := sends x r @ grpcSent x\<rparr>
   \<and> pools_ok (flatRecordServiceSend d r x) = pools_ok x"
proof -
  have inc: "frClients (inc u v w y) = frClients y" "pfrClients (inc u v w y) = pfrClients y"
      "grpcSent (inc u v w y) = grpcSent y" for u v w y
    by (simp_all add: inc_def)
  show ?thesis
    by (cases "frMapCount x = 0"; cases "pfrMapCount x = 0")
      (simp_all add: flatRecordServiceSend_def sends_def Let_def streamSend_fold inc word_gt_0, simp_all add: view_def)
qed

lemma view_sels [simp]:
  "currentEnvelope (view x) = currentEnvelope x" "currentEnvelopeBytes (view x) = currentEnvelopeBytes x"
  "sent (view x) = sent x" "grpcSent (view x) = grpcSent x" "frClients (view x) = frClients x"
  "pfrClients (view x) = pfrClients x" "frMapCount (view x) = frMapCount x" "pfrMapCount (view x) = pfrMapCount x"
  "pollTime (view x) = pollTime x" "pools_ok (view x)"
  by (simp_all add: view_def frMapCount_def pfrMapCount_def pools_ok_def)

lemma view_eqD:
  assumes "view x = view y"
  shows "currentEnvelope x = currentEnvelope y" "currentEnvelopeBytes x = currentEnvelopeBytes y"
    "sent x = sent y" "grpcSent x = grpcSent y" "sends x r = sends y r"
proof -
  have "currentEnvelope (view x) = currentEnvelope (view y)" "currentEnvelopeBytes (view x) = currentEnvelopeBytes (view y)"
      "sent (view x) = sent (view y)" "grpcSent (view x) = grpcSent (view y)" "frClients (view x) = frClients (view y)"
      "pfrClients (view x) = pfrClients (view y)" "frMapCount (view x) = frMapCount (view y)"
      "pfrMapCount (view x) = pfrMapCount (view y)"
    using assms by simp_all
  then show "currentEnvelope x = currentEnvelope y" "currentEnvelopeBytes x = currentEnvelopeBytes y"
      "sent x = sent y" "grpcSent x = grpcSent y" "sends x r = sends y r"
    by (simp_all add: sends_def)
qed

lemma appendRow_view:
  "view (fst (appendRow d r x)) =
     (case currentEnvelope x of
        None \<Rightarrow> view x
      | Some rows \<Rightarrow> (view x)\<lparr>currentEnvelope := Some (rows @ [r]),
          currentEnvelopeBytes := currentEnvelopeBytes x + int (envelopeRowBytes d r)\<rparr>)
   \<and> (pools_ok x \<longrightarrow> pools_ok (fst (appendRow d r x)))"
  by (auto simp: appendRow_def view_def pools_ok_def inc_def pool_put_def Let_def split: option.splits)

lemma appendRow_reason:
  "currentEnvelope x = currentEnvelope y \<Longrightarrow> currentEnvelopeBytes x = currentEnvelopeBytes y \<Longrightarrow>
     snd (appendRow d r x) = snd (appendRow d r y)"
  by (simp add: appendRow_def Let_def split: option.split)

lemma fold_put_zero: "set (fold (\<lambda>_. pool_put zero_record) rows p) \<subseteq> insert zero_record (set p)"
  by (induction rows arbitrary: p) (fastforce simp: pool_put_def)+

definition flush_log where
  "flush_log d f e log =
     (if e = None \<or> e = Some [] then log
      else (f, the e, EnvelopeMarshaller d (the e), destErr d (EnvelopeMarshaller d (the e))) # log)"

lemma flushEnvelope_view:
  assumes "pools_ok x"
  shows "view (flushEnvelope d f x) =
      (view x)\<lparr>currentEnvelope := (if reAcquire f then Some [] else None), currentEnvelopeBytes := 0,
        sent := flush_log d f (currentEnvelope x) (sent x)\<rparr>
    \<and> pools_ok (flushEnvelope d f x)"
proof -
  obtain n p where pg: "pool_get [] (xtcpEnvelopePool x) = (n, p)" by force
  have np: "n = []" "\<forall>e \<in> set p. e = []"
    using assms pool_get_set [OF pg] by (auto simp: pools_ok_def)
  have zero: "\<forall>q \<in> set (fold (\<lambda>_. pool_put zero_record) rows (xtcpRecordPool x)). clean q" for rows
    using assms fold_put_zero [of rows "xtcpRecordPool x"] by (auto simp: pools_ok_def)
  have pools: "\<forall>q \<in> set (xtcpRecordPool x). clean q" "\<forall>e \<in> set (xtcpEnvelopePool x). e = []"
    using assms by (simp_all add: pools_ok_def)
  show ?thesis
  proof (cases "currentEnvelope x = None \<or> currentEnvelope x = Some []")
    case True
    then show ?thesis
      using np pools
      by (auto simp: flushEnvelope_def flushTake_def flushDeliver_def pg view_def pools_ok_def pool_put_def flush_log_def)
  next
    case False
    then obtain rows where "currentEnvelope x = Some rows" "rows \<noteq> []" by auto
    then show ?thesis
      using np pools zero
      by (simp add: flushEnvelope_def flushTake_def flushDeliver_def pg Let_def view_def inc_def pools_ok_def
          pool_put_def flush_log_def)
  qed
qed

text \<open>Handing a record on depends on the observable state only and keeps the pools in order.\<close>

lemma emit_view:
  assumes "pools_ok x" "pools_ok y" "view x = view y"
  shows "view (emit d r x) = view (emit d r y) \<and> pools_ok (emit d r x)"
proof -
  define x1 y1 where "x1 = flatRecordServiceSend d r x" and "y1 = flatRecordServiceSend d r y"
  have v1: "view x1 = view y1" "pools_ok x1" "pools_ok y1"
    using assms flatRecordServiceSend_view [of d r x] flatRecordServiceSend_view [of d r y] view_eqD [OF assms(3)]
    by (simp_all add: x1_def y1_def)
  define x2 y2 where "x2 = fst (appendRow d r x1)" and "y2 = fst (appendRow d r y1)"
  have v2: "view x2 = view y2" "pools_ok x2" "pools_ok y2"
    using v1 appendRow_view [of d r x1] appendRow_view [of d r y1] view_eqD [OF v1(1)]
    by (simp_all add: x2_def y2_def split: option.splits)
  have reason: "snd (appendRow d r x1) = snd (appendRow d r y1)"
    using view_eqD [OF v1(1)] by (intro appendRow_reason) auto
  have "view (flushEnvelope d f x2) = view (flushEnvelope d f y2)" "pools_ok (flushEnvelope d f x2)" for f
    using flushEnvelope_view [OF v2(2), of d f] flushEnvelope_view [OF v2(3), of d f] v2(1) view_eqD [OF v2(1)]
    by simp_all
  then show ?thesis
    using v2 reason by (simp add: emit_def x1_def y1_def x2_def y2_def split_beta split: option.splits)
qed

lemma emit_fold_view:
  "pools_ok x \<Longrightarrow> pools_ok y \<Longrightarrow> view x = view y \<Longrightarrow>
     view (fold (emit d) rs x) = view (fold (emit d) rs y) \<and> pools_ok (fold (emit d) rs x)"
proof (induction rs arbitrary: x y)
  case (Cons r rs)
  have "view (emit d r x) = view (emit d r y)" "pools_ok (emit d r x)" "pools_ok (emit d r y)"
    using emit_view [OF Cons.prems] emit_view [OF Cons.prems(2,1) Cons.prems(3) [symmetric]] by simp_all
  then show ?case using Cons.IH [of "emit d r x" "emit d r y"] by simp
qed simp

section \<open>The packet, abstractly\<close>

text \<open>The counter value of the next round that decodes.\<close>

function hit :: "u64 \<Rightarrow> u64 \<Rightarrow> u64" where
  "hit m n = (if m = 0 \<or> m = 1 \<or> n mod m = 1 then n else hit m (n + 1))"
  by pat_completeness auto
termination
  by (relation "measure (\<lambda>(m, n). rounds_to_hit n)") (auto intro: rounds_to_hit_decreases)

declare hit.simps [simp del]

text \<open>The records of the bytes that are left, and the error. Messages of other types are
  stepped over by their length; a nonsensical length or \<open>NLMSG_DONE\<close> ends the packet.\<close>

function packet_spec ::
    "Daemon \<Rightarrow> DeserializeArgs \<Rightarrow> u64 \<Rightarrow> u64 \<Rightarrow> bytes \<Rightarrow> XtcpFlatRecord list \<times> deser_error option" where
  "packet_spec d a ts n b =
     (if b = [] then ([], None)
      else if length b < 16 then ([], Some ErrParseDeserializeNlMsgHdr)
      else
        let n = hit (cf_Modulus d) n; h = nlmsghdr_of b; l = unat (nlh_Len h) in
        if nlh_Type h = 3 then ([], None)
        else if nlh_Type h \<noteq> 20 then
          (if l < 16 \<or> length b < l then ([], None) else packet_spec d a ts (n + 1) (drop l b))
        else if length b < 88 then ([], None)
        else
          let attrLen = min (l - 88) (length b - 88);
              rest = packet_spec d a ts (n + 1) (drop (88 + attrLen) b)
          in (finish_record d (drop 16 b) (take attrLen (drop 88 b)) (stamp d a ts n zero_record) # fst rest, snd rest))"
  by pat_completeness auto
termination
  by (relation "measure (\<lambda>(d, a, ts, n, b). length b)") auto

declare packet_spec.simps [simp del]

lemma packet_spec_sampled:
  "cf_Modulus d \<noteq> 0 \<Longrightarrow> cf_Modulus d \<noteq> 1 \<Longrightarrow> n mod cf_Modulus d \<noteq> 1 \<Longrightarrow>
     packet_spec d a ts n b = packet_spec d a ts (n + 1) b"
  by (subst (1 2) packet_spec.simps, subst hit.simps) simp

lemma hit_now: "cf_Modulus d = 1 \<or> n mod cf_Modulus d = 1 \<Longrightarrow> hit (cf_Modulus d) n = n"
  by (auto simp: hit.simps)

section \<open>Refinement\<close>

definition refines :: "Daemon \<Rightarrow> DeserializeArgs \<Rightarrow> u64 \<Rightarrow> u64 \<Rightarrow> nat \<Rightarrow> XTCP \<Rightarrow> bool" where
  "refines d a ts n offset x \<longleftrightarrow>
     (\<exists>n' x'. deserialize_loop d a ts n offset x
         = Some (n', snd (packet_spec d a ts n (drop offset (da_NLPacket a))), x')
       \<and> view x' = view (fold (emit d) (fst (packet_spec d a ts n (drop offset (da_NLPacket a)))) x)
       \<and> pools_ok x')"

lemma refines_stop:
  assumes "offset < length (da_NLPacket a)" "msg_round d a ts n offset x = Some (Stop (e, x'))"
    "packet_spec d a ts n (drop offset (da_NLPacket a)) = ([], e)" "view x' = view x" "pools_ok x'"
  shows "refines d a ts n offset x"
  using assms by (simp add: refines_def deserialize_loop.simps)

lemma refines_next:
  assumes "offset < length (da_NLPacket a)" "msg_round d a ts n offset x = Some (Next offset' (e, y))"
    and spec: "packet_spec d a ts n (drop offset (da_NLPacket a))
      = (rs @ fst (packet_spec d a ts (n + 1) (drop offset' (da_NLPacket a))),
         snd (packet_spec d a ts (n + 1) (drop offset' (da_NLPacket a))))"
    and "view y = view (fold (emit d) rs x)" "pools_ok y" "pools_ok x" "refines d a ts (n + 1) offset' y"
  shows "refines d a ts n offset x"
proof -
  have "pools_ok (fold (emit d) rs x)" using emit_fold_view [of x x] assms by simp
  then have "view (fold (emit d) us y) = view (fold (emit d) us (fold (emit d) rs x))" for us
    using emit_fold_view [of y "fold (emit d) rs x"] assms by simp
  with assms show ?thesis by (simp add: refines_def deserialize_loop.simps [of d a ts n])
qed

text \<open>A round that decodes a message, one lemma per kind of message. The recycled structs drop
  out here: the record the round works on is the stamped zero record.\<close>

definition decoding :: "Daemon \<Rightarrow> DeserializeArgs \<Rightarrow> u64 \<Rightarrow> nat \<Rightarrow> bool" where
  "decoding d a n offset \<longleftrightarrow> 16 \<le> length (da_NLPacket a) - offset \<and> cf_Modulus d \<noteq> 0
     \<and> (cf_Modulus d = 1 \<or> n mod cf_Modulus d = 1)"

lemma decoding_lt: "decoding d a n offset \<Longrightarrow> offset < length (da_NLPacket a)"
  by (auto simp: decoding_def)

lemma decoding_spec:
  assumes "decoding d a n offset" "b = drop offset (da_NLPacket a)" "h = nlmsghdr_of b" "l = unat (nlh_Len h)"
  shows "packet_spec d a ts n b =
     (if nlh_Type h = 3 then ([], None)
      else if nlh_Type h \<noteq> 20 then
        (if l < 16 \<or> length b < l then ([], None) else packet_spec d a ts (n + 1) (drop l b))
      else if length b < 88 then ([], None)
      else
        let attrLen = min (l - 88) (length b - 88);
            rest = packet_spec d a ts (n + 1) (drop (88 + attrLen) b)
        in (finish_record d (drop 16 b) (take attrLen (drop 88 b)) (stamp d a ts n zero_record) # fst rest, snd rest))"
proof -
  have "b \<noteq> []" "\<not> length b < 16" using assms(1,2) by (auto simp: decoding_def)
  then show ?thesis
    using assms by (subst packet_spec.simps) (simp add: hit_now decoding_def Let_def)
qed

lemma decoding_round:
  assumes dec: "decoding d a n offset" and ok: "pools_ok x"
    and h: "h = nlmsghdr_of (drop offset (da_NLPacket a))" and l: "l = unat (nlh_Len h)"
  shows "\<exists>x1. view x1 = view x \<and> pools_ok x1
    \<and> (nlh_Type h = 3 \<longrightarrow> msg_round d a ts n offset x = Some (Stop (None, x1)))
    \<and> (nlh_Type h \<noteq> 3 \<and> nlh_Type h \<noteq> 20 \<longrightarrow>
         msg_round d a ts n offset x =
           (if l < 16 \<or> length (da_NLPacket a) - offset < l then Some (Stop (None, x1))
            else Some (Next (offset + l) (None, x1))))
    \<and> (nlh_Type h = 20 \<longrightarrow>
         msg_round d a ts n offset x = do {
           (offset', x2) \<leftarrow> processInetDiagRecord d a (stamp d a ts n zero_record) h (offset + 16) x1;
           Some (Next offset' (None, put_nlh h x2)) })"
proof -
  have len: "16 \<le> length (da_NLPacket a) - offset" and hit: "cf_Modulus d \<noteq> 0"
      "cf_Modulus d = 1 \<or> n mod cf_Modulus d = 1"
    using dec by (auto simp: decoding_def)
  define r where "r = stamp d a ts n (fst (pool_get zero_record (xtcpRecordPool x)))"
  define x1 where "x1 = x\<lparr>xtcpRecordPool := snd (pool_get zero_record (xtcpRecordPool x)),
      nlhPool := snd (pool_get zero_nlh (nlhPool x))\<rparr>"
  define x2 where "x2 = put_record r (put_nlh h x1)"
  define x3 where "x3 = put_record r (put_nlh h (snd (skipUnknownNlmsg h (offset + 16) (length (da_NLPacket a)) x1)))"
  have r: "clean r" "r = stamp d a ts n zero_record"
    using pools_ok_get_record [OF ok] by (simp_all add: r_def) (rule stamp_clean, simp)
  have x1: "view x1 = view x" "pools_ok x1"
    using pools_ok_get_record [OF ok] by (simp_all add: x1_def)
  then have x23: "view x2 = view x" "pools_ok x2" "view x3 = view x" "pools_ok x3"
    using r by (simp_all add: x2_def x3_def skipUnknownNlmsg_def Let_def)
  note round = msg_round_decode [OF len hit h x1_def r_def, folded l x2_def x3_def]
  consider "nlh_Type h = 3" | "nlh_Type h \<noteq> 3" "nlh_Type h \<noteq> 20" | "nlh_Type h = 20" by blast
  then show ?thesis
  proof cases
    case 1
    then show ?thesis using x23 round by (intro exI [of _ x2]) simp
  next
    case 2
    then show ?thesis using x23 round by (intro exI [of _ x3]) simp
  next
    case 3
    then show ?thesis using x1 round r(2) by (intro exI [of _ x1]) simp
  qed
qed

lemma refines_diag:
  assumes reg: "registry_ok (RTATypeDeserializer d)" and ok: "pools_ok x" and dec: "decoding d a n offset"
    and b: "b = drop offset (da_NLPacket a)" "h = nlmsghdr_of b" "nlh_Type h = 20" "88 \<le> length b"
    and x1: "view x1 = view x" "pools_ok x1"
    and round: "msg_round d a ts n offset x = do {
        (offset', x2) \<leftarrow> processInetDiagRecord d a (stamp d a ts n zero_record) h (offset + 16) x1;
        Some (Next offset' (None, put_nlh h x2)) }"
    and IH: "\<And>offset' e y. msg_round d a ts n offset x = Some (Next offset' (e, y)) \<Longrightarrow> pools_ok y \<Longrightarrow>
        refines d a ts (n + 1) offset' y"
  shows "refines d a ts n offset x"
proof -
  let ?pkt = "da_NLPacket a"
  define al where "al = min (unat (nlh_Len h) - 88) (length ?pkt - (offset + 16 + 72))"
  define r where "r = finish_record d (drop (offset + 16) ?pkt) (take al (drop (offset + 16 + 72) ?pkt))
      (stamp d a ts n zero_record)"
  have len: "offset + 16 + 72 \<le> length ?pkt" using b(1,4) by simp
  obtain x3 where p: "processInetDiagRecord d a (stamp d a ts n zero_record) h (offset + 16) x1
      = Some (offset + 16 + 72 + al, emit d r x3)" and x3: "base x3 = base x1"
    using processInetDiagRecord_ok [OF reg len al_def, of "stamp d a ts n zero_record" x1] r_def by auto
  have v3: "view x3 = view x" "pools_ok x3"
    using base_view [OF x3] base_pools_ok [OF x3] x1 by simp_all
  have e: "view (emit d r x3) = view (emit d r x)" "pools_ok (emit d r x3)"
    using emit_view [OF v3(2) ok v3(1), of d r] by simp_all
  have rd: "msg_round d a ts n offset x = Some (Next (offset + 16 + 72 + al) (None, put_nlh h (emit d r x3)))"
    using round p by simp
  have al: "al = min (unat (nlh_Len h) - 88) (length b - 88)" by (simp add: al_def b(1))
  have drops: "drop 16 b = drop (offset + 16) ?pkt" "drop 88 b = drop (offset + 16 + 72) ?pkt"
      "drop (88 + al) b = drop (offset + 16 + 72 + al) ?pkt"
    unfolding b(1) drop_drop by (rule arg_cong [where f = "\<lambda>k. drop k ?pkt"], simp)+
  have "packet_spec d a ts n b = ([r] @ fst (packet_spec d a ts (n + 1) (drop (offset + 16 + 72 + al) ?pkt)),
      snd (packet_spec d a ts (n + 1) (drop (offset + 16 + 72 + al) ?pkt)))"
    using decoding_spec [OF dec b(1,2) refl, of ts] b(3,4)
    unfolding al [symmetric] by (simp add: Let_def r_def drops)
  then show ?thesis
    using e ok IH [OF rd] b(1) by (intro refines_next [OF decoding_lt [OF dec] rd]) auto
qed

lemma refines_decode:
  assumes reg: "registry_ok (RTATypeDeserializer d)" and ok: "pools_ok x" and dec: "decoding d a n offset"
    and IH: "\<And>offset' e y. msg_round d a ts n offset x = Some (Next offset' (e, y)) \<Longrightarrow> pools_ok y \<Longrightarrow>
        refines d a ts (n + 1) offset' y"
  shows "refines d a ts n offset x"
proof -
  define b where "b = drop offset (da_NLPacket a)"
  define h where "h = nlmsghdr_of b"
  define l where "l = unat (nlh_Len h)"
  note lt = decoding_lt [OF dec] and spec = decoding_spec [OF dec b_def h_def l_def, of ts]
  obtain x1 where x1: "view x1 = view x" "pools_ok x1"
    and fin: "nlh_Type h = 3 \<longrightarrow> msg_round d a ts n offset x = Some (Stop (None, x1))"
    and other: "nlh_Type h \<noteq> 3 \<and> nlh_Type h \<noteq> 20 \<longrightarrow> msg_round d a ts n offset x =
           (if l < 16 \<or> length (da_NLPacket a) - offset < l then Some (Stop (None, x1))
            else Some (Next (offset + l) (None, x1)))"
    and diag: "nlh_Type h = 20 \<longrightarrow> msg_round d a ts n offset x = do {
           (offset', x2) \<leftarrow> processInetDiagRecord d a (stamp d a ts n zero_record) h (offset + 16) x1;
           Some (Next offset' (None, put_nlh h x2)) }"
    using decoding_round [OF dec ok h_def [unfolded b_def] l_def, of ts] by blast
  consider "nlh_Type h = 3" | "nlh_Type h \<noteq> 3" "nlh_Type h \<noteq> 20" "l < 16 \<or> length b < l"
    | "nlh_Type h \<noteq> 3" "nlh_Type h \<noteq> 20" "\<not> (l < 16 \<or> length b < l)"
    | "nlh_Type h = 20" "length b < 88" | "nlh_Type h = 20" "88 \<le> length b"
    by linarith
  then show ?thesis
  proof cases
    case 1
    then show ?thesis using fin spec x1 b_def by (intro refines_stop [OF lt]) auto
  next
    case 2
    then show ?thesis using other spec x1 b_def by (intro refines_stop [OF lt]) auto
  next
    case 3
    then have rd: "msg_round d a ts n offset x = Some (Next (offset + l) (None, x1))"
      using other by (simp add: b_def)
    show ?thesis
      using 3 spec x1 ok IH [OF rd]
      by (intro refines_next [OF lt rd, where rs = "[]"]) (simp_all add: b_def add.commute)
  next
    case 4
    let ?x2 = "put_nlh h (inc ''Deserialize'' ''truncatedInetDiagMsg'' ''error'' x1)"
    have rd: "msg_round d a ts n offset x = Some (Next (length (da_NLPacket a)) (None, ?x2))"
      using 4 diag lt by (simp add: b_def processInetDiagRecord_truncated)
    show ?thesis
      using 4 spec x1 ok IH [OF rd]
      by (intro refines_next [OF lt rd, where rs = "[]"]) (simp_all add: b_def packet_spec.simps [of _ _ _ _ "[]"])
  next
    case 5
    then show ?thesis using refines_diag [OF reg ok dec b_def h_def _ _ x1 _ IH] diag by simp
  qed
qed

lemma deserialize_loop_refines:
  assumes reg: "registry_ok (RTATypeDeserializer d)" and m: "cf_Modulus d \<noteq> 0"
  shows "pools_ok x \<Longrightarrow> refines d a ts n offset x"
  using assms
proof (induction d a ts n offset x rule: deserialize_loop.induct)
  case (1 d a ts n offset x)
  let ?pkt = "da_NLPacket a"
  consider (fin) "length ?pkt \<le> offset" | (trunc) "offset < length ?pkt" "length ?pkt - offset < 16"
    | (skip) "16 \<le> length ?pkt - offset" "cf_Modulus d \<noteq> 1" "n mod cf_Modulus d \<noteq> 1"
    | (dec) "decoding d a n offset"
    using 1 by (auto simp: decoding_def) linarith
  then show ?case
  proof cases
    case fin
    then show ?thesis
      using 1 by (simp add: refines_def deserialize_loop.simps packet_spec.simps [of _ _ _ _ "[]"])
  next
    case trunc
    then show ?thesis
      using 1 by (intro refines_stop [OF _ msg_round_truncated]) (auto simp: packet_spec.simps)
  next
    case skip
    then have lt: "offset < length ?pkt" by simp
    note rd = msg_round_sampled [OF skip(1) 1(4) skip(2,3), of ts x]
    have "refines d a ts (n + 1) offset (inc ''Deserialize'' ''continue'' ''count'' x)"
      using 1(1) [OF lt rd refl] 1(2-4) by simp
    then show ?thesis
      using 1 skip packet_spec_sampled [OF 1(4) skip(2,3)] by (intro refines_next [OF lt rd, where rs = "[]"]) auto
  next
    case dec
    show ?thesis
    proof (rule refines_decode [OF 1(3) 1(2) dec])
      fix offset' e y
      assume "msg_round d a ts n offset x = Some (Next offset' (e, y))" "pools_ok y"
      then show "refines d a ts (n + 1) offset' y"
        using 1(1) [OF decoding_lt [OF dec], of _ offset' "(e, y)"] 1(3,4) by simp
    qed
  qed
qed

end
