(* ===== verification/Decode_Frames.thy ===== *)
theory Decode_Frames
  imports Decode_Refinement
begin

text \<open>
  What each decoder of the dispatch table leaves alone: a decoder commutes with
  an update of a field it does not own and keeps that field's value.  The facts
  are instances of the decoder locales and of the TCP info parts.
\<close>

section \<open>Frames of the dispatched decoders\<close>

lemma ap_cong_commutes:
  assumes "\<And>c r. g (r\<lparr>InetDiagCongEnum := c\<rparr>) = (g r)\<lparr>InetDiagCongEnum := c\<rparr>"
  shows "fst (the (DeserializeCongInfoXTCP buf (g r))) = g (fst (the (DeserializeCongInfoXTCP buf r)))"
  by (cases "length buf < 4") (simp_all add: DeserializeCongInfoXTCP_def size_cst slice_simps assms)

lemma ap_cong_keeps:
  assumes "\<And>c r. h (r\<lparr>InetDiagCongEnum := c\<rparr>) = h r"
  shows "h (fst (the (DeserializeCongInfoXTCP buf r))) = h r"
  by (cases "length buf < 4") (simp_all add: DeserializeCongInfoXTCP_def size_cst slice_simps assms)

lemma ap_tcp_commutes:
  assumes "\<And>n t r. put_TCPInfo n t (g r) = g (put_TCPInfo n t r)"
  shows "fst (the (DeserializeTCPInfoXTCP buf (g r))) = g (fst (the (DeserializeTCPInfoXTCP buf r)))"
  using DeserializeTCPInfoXTCP_put [of buf] assms by auto

lemma ap_tcp_keeps:
  assumes "\<And>n t r. h (put_TCPInfo n t r) = h r"
  shows "h (fst (the (DeserializeTCPInfoXTCP buf r))) = h r"
  using DeserializeTCPInfoXTCP_put [of buf] assms by auto

lemmas ap_commutes = mi.dec_commutes vi.dec_commutes tos.dec_commutes tc.dec_commutes sm.dec_commutes
  sh.dec_commutes dc.dec_commutes bb.dec_commutes cl.dec_commutes cg.dec_commutes so.dec_commutes
  ap_cong_commutes ap_tcp_commutes

lemmas ap_keeps = mi.dec_keeps vi.dec_keeps tos.dec_keeps tc.dec_keeps sm.dec_keeps
  sh.dec_keeps dc.dec_keeps bb.dec_keeps cl.dec_keeps cg.dec_keeps so.dec_keeps
  ap_cong_keeps ap_tcp_keeps

text \<open>Every registered decoder is one of the table, whatever the configuration.\<close>

lemma registry_from_table:
  assumes "fold (\<lambda>e reg. if P e then reg(de_enum e \<mapsto> de_fn e) else reg) es reg ty = Some dec"
  shows "(\<exists>e \<in> set es. dec = de_fn e) \<or> reg ty = Some dec"
  using assms
proof (induction es arbitrary: reg)
  case (Cons e es)
  then show ?case by (fastforce split: if_splits)
qed simp

lemma InitDeserializers_table:
  "InitDeserializers cfg ty = Some dec \<Longrightarrow> \<exists>e \<in> set dispatchTable. dec = de_fn e"
  using registry_from_table [of _ dispatchTable "\<lambda>_. None" ty dec]
  by (fastforce simp: InitDeserializers_def split: option.splits)

lemma counter_frame:
  assumes "e \<in> set dispatchTable"
  shows "fst (the (de_fn e buf (RecordCounter_update f r))) = RecordCounter_update f (fst (the (de_fn e buf r)))"
proof -
  have tcp: "put_TCPInfo n t (RecordCounter_update f r) = RecordCounter_update f (put_TCPInfo n t r)" for n t r
    by (rule put_TCPInfo_commutes) (simp_all add: put_tcp_defs)
  show ?thesis
    using assms unfolding dispatchTable_def
    by (auto intro!: ap_commutes tcp simp: put_defs)
qed

lemma cong_string_frame:
  assumes "e \<in> set dispatchTable"
  shows "InetDiagCong (fst (the (de_fn e buf r))) = InetDiagCong r"
proof -
  have tcp: "InetDiagCong (put_TCPInfo n t r) = InetDiagCong r" for n t r
    by (rule put_TCPInfo_keeps) (simp_all add: put_tcp_defs)
  show ?thesis
    using assms unfolding dispatchTable_def
    by (auto intro!: ap_keeps tcp simp: put_defs)
qed

section \<open>Frames of a whole record\<close>

lemma apply_attr_counter:
  "apply_attr (InitDeserializers cfg) tb (RecordCounter_update f r)
     = RecordCounter_update f (apply_attr (InitDeserializers cfg) tb r)"
  by (auto simp: apply_attr_def split: option.split dest!: InitDeserializers_table intro: counter_frame)

lemma fold_attr_counter:
  "fold (apply_attr (InitDeserializers cfg)) tbs (RecordCounter_update f r)
     = RecordCounter_update f (fold (apply_attr (InitDeserializers cfg)) tbs r)"
  by (induction tbs arbitrary: r) (simp_all add: apply_attr_counter)

lemma apply_attr_cong_string:
  "InetDiagCong (apply_attr (InitDeserializers cfg) tb r) = InetDiagCong r"
  by (auto simp: apply_attr_def cong_string_frame split: option.split dest!: InitDeserializers_table)

lemma fold_attr_cong_string:
  "InetDiagCong (fold (apply_attr (InitDeserializers cfg)) tbs r) = InetDiagCong r"
  by (induction tbs arbitrary: r) (simp_all add: apply_attr_cong_string)

lemma enrich_container_frame:
  "enrich_container d (RecordCounter_update f r) = RecordCounter_update f (enrich_container d r)"
  "InetDiagCong (enrich_container d r) = InetDiagCong r"
proof -
  show "enrich_container d (RecordCounter_update f r) = RecordCounter_update f (enrich_container d r)"
  proof (cases "dockerIndex d")
    case (Some look)
    then show ?thesis by (cases "look (NetnsInode r)") (simp_all add: enrich_container_def Let_def)
  qed (simp add: enrich_container_def)
  show "InetDiagCong (enrich_container d r) = InetDiagCong r"
    by (simp add: enrich_container_def Let_def split: option.split)
qed

lemma enrich_nsid_frame:
  "enrich_nsid d (RecordCounter_update f r) = RecordCounter_update f (enrich_nsid d r)"
  "InetDiagCong (enrich_nsid d r) = InetDiagCong r"
  by (simp_all add: enrich_nsid_def split: option.split)

lemma uplinkStamp_apply_frame:
  "uplinkStamp_apply s (RecordCounter_update f r) = RecordCounter_update f (uplinkStamp_apply s r)"
  "InetDiagCong (uplinkStamp_apply s r) = InetDiagCong r"
  by (simp_all add: uplinkStamp_apply_def Let_def)

definition place :: "localityResult option \<Rightarrow> XtcpFlatRecord \<Rightarrow> XtcpFlatRecord" where
  "place res = (case res of None \<Rightarrow> (\<lambda>r. r) | Some res \<Rightarrow> stamp_locality res)"

definition own :: "(u32 \<times> string) option \<Rightarrow> XtcpFlatRecord \<Rightarrow> XtcpFlatRecord" where
  "own o' = (case o' of None \<Rightarrow> (\<lambda>r. r) | Some (a, owner) \<Rightarrow> stamp_asn a owner)"

lemma place_frame:
  "place res (RecordCounter_update f r) = RecordCounter_update f (place res r)"
  "InetDiagCong (place res r) = InetDiagCong r"
  by (simp_all add: place_def stamp_locality_def split: option.split)

lemma own_frame:
  "own res (RecordCounter_update f r) = RecordCounter_update f (own res r)"
  "InetDiagCong (own res r) = InetDiagCong r"
  by (simp_all add: own_def stamp_asn_def split: option.split prod.split)

definition dest_place :: "Daemon \<Rightarrow> XtcpFlatRecord \<Rightarrow> localityResult option" where
  "dest_place d r =
     (case destAddr (InetDiagMsgFamily r) (InetDiagMsgSocketDestination r) of
        None \<Rightarrow> None
      | Some addr \<Rightarrow> (case locality d of
            None \<Rightarrow> None
          | Some Resolve \<Rightarrow> Resolve (NetnsInode r) addr (InetDiagMsgSocketInterface r)))"

definition dest_own :: "Daemon \<Rightarrow> XtcpFlatRecord \<Rightarrow> (u32 \<times> string) option" where
  "dest_own d r =
     (case destAddr (InetDiagMsgFamily r) (InetDiagMsgSocketDestination r) of
        None \<Rightarrow> None
      | Some addr \<Rightarrow>
          if (case dest_place d r of None \<Rightarrow> True | Some res \<Rightarrow> lr_Remote res)
          then (case asn d of None \<Rightarrow> None | Some LookupAsn \<Rightarrow> LookupAsn addr) else None)"

lemma enrich_destination_parts: "enrich_destination d r = own (dest_own d r) (place (dest_place d r) r)"
proof (cases "destAddr (InetDiagMsgFamily r) (InetDiagMsgSocketDestination r)")
  case None
  then show ?thesis by (simp add: enrich_destination_def own_def place_def dest_own_def dest_place_def)
next
  case (Some addr)
  note d = Some enrich_destination_def dest_own_def
  show ?thesis
  proof (cases "dest_place d r")
    case None
    with Some have "locality d = None \<or>
      (\<exists>R. locality d = Some R \<and> R (NetnsInode r) addr (InetDiagMsgSocketInterface r) = None)"
      by (auto simp: dest_place_def split: option.splits)
    with None show ?thesis by (auto simp: d own_def place_def split: option.split)
  next
    case Loc: (Some res)
    with Some obtain R where "locality d = Some R" "R (NetnsInode r) addr (InetDiagMsgSocketInterface r) = Some res"
      by (auto simp: dest_place_def split: option.splits)
    with Loc show ?thesis by (cases "asn d") (simp_all add: d own_def place_def split: option.split)
  qed
qed

lemma dest_counter:
  "dest_place d (RecordCounter_update f r) = dest_place d r"
  "dest_own d (RecordCounter_update f r) = dest_own d r"
  by (simp_all add: dest_place_def dest_own_def cong: option.case_cong)

lemma enrich_destination_frame:
  "enrich_destination d (RecordCounter_update f r) = RecordCounter_update f (enrich_destination d r)"
  "InetDiagCong (enrich_destination d r) = InetDiagCong r"
  by (simp_all add: enrich_destination_parts dest_counter own_frame place_frame)

lemma cgroup_fallback_frame:
  "cgroup_fallback d (RecordCounter_update f r) = RecordCounter_update f (cgroup_fallback d r)"
  "InetDiagCong (cgroup_fallback d r) = InetDiagCong r"
  by (simp_all add: cgroup_fallback_def split: option.split prod.split)

lemma put_InetDiagMsg_frame:
  "put_InetDiagMsg m (RecordCounter_update f r) = RecordCounter_update f (put_InetDiagMsg m r)"
  "InetDiagCong (put_InetDiagMsg m r) = InetDiagCong r"
  by (simp_all add: put_InetDiagMsg_def)

lemmas record_frames = enrich_container_frame enrich_nsid_frame uplinkStamp_apply_frame enrich_destination_frame
  cgroup_fallback_frame put_InetDiagMsg_frame

text \<open>A daemon as \<open>Init\<close> leaves it: the dispatch map comes from the configuration.\<close>

definition initialised :: "(string \<rightharpoonup> bool) option \<Rightarrow> Daemon \<Rightarrow> Daemon" where
  "initialised cfg d = d\<lparr>RTATypeDeserializer := InitDeserializers cfg\<rparr>"

lemma initialised_registry [simp]: "RTATypeDeserializer (initialised cfg d) = InitDeserializers cfg"
  by (simp add: initialised_def)

lemma finish_record_counter:
  "finish_record (initialised cfg d) body attrs (RecordCounter_update f r)
     = RecordCounter_update f (finish_record (initialised cfg d) body attrs r)"
  by (simp add: finish_record_def applyEnrichment_def record_frames fold_attr_counter)

lemma finish_record_cong_string:
  "InetDiagCong (finish_record (initialised cfg d) body attrs r) = InetDiagCong r"
  by (simp add: finish_record_def applyEnrichment_def record_frames fold_attr_cong_string)

lemma modulus_keeps:
  "dockerIndex (d\<lparr>cf_Modulus := m\<rparr>) = dockerIndex d" "nsidByInode (d\<lparr>cf_Modulus := m\<rparr>) = nsidByInode d"
  "locality (d\<lparr>cf_Modulus := m\<rparr>) = locality d" "asn (d\<lparr>cf_Modulus := m\<rparr>) = asn d"
  "cgroupResolver (d\<lparr>cf_Modulus := m\<rparr>) = cgroupResolver d"
  by simp_all

lemma enrich_modulus:
  "enrich_container (d\<lparr>cf_Modulus := m\<rparr>) = enrich_container d"
  "enrich_nsid (d\<lparr>cf_Modulus := m\<rparr>) = enrich_nsid d"
  "enrich_destination (d\<lparr>cf_Modulus := m\<rparr>) = enrich_destination d"
  "cgroup_fallback (d\<lparr>cf_Modulus := m\<rparr>) = cgroup_fallback d"
  by (simp_all only: fun_eq_iff enrich_container_def enrich_nsid_def enrich_destination_def cgroup_fallback_def
      modulus_keeps simp_thms)

lemma finish_record_modulus: "finish_record (d\<lparr>cf_Modulus := m\<rparr>) = finish_record d"
  by (simp add: fun_eq_iff finish_record_def applyEnrichment_def enrich_modulus)

lemma stamp_modulus: "stamp (d\<lparr>cf_Modulus := m\<rparr>) = stamp d"
  by (simp add: fun_eq_iff stamp_def)

definition uncounted :: "XtcpFlatRecord \<Rightarrow> XtcpFlatRecord" where
  "uncounted r = r\<lparr>RecordCounter := 0\<rparr>"

lemma uncounted_finish:
  "uncounted (finish_record (initialised cfg d) body attrs (stamp d' a ts n r))
     = uncounted (finish_record (initialised cfg d) body attrs (stamp d' a ts n' r))"
proof -
  have "uncounted (stamp d' a ts n r) = uncounted (stamp d' a ts n' r)" by (simp add: uncounted_def stamp_def)
  then show ?thesis by (metis finish_record_counter uncounted_def)
qed

lemma packet_spec_modulus:
  assumes "d' = (initialised cfg d)\<lparr>cf_Modulus := m\<rparr>"
  shows "map uncounted (fst (packet_spec (initialised cfg d) a ts n b)) = map uncounted (fst (packet_spec d' a ts n' b))
    \<and> snd (packet_spec (initialised cfg d) a ts n b) = snd (packet_spec d' a ts n' b)"
proof (induction "length b" arbitrary: b n n' rule: less_induct)
  case less
  let ?h = "nlmsghdr_of b" let ?al = "min (unat (nlh_Len ?h) - 88) (length b - 88)"
  have same: "finish_record d' = finish_record (initialised cfg d)" "stamp d' = stamp (initialised cfg d)"
    using assms by (simp_all add: finish_record_modulus stamp_modulus)
  note unfold = packet_spec.simps [of "initialised cfg d" a ts n b] packet_spec.simps [of d' a ts n' b]
  consider "length b < 16" | "16 \<le> length b" "nlh_Type ?h = 3" | "16 \<le> length b" "nlh_Type ?h \<noteq> 3" "nlh_Type ?h \<noteq> 20"
    | "16 \<le> length b" "nlh_Type ?h = 20" by fastforce
  then show ?case
  proof cases
    case 3
    then show ?thesis
      using less [of "drop (unat (nlh_Len ?h)) b" "hit (cf_Modulus (initialised cfg d)) n + 1" "hit (cf_Modulus d') n' + 1"]
      by (auto simp: unfold Let_def)
  next
    case 4
    then show ?thesis
      using less [of "drop (88 + ?al) b" "hit (cf_Modulus (initialised cfg d)) n + 1" "hit (cf_Modulus d') n' + 1"]
      by (auto simp: unfold Let_def same intro!: uncounted_finish)
  qed (simp_all add: unfold)
qed

end
