(* ===== verification/Decode_Properties.thy ===== *)
theory Decode_Properties
  imports Decode_Frames
begin

text \<open>
  What a packet of socket records turns into, end to end.  Every record the
  receive loop emits for a packet is the one the packet specification lists; the
  configured sampling modulus, the congestion string, the requested extension
  bits and the panics of the loop are characterised on top of that.
\<close>

section \<open>Panics\<close>

lemma processInetDiagRecord_total:
  assumes "registry_ok (RTATypeDeserializer d)"
  shows "processInetDiagRecord d a r h offset x \<noteq> None"
proof (cases "length (da_NLPacket a) < offset + 72")
  case True
  then show ?thesis by (simp add: processInetDiagRecord_truncated)
next
  case False
  then have "offset + 72 \<le> length (da_NLPacket a)" by simp
  from processInetDiagRecord_ok [OF assms this refl, of r h x] show ?thesis by auto
qed

lemma msg_round_total:
  assumes "registry_ok (RTATypeDeserializer d)" "cf_Modulus d \<noteq> 0"
  shows "msg_round d a ts n offset x \<noteq> None"
proof -
  consider "length (da_NLPacket a) - offset < 16"
    | "16 \<le> length (da_NLPacket a) - offset" "cf_Modulus d \<noteq> 1" "n mod cf_Modulus d \<noteq> 1"
    | "16 \<le> length (da_NLPacket a) - offset" "cf_Modulus d = 1 \<or> n mod cf_Modulus d = 1" by linarith
  then show ?thesis
  proof cases
    case 3
    show ?thesis
      using processInetDiagRecord_total [OF assms(1)]
      by (simp add: msg_round_decode [OF 3(1) assms(2) 3(2) refl refl refl] Let_def bind_eq_None_conv split_beta
          del: not_None_eq)
  qed (use assms in \<open>simp_all add: msg_round_truncated msg_round_sampled\<close>)
qed

lemma deserialize_loop_total:
  "registry_ok (RTATypeDeserializer d) \<Longrightarrow> cf_Modulus d \<noteq> 0 \<Longrightarrow> deserialize_loop d a ts n offset x \<noteq> None"
proof (induction d a ts n offset x rule: deserialize_loop.induct)
  case (1 d a ts n offset x)
  show ?case
    using msg_round_total [OF 1(2,3), of a ts n offset x] 1
    by (subst deserialize_loop.simps) (auto split: progress.split)
qed

lemma registry_initialised [simp]: "registry_ok (InitDeserializers cfg)"
  by (rule InitDeserializers_ok)

lemma modulus_initialised [simp]: "cf_Modulus (initialised cfg d) = cf_Modulus d"
  by (simp add: initialised_def)

section \<open>The dispatch table as a map\<close>

lemma find_absent: "x \<notin> set (map f es) \<Longrightarrow> find (\<lambda>e. f e = x \<and> P e) es = None"
  by (induction es) auto

lemma fold_registry:
  "distinct (map de_enum es) \<Longrightarrow>
     fold (\<lambda>e reg. if P e then reg(de_enum e \<mapsto> de_fn e) else reg) es reg ty
       = (case find (\<lambda>e. de_enum e = ty \<and> P e) es of Some e \<Rightarrow> Some (de_fn e) | None \<Rightarrow> reg ty)"
proof (induction es arbitrary: reg)
  case (Cons e es)
  then show ?case using find_absent [of ty de_enum es P] by (auto split: option.split)
qed simp

lemma bit_fold_mask:
  "k < 8 \<Longrightarrow> bit (fold (\<lambda>e ext. if P e then ext OR push_bit (f e) 1 else ext) es (w :: u8)) k
     \<longleftrightarrow> bit w k \<or> (\<exists>e\<in>set es. P e \<and> f e = k)"
  by (induction es arbitrary: w) (auto simp: bit_simps)

lemmas enum_cst = MemInfoEmumValueCst_def TCPInfoEmumValueCst_def VegasInfoEnumValueCst_def CongInfoEmumValueCst_def
  TypeOfServiceEmumValueCst_def TrafficClassEmumValueCst_def SkMemInfoEnumValueCst_def ShutdownEmumValueCst_def
  DCTCPInfoEnumValueCst_def BBRInfoEnumValueCst_def ClassIDEnumValueCst_def CGroupIDEnumValueCst_def
  SockOptEnumValueCst_def

lemma dispatch_distinct: "distinct (map de_enum dispatchTable)"
  by (simp add: dispatchTable_def enum_cst)

section \<open>Properties\<close>

text \<open>C2: decoding a packet refines the packet specification. For every configuration of
  deserializers, every packet and every daemon state whose pools hold only reset structs,
  the decode loop returns without a panic, reports the error the specification gives,
  hands exactly the specified records on (streamed, appended to the envelope, flushed at
  a cap), and leaves only reset structs in the pools: nothing of an earlier record leaks.\<close>

theorem deserialize_refines:
  assumes "cf_Modulus d \<noteq> 0" "pools_ok x"
    and "spec = packet_spec (initialised cfg d) a (case pollTime x (da_fd a) of Some t \<Rightarrow> t | None \<Rightarrow> now) 0 (da_NLPacket a)"
  shows "\<exists>n x'. Deserialize (initialised cfg d) a now x = Some (n, snd spec, x')
    \<and> view x' = view (fold (emit (initialised cfg d)) (fst spec) x) \<and> pools_ok x'"
proof -
  let ?d = "initialised cfg d"
  let ?y = "inc ''Deserialize'' ''start'' ''count'' x"
  let ?z = "case pollTime x (da_fd a) of Some t \<Rightarrow> ?y | None \<Rightarrow> inc ''Deserialize'' ''pollTime'' ''error'' ?y"
  let ?ts = "case pollTime x (da_fd a) of Some t \<Rightarrow> t | None \<Rightarrow> now"
  have z: "pools_ok ?z" "view ?z = view x" using assms(2) by (simp_all split: option.split)
  have "Deserialize ?d a now x = deserialize_loop ?d a ?ts 0 0 ?z"
    by (simp add: Deserialize_def inc_def split: option.split)
  moreover have "refines ?d a ?ts 0 0 ?z"
    using deserialize_loop_refines [of ?d ?z a ?ts 0 0] z(1) assms(1) by simp
  moreover have "view (fold (emit ?d) rs ?z) = view (fold (emit ?d) rs x)" for rs
    using emit_fold_view [OF z(1) assms(2) z(2)] by blast
  ultimately show ?thesis unfolding refines_def assms(3) drop_0 by metis
qed

text \<open>A packet with one message of another type, then the end of the dump.\<close>

definition wit_args :: DeserializeArgs where
  "wit_args = \<lparr>da_ns = ''n'', da_fd = 3, da_inode = 7,
     da_NLPacket = [20, 0, 0, 0, 18, 0, 0, 0, 0, 0, 0, 0, 0, 0, 0, 0, 1, 2, 3, 4]
       @ [16, 0, 0, 0, 3, 0, 0, 0, 0, 0, 0, 0, 0, 0, 0, 0], da_id = 1\<rparr>"

lemma wit_args_spec: "cf_Modulus d = 1 \<Longrightarrow> packet_spec d wit_args ts n (da_NLPacket wit_args) = ([], None)"
  by (simp add: wit_args_def packet_spec.simps hit.simps nlmsghdr_of_def)

theorem deserialize_refines_witness:
  "\<exists>n x'. Deserialize (initialised None wit_daemon) wit_args 9 wit_xtcp = Some (n, None, x') \<and> pools_ok x'"
proof -
  have "cf_Modulus wit_daemon = 1" "pools_ok wit_xtcp" by (simp_all add: wit_daemon_def wit_xtcp_def pools_ok_def)
  then show ?thesis
    using deserialize_refines [of wit_daemon wit_xtcp _ None wit_args 9, OF _ _ refl] by (auto simp: wit_args_spec)
qed

text \<open>C12: the decode loop panics on no packet, whatever the kernel sends, except when the
  configured modulus is zero: then the first complete message header divides by zero.
  In every other case the loop returns.\<close>

theorem deserialize_panics_iff:
  "Deserialize (initialised cfg d) a now x = None \<longleftrightarrow> cf_Modulus d = 0 \<and> 16 \<le> length (da_NLPacket a)"
proof -
  have "deserialize_loop (initialised cfg d) a ts 0 0 y = None \<longleftrightarrow> cf_Modulus d = 0 \<and> 16 \<le> length (da_NLPacket a)"
    for ts y
  proof (cases "cf_Modulus d = 0")
    case True
    then show ?thesis
      by (cases "16 \<le> length (da_NLPacket a)")
        (auto simp: deserialize_loop.simps msg_round_truncated msg_round_def NlMsgHdrSizeCst_def)
  qed (use deserialize_loop_total [of "initialised cfg d"] in simp)
  then show ?thesis by (simp add: Deserialize_def Let_def split_beta)
qed


text \<open>C27: the congestion algorithm's name never reaches a record. Whatever the packet and the
  configuration, every record of it has the empty congestion string; only the enum is set.\<close>

theorem congestion_string_never_set:
  "map InetDiagCong (fst (packet_spec (initialised cfg d) a ts n pkt))
     = replicate (length (fst (packet_spec (initialised cfg d) a ts n pkt))) []"
proof (induction "length pkt" arbitrary: pkt n rule: less_induct)
  case less
  have "InetDiagCong (stamp d' a ts k zero_record) = []" for d' k by (simp add: stamp_def zero_record_def)
  then show ?case
    using less by (simp add: packet_spec.simps [of _ _ _ _ pkt] Let_def finish_record_cong_string)
qed

text \<open>The extension mask asks the kernel for exactly what the configured deserializers
  read. For every bit of the mask, it is set if and only if some enabled entry of the
  dispatch table decodes the attribute of that bit, where DCTCP and BBR ride on the
  congestion bit of Vegas.\<close>

theorem idiag_ext_bits:
  "map (bit (IDiagExtFromEnabled m)) [0..<8]
     = map (\<lambda>k. list_ex (\<lambda>e. enabled_key m (de_key e)
         \<and> (de_enum e = k + 1 \<or> k = 2 \<and> de_key e \<in> {''dctcp'', ''bbr''})) dispatchTable) [0..<8]"
proof -
  have "bit (IDiagExtFromEnabled m) k = list_ex (\<lambda>e. enabled_key m (de_key e)
         \<and> (de_enum e = k + 1 \<or> k = 2 \<and> de_key e \<in> {''dctcp'', ''bbr''})) dispatchTable" if "k < 8" for k
  proof -
    from that have k: "k \<in> {0, 1, 2, 3, 4, 5, 6, 7}" by auto
    have ext: "bit (IDiagExtFromEnabled m) k \<longleftrightarrow>
        (\<exists>e\<in>set dispatchTable. (1 \<le> de_enum e \<and> de_enum e \<le> 8 \<and> enabled_key m (de_key e)) \<and> de_enum e - 1 = k)
        \<or> k = 2 \<and> (enabled_key m ''vegas'' \<or> enabled_key m ''dctcp'' \<or> enabled_key m ''bbr'')"
    proof -
      have vegas: "bit (w OR 2 ^ (unat VegasInfoEnumValueCst - 1)) k \<longleftrightarrow> bit w k \<or> k = 2" for w :: u8
        using k by (auto simp: VegasInfoEnumValueCst_def bit_or_iff)
      show ?thesis
        by (auto simp: IDiagExtFromEnabled_def Let_def vegas bit_fold_mask [OF that] simp del: One_nat_def)
    qed
    from k show ?thesis unfolding ext by (elim insertE emptyE) (simp_all add: dispatchTable_def enum_cst disj_ac)
  qed
  then show ?thesis by simp
qed

text \<open>The registry holds exactly the enabled entries of the dispatch table: an attribute
  type is decoded if and only if an enabled entry has it, and by that entry's decoder.\<close>

theorem registry_exact:
  "InitDeserializers (Some m) ty
     = map_option de_fn (find (\<lambda>e. de_enum e = ty \<and> enabled_key m (de_key e)) dispatchTable)"
  by (simp add: InitDeserializers_def fold_registry [OF dispatch_distinct] split: option.split)

text \<open>The length guard of an attribute header fires only for a declared length of zero.
  The lengths one to three, which cannot hold the header either, give an empty body.\<close>

theorem attr_len_guard:
  "(attrBodyLen rta < 0 \<longleftrightarrow> rta_Len rta = 0) \<and> (attrBodyLen rta = 0 \<longleftrightarrow> rta_Len rta \<in> {1, 2, 3, 4})"
proof -
  obtain l where l: "unat (rta_Len rta) = l" by blast
  have eq: "rta_Len rta = w \<longleftrightarrow> l = unat w" for w by (auto simp: word_unat_eq_iff l)
  have "int l - 4 + (- int l) mod 4 < 0 \<longleftrightarrow> l = 0" "int l - 4 + (- int l) mod 4 = 0 \<longleftrightarrow> l \<in> {1, 2, 3, 4}"
    by auto presburger+
  then show ?thesis unfolding attrBodyLen_def l FourByteAlignPadding_mod by (simp add: eq RTAttrSizeCst_def)
qed

end
