(* ===== verification/Rtattr.thy ===== *)
theory Rtattr
  imports Netlink_Header
begin

text \<open>
  The attribute stream of a netlink message (\<open>pkg/xtcpnl\<close>): the encoder of
  \<open>xtcpnl_rtattr_encode.go\<close>, which appends attributes to a fixed buffer, the
  walker of \<open>xtcpnl_rtnetlink.go\<close>, the duplicate rule of
  \<open>xtcpnl_rtattr_firstwins.go\<close> and the extended acknowledgement of
  \<open>xtcpnl_nlmsgerr.go\<close>. A callback is a function on the state it closes over.
\<close>

section \<open>The encoder\<close>

record AttrBuilder =
  ab_buf :: bytes
  ab_n :: nat

definition NewAttrBuilder :: "bytes \<Rightarrow> AttrBuilder" where
  "NewAttrBuilder buf = \<lparr>ab_buf = buf, ab_n = 0\<rparr>"

definition Len :: "AttrBuilder \<Rightarrow> nat" where
  "Len a = ab_n a"

definition Bytes :: "AttrBuilder \<Rightarrow> bytes option" where
  "Bytes a = go_slice (ab_buf a) 0 (ab_n a)"

definition Reset :: "AttrBuilder \<Rightarrow> AttrBuilder" where
  "Reset a = a\<lparr>ab_n := 0\<rparr>"

definition RtaMaxPayloadCst :: int where
  "RtaMaxPayloadCst = 65535 - int RTAttrSizeCst"

text \<open>\<open>reserve\<close> returns the payload region as its offset and length in the buffer.\<close>

definition reserve ::
    "u16 \<Rightarrow> int \<Rightarrow> AttrBuilder \<Rightarrow> ((nl_error + nat \<times> nat) \<times> AttrBuilder) option" where
  "reserve atype payloadLen a =
     (if payloadLen < 0 \<or> payloadLen > RtaMaxPayloadCst then Some (Inl ErrAttrTooLong, a)
      else
        let alen = int RTAttrSizeCst + payloadLen;
            adv = alen + FourByteAlignPadding alen in
        if adv > int (length (ab_buf a)) - int (ab_n a) then Some (Inl ErrAttrNoSpace, a)
        else do {
          b \<leftarrow> go_slice (ab_buf a) (ab_n a) (ab_n a + nat adv);
          b \<leftarrow> go_put b 0 (le_bytes 2 (word_of_int alen :: u16));
          b \<leftarrow> go_put b 2 (le_bytes 2 atype);
          b \<leftarrow> go_put b RTAttrSizeCst (replicate (nat adv - RTAttrSizeCst) 0);
          buf \<leftarrow> go_put (ab_buf a) (ab_n a) b;
          Some (Inr (ab_n a + RTAttrSizeCst, nat payloadLen), \<lparr>ab_buf = buf, ab_n = ab_n a + nat adv\<rparr>) })"

text \<open>Filling the reserved region: \<open>copy\<close> and \<open>PutUint32\<close> write the value at its start.\<close>

definition fill :: "u16 \<Rightarrow> int \<Rightarrow> bytes \<Rightarrow> AttrBuilder \<Rightarrow> (nl_error option \<times> AttrBuilder) option" where
  "fill atype l v a = do {
     (res, a) \<leftarrow> reserve atype l a;
     case res of
       Inl err \<Rightarrow> Some (Some err, a)
     | Inr (off, k) \<Rightarrow> do {
         buf \<leftarrow> go_put (ab_buf a) off (take k v);
         Some (None, a\<lparr>ab_buf := buf\<rparr>) } }"

definition PutBytes :: "u16 \<Rightarrow> bytes \<Rightarrow> AttrBuilder \<Rightarrow> (nl_error option \<times> AttrBuilder) option" where
  "PutBytes atype v = fill atype (int (length v)) v"

definition PutU8 :: "u16 \<Rightarrow> u8 \<Rightarrow> AttrBuilder \<Rightarrow> (nl_error option \<times> AttrBuilder) option" where
  "PutU8 atype v = PutBytes atype [v]"

definition PutU16 :: "u16 \<Rightarrow> u16 \<Rightarrow> AttrBuilder \<Rightarrow> (nl_error option \<times> AttrBuilder) option" where
  "PutU16 atype v = fill atype 2 (le_bytes 2 v)"

definition PutU32 :: "u16 \<Rightarrow> u32 \<Rightarrow> AttrBuilder \<Rightarrow> (nl_error option \<times> AttrBuilder) option" where
  "PutU32 atype v = fill atype 4 (le_bytes 4 v)"

text \<open>\<open>int32\<close> values are the same words.\<close>

definition PutS32 :: "u16 \<Rightarrow> u32 \<Rightarrow> AttrBuilder \<Rightarrow> (nl_error option \<times> AttrBuilder) option" where
  "PutS32 atype v = PutU32 atype v"

definition PutString :: "u16 \<Rightarrow> bytes \<Rightarrow> AttrBuilder \<Rightarrow> (nl_error option \<times> AttrBuilder) option" where
  "PutString atype s = fill atype (int (length s) + 1) s"

definition BeginNest :: "u16 \<Rightarrow> AttrBuilder \<Rightarrow> ((nl_error + int) \<times> AttrBuilder) option" where
  "BeginNest atype a = do {
     (res, a') \<leftarrow> reserve atype 0 a;
     Some (case res of Inl err \<Rightarrow> Inl err | Inr _ \<Rightarrow> Inr (int (ab_n a)), a') }"

definition EndNest :: "int \<Rightarrow> AttrBuilder \<Rightarrow> (nl_error option \<times> AttrBuilder) option" where
  "EndNest off a =
     (if off < 0 \<or> off + int RTAttrSizeCst > int (ab_n a) then Some (Some ErrNestNotOpen, a)
      else
        let l = int (ab_n a) - off in
        if l > 65535 then Some (Some ErrAttrTooLong, a\<lparr>ab_n := nat off\<rparr>)
        else do {
          buf \<leftarrow> go_put (ab_buf a) (nat off) (le_bytes 2 (word_of_int l :: u16));
          Some (None, a\<lparr>ab_buf := buf\<rparr>) })"

section \<open>The walker\<close>

definition NlaTypeMaskCst :: u16 where
  "NlaTypeMaskCst = NOT (0x8000 OR 0x4000)"

definition zero_rtattr :: RTAttr where
  "zero_rtattr = \<lparr>rta_Len = 0, rta_Type = 0\<rparr>"

function WalkRTAttrs :: "bytes \<Rightarrow> (u16 \<Rightarrow> bytes \<Rightarrow> 's \<Rightarrow> 's) \<Rightarrow> 's \<Rightarrow> (nl_error option \<times> 's) option" where
  "WalkRTAttrs data fn s =
     (if length data < RTAttrSizeCst then Some (None, s)
      else do {
        (rta, res) \<leftarrow> DeserializeRTAttr data zero_rtattr;
        case res of
          Inl err \<Rightarrow> Some (Some err, s)
        | Inr _ \<Rightarrow>
            let alen = unat (rta_Len rta) in
            if alen < RTAttrSizeCst \<or> alen > length data then Some (Some ErrRTAttrSmall, s)
            else do {
              val \<leftarrow> go_slice data RTAttrSizeCst alen;
              let s = fn (rta_Type rta AND NlaTypeMaskCst) val s;
              let adv = int alen + FourByteAlignPadding (int alen);
              if adv \<le> 0 \<or> adv > int (length data) then Some (None, s)
              else do {
                data' \<leftarrow> go_slice_from data (nat adv);
                WalkRTAttrs data' fn s } } })"
  by pat_completeness auto
termination
  by (relation "measure (\<lambda>(data, fn, s). length data)")
    (auto simp: go_slice_from_def go_slice_def RTAttrSizeCst_def split: if_splits)

declare WalkRTAttrs.simps [simp del]

definition WalkRTAttrsNested :: "bytes \<Rightarrow> (u16 \<Rightarrow> bytes \<Rightarrow> 's \<Rightarrow> 's) \<Rightarrow> 's \<Rightarrow> (nl_error option \<times> 's) option" where
  "WalkRTAttrsNested = WalkRTAttrs"

section \<open>Duplicate attributes\<close>

definition attrSeen_first :: "u16 \<Rightarrow> u64 \<Rightarrow> bool \<times> u64" where
  "attrSeen_first atype s =
     (if 64 \<le> atype then (True, s)
      else let b = push_bit (unat atype) 1 in
        if s AND b \<noteq> 0 then (False, s) else (True, s OR b))"

text \<open>How a parser uses it: a value is assigned only on the first sight of its type.\<close>

fun assign_first :: "u16 \<times> 'v \<Rightarrow> u64 \<times> (u16 \<rightharpoonup> 'v) \<Rightarrow> u64 \<times> (u16 \<rightharpoonup> 'v)" where
  "assign_first (t, v) (seen, m) =
     (case attrSeen_first t seen of (f, seen) \<Rightarrow> (seen, if f then m(t \<mapsto> v) else m))"

section \<open>The extended acknowledgement\<close>

record NlMsgErr =
  ne_Errno :: u32
  ne_RequestType :: u16
  ne_RequestFlags :: u16
  ne_RequestSeq :: u32
  ne_Capped :: bool
  ne_Msg :: bytes
  ne_HasMsg :: bool
  ne_Offset :: u32
  ne_HasOffset :: bool

definition nlMsgErrFixedCst :: nat where
  "nlMsgErrFixedCst = 4 + NlMsgHdrSizeCst"

text \<open>\<open>strings.TrimRight(s, "\x00")\<close>.\<close>

definition trim_nul :: "bytes \<Rightarrow> bytes" where
  "trim_nul v = rev (dropWhile (\<lambda>b. b = 0) (rev v))"

text \<open>A read inside the callback cannot fail: its length is checked first.\<close>

definition nlmsgerr_attr :: "u16 \<Rightarrow> bytes \<Rightarrow> NlMsgErr \<Rightarrow> NlMsgErr" where
  "nlmsgerr_attr atype val e =
     (if atype = 1 then e\<lparr>ne_Msg := trim_nul val, ne_HasMsg := True\<rparr>
      else if atype = 2 then
        (if 4 \<le> length val then e\<lparr>ne_Offset := le_word (take 4 val), ne_HasOffset := True\<rparr> else e)
      else e)"

definition ParseNlMsgErr :: "u16 \<Rightarrow> bytes \<Rightarrow> (nl_error + NlMsgErr) option" where
  "ParseNlMsgErr flags body =
     (if length body < nlMsgErrFixedCst then Some (Inl ErrNlMsgErrShort)
      else do {
        errno \<leftarrow> LE_Uint32 body 0 4;
        ty \<leftarrow> LE_Uint16 body 8 10;
        fl \<leftarrow> LE_Uint16 body 10 12;
        sq \<leftarrow> LE_Uint32 body 12 16;
        let e = \<lparr>ne_Errno = errno, ne_RequestType = ty, ne_RequestFlags = fl, ne_RequestSeq = sq,
                 ne_Capped = (flags AND 0x100 \<noteq> 0), ne_Msg = [], ne_HasMsg = False, ne_Offset = 0,
                 ne_HasOffset = False\<rparr>;
        rest \<leftarrow> go_slice_from body nlMsgErrFixedCst;
        r \<leftarrow> (if ne_Capped e then Some (Inr rest)
              else do {
                reqLen \<leftarrow> LE_Uint32 body 4 8;
                if int (unat reqLen) < int NlMsgHdrSizeCst then Some (Inl ErrNlMsgErrShort)
                else
                  let echoed = nlmsgAlign (int (unat reqLen) - int NlMsgHdrSizeCst) in
                  if echoed > int (length rest) then Some (Inl ErrNlMsgErrShort)
                  else do { rest \<leftarrow> go_slice_from rest (nat echoed); Some (Inr rest) } });
        case r of
          Inl err \<Rightarrow> Some (Inl err)
        | Inr rest \<Rightarrow>
            if flags AND 0x200 = 0 then Some (Inr e)
            else do {
              (werr, e) \<leftarrow> WalkRTAttrs rest nlmsgerr_attr e;
              Some (case werr of Some err \<Rightarrow> Inl err | None \<Rightarrow> Inr e) } })"

section \<open>Wire form of an attribute\<close>

text \<open>What one attribute looks like on the wire, and what appending bytes to a builder does.\<close>

definition enc_attr :: "u16 \<Rightarrow> bytes \<Rightarrow> bytes" where
  "enc_attr t v = le_bytes 2 (of_nat (4 + length v) :: u16) @ le_bytes 2 t @ v @ replicate (pad4 (4 + length v)) 0"

definition ab_append :: "bytes \<Rightarrow> AttrBuilder \<Rightarrow> AttrBuilder" where
  "ab_append bs a = \<lparr>ab_buf = take (ab_n a) (ab_buf a) @ bs @ drop (ab_n a + length bs) (ab_buf a),
     ab_n = ab_n a + length bs\<rparr>"

definition ab_ok :: "AttrBuilder \<Rightarrow> bool" where
  "ab_ok a \<longleftrightarrow> ab_n a \<le> length (ab_buf a) \<and> ab_n a mod 4 = 0"

definition room :: "AttrBuilder \<Rightarrow> nat" where
  "room a = length (ab_buf a) - ab_n a"

lemma length_enc_attr [simp]: "length (enc_attr t v) = 4 + length v + pad4 (4 + length v)"
  by (simp add: enc_attr_def)

lemma enc_attr_aligned: "length (enc_attr t v) mod 4 = 0"
  using pad4_aligned [of "4 + length v"] by simp

lemma int_pad4: "FourByteAlignPadding (int n) = int (pad4 n)"
  by (simp add: pad4_def FourByteAlignPadding_mod)

lemma pad4_round_le: "k mod 4 = 0 \<Longrightarrow> n + pad4 n \<le> k \<longleftrightarrow> n \<le> k"
proof -
  assume k: "k mod 4 = 0"
  have "n \<le> k \<Longrightarrow> n + pad4 n \<le> k"
  proof -
    assume "n \<le> k"
    have "(n + pad4 n) mod 4 = 0" "n + pad4 n < n + 4" by (simp_all add: pad4_aligned)
    with \<open>n \<le> k\<close> k show ?thesis by presburger
  qed
  then show ?thesis by linarith
qed

lemma ab_append_simps [simp]:
  "length bs \<le> room a \<Longrightarrow> ab_n a \<le> length (ab_buf a) \<Longrightarrow> length (ab_buf (ab_append bs a)) = length (ab_buf a)"
  "ab_n (ab_append bs a) = ab_n a + length bs"
  by (simp_all add: ab_append_def room_def)

lemma ab_append_append:
  "length bs + length cs \<le> room a \<Longrightarrow> ab_n a \<le> length (ab_buf a) \<Longrightarrow>
     ab_append cs (ab_append bs a) = ab_append (bs @ cs) a"
  by (simp add: ab_append_def room_def min_absorb2 ac_simps)

lemma ab_append_Nil [simp]: "ab_append [] a = a"
  by (simp add: ab_append_def)

lemma reserve_eq:
  assumes "ab_n a \<le> length (ab_buf a)"
  shows "reserve t (int k) a =
    (if k > 65531 then Some (Inl ErrAttrTooLong, a)
     else if 4 + k + pad4 (4 + k) > room a then Some (Inl ErrAttrNoSpace, a)
     else Some (Inr (ab_n a + 4, k), ab_append (enc_attr t (replicate k 0)) a))"
proof -
  define A where "A = 4 + k + pad4 (4 + k)"
  have adv: "int 4 + int k + FourByteAlignPadding (int 4 + int k) = int A"
    using int_pad4 [of "4 + k"] by (simp add: A_def)
  have of: "(word_of_int (int 4 + int k) :: u16) = of_nat (4 + k)" by simp
  show ?thesis
  proof (cases "k > 65531 \<or> A > room a")
    case True
    then show ?thesis using assms
      unfolding reserve_def Let_def RTAttrSizeCst_def RtaMaxPayloadCst_def adv A_def [symmetric]
      by (auto simp: room_def)
  next
    case False
    define b where "b = take A (drop (ab_n a) (ab_buf a))"
    have len: "length b = A" "4 \<le> A" "ab_n a + A \<le> length (ab_buf a)"
      using False assms by (auto simp: b_def room_def A_def)
    have zeros: "replicate (A - 4) (0 :: u8) = replicate k 0 @ replicate (pad4 (4 + k)) 0"
      by (simp add: A_def replicate_add [symmetric])
    have enc: "enc_attr t (replicate k 0) = le_bytes 2 (of_nat (4 + k) :: u16) @ le_bytes 2 t @ replicate (A - 4) 0"
      by (simp add: enc_attr_def zeros)
    show ?thesis
      using False assms len
      unfolding reserve_def Let_def RTAttrSizeCst_def RtaMaxPayloadCst_def adv of A_def [symmetric] enc
      by (simp add: go_slice_Some b_def [symmetric] go_put_Some room_def ab_append_def)
  qed
qed

lemma fill_eq:
  assumes "ab_n a \<le> length (ab_buf a)" "length v \<le> k"
  shows "fill t (int k) v a =
    (if k > 65531 then Some (Some ErrAttrTooLong, a)
     else if 4 + k + pad4 (4 + k) > room a then Some (Some ErrAttrNoSpace, a)
     else Some (None, ab_append (enc_attr t (v @ replicate (k - length v) 0)) a))"
proof -
  have "go_put (ab_buf (ab_append (enc_attr t (replicate k 0)) a)) (ab_n a + 4) v
      = Some (ab_buf (ab_append (enc_attr t (v @ replicate (k - length v) 0)) a))"
    if "4 + k + pad4 (4 + k) \<le> room a"
    using that assms by (simp add: go_put_def ab_append_def enc_attr_def room_def)
  then show ?thesis
    using assms by (auto simp: fill_def reserve_eq ab_append_def)
qed

lemma ab_append_ok: "ab_ok a \<Longrightarrow> length bs \<le> room a \<Longrightarrow> length bs mod 4 = 0 \<Longrightarrow> ab_ok (ab_append bs a)"
  by (auto simp: ab_ok_def room_def)

lemma room_append [simp]: "length bs \<le> room a \<Longrightarrow> ab_n a \<le> length (ab_buf a) \<Longrightarrow> room (ab_append bs a) = room a - length bs"
  by (simp add: room_def)

section \<open>The contract of the appending operations\<close>

text \<open>Every \<open>Put\<close> either appends one complete attribute or leaves the builder as it was.\<close>

locale attr_put =
  fixes put :: "'v \<Rightarrow> AttrBuilder \<Rightarrow> (nl_error option \<times> AttrBuilder) option"
    and payload :: "'v \<Rightarrow> bytes" and t :: u16
  assumes put_eq: "ab_n a \<le> length (ab_buf a) \<Longrightarrow> put v a =
    (if length (payload v) > 65531 then Some (Some ErrAttrTooLong, a)
     else if length (enc_attr t (payload v)) > room a then Some (Some ErrAttrNoSpace, a)
     else Some (None, ab_append (enc_attr t (payload v)) a))"
begin

lemma put_cases:
  assumes "ab_ok a"
  obtains (fail) e where "put v a = Some (Some e, a)" "e \<in> {ErrAttrTooLong, ErrAttrNoSpace}"
  | (ok) "put v a = Some (None, ab_append (enc_attr t (payload v)) a)" "length (payload v) \<le> 65531"
      "length (enc_attr t (payload v)) \<le> room a"
  using assms put_eq [of a v] unfolding ab_ok_def by (metis insertCI linorder_not_less)

lemma put_keeps_ok:
  assumes "ab_ok a" "put v a = Some (e, a')"
  shows "ab_ok a'"
  using assms(1)
proof (cases rule: put_cases [of _ v])
  case ok
  then show ?thesis using assms by (auto intro: ab_append_ok enc_attr_aligned)
qed (use assms in auto)

lemma put_fail_same: "ab_ok a \<Longrightarrow> put v a = Some (Some e, a') \<Longrightarrow> a' = a"
  by (erule put_cases [of _ v]) auto

end

lemma pb_eq: "ab_n a \<le> length (ab_buf a) \<Longrightarrow> PutBytes t v a =
    (if length v > 65531 then Some (Some ErrAttrTooLong, a)
     else if length (enc_attr t v) > room a then Some (Some ErrAttrNoSpace, a)
     else Some (None, ab_append (enc_attr t v) a))"
  using fill_eq [of a v "length v" t] by (simp add: PutBytes_def)

interpretation pb: attr_put "PutBytes t" "\<lambda>v. v" t for t
  by unfold_locales (rule pb_eq)

interpretation pu8: attr_put "PutU8 t" "\<lambda>v. [v]" t for t
  by unfold_locales (simp add: PutU8_def pb_eq)

interpretation pu16: attr_put "PutU16 t" "le_bytes 2" t for t
  by unfold_locales (use fill_eq [where k = 2 and t = t] in \<open>simp add: PutU16_def\<close>)

interpretation pu32: attr_put "PutU32 t" "le_bytes 4" t for t
  by unfold_locales (use fill_eq [where k = 4 and t = t] in \<open>simp add: PutU32_def\<close>)

interpretation ps32: attr_put "PutS32 t" "le_bytes 4" t for t
  by unfold_locales (simp add: PutS32_def pu32.put_eq)

interpretation pstr: attr_put "PutString t" "\<lambda>s. s @ [0]" t for t
proof
  fix a :: AttrBuilder and v :: bytes
  assume "ab_n a \<le> length (ab_buf a)"
  then show "PutString t v a =
    (if length (v @ [0]) > 65531 then Some (Some ErrAttrTooLong, a)
     else if length (enc_attr t (v @ [0])) > room a then Some (Some ErrAttrNoSpace, a)
     else Some (None, ab_append (enc_attr t (v @ [0])) a))"
    using fill_eq [of a v "length v + 1" t] by (simp add: PutString_def algebra_simps)
qed

section \<open>Attribute trees\<close>

text \<open>A client of the builder: a forest of attributes, nests included, appended in order.\<close>

datatype attr = Leaf u16 bytes | Nest u16 "attr list"

fun build :: "attr \<Rightarrow> AttrBuilder \<Rightarrow> (nl_error option \<times> AttrBuilder) option"
  and builds :: "attr list \<Rightarrow> AttrBuilder \<Rightarrow> (nl_error option \<times> AttrBuilder) option" where
  "build (Leaf t v) a = PutBytes t v a"
| "build (Nest t xs) a = do {
     (res, a) \<leftarrow> BeginNest t a;
     case res of
       Inl err \<Rightarrow> Some (Some err, a)
     | Inr m \<Rightarrow> do {
         (e, a) \<leftarrow> builds xs a;
         case e of Some err \<Rightarrow> Some (Some err, a) | None \<Rightarrow> EndNest m a } }"
| "builds [] a = Some (None, a)"
| "builds (x # xs) a = do {
     (e, a) \<leftarrow> build x a;
     case e of Some err \<Rightarrow> Some (Some err, a) | None \<Rightarrow> builds xs a }"

fun enc_tree :: "attr \<Rightarrow> bytes" and enc_forest :: "attr list \<Rightarrow> bytes" where
  "enc_tree (Leaf t v) = enc_attr t v"
| "enc_tree (Nest t xs) = enc_attr t (enc_forest xs)"
| "enc_forest [] = []"
| "enc_forest (x # xs) = enc_tree x @ enc_forest xs"

fun fits_tree :: "attr \<Rightarrow> bool" and fits_forest :: "attr list \<Rightarrow> bool" where
  "fits_tree (Leaf t v) \<longleftrightarrow> length v \<le> 65531"
| "fits_tree (Nest t xs) \<longleftrightarrow> fits_forest xs \<and> length (enc_forest xs) \<le> 65531"
| "fits_forest [] \<longleftrightarrow> True"
| "fits_forest (x # xs) \<longleftrightarrow> fits_tree x \<and> fits_forest xs"

fun tag :: "attr \<Rightarrow> u16" where
  "tag (Leaf t v) = t"
| "tag (Nest t xs) = t"

fun payload_of :: "attr \<Rightarrow> bytes" where
  "payload_of (Leaf t v) = v"
| "payload_of (Nest t xs) = enc_forest xs"

lemma enc_tree_payload: "enc_tree x = enc_attr (tag x) (payload_of x)"
  by (cases x) simp_all

lemma enc_forest_aligned: "length (enc_forest xs) mod 4 = 0"
proof (induction xs)
  case (Cons x xs)
  then show ?case
    using enc_attr_aligned [of "tag x" "payload_of x"] by (simp add: enc_tree_payload mod_add_eq [symmetric] del: length_enc_attr)
qed simp

lemma BeginNest_eq:
  "ab_n a \<le> length (ab_buf a) \<Longrightarrow> BeginNest t a =
    (if 4 > room a then Some (Inl ErrAttrNoSpace, a) else Some (Inr (int (ab_n a)), ab_append (enc_attr t []) a))"
  using reserve_eq [of a t 0] by (auto simp: BeginNest_def pad4_mod)

text \<open>Closing a nest over the bytes written since it was opened gives the attribute with
  those bytes as its payload.\<close>

lemma EndNest_append:
  assumes "ab_n a \<le> length (ab_buf a)" "length bs mod 4 = 0" "length bs \<le> 65531" "4 + length bs \<le> room a"
  shows "EndNest (int (ab_n a)) (ab_append (enc_attr t [] @ bs) a) = Some (None, ab_append (enc_attr t bs) a)"
proof -
  have pad: "pad4 (4 + length bs) = 0" "pad4 4 = 0" using assms(2) by (simp_all add: pad4_mod)
  have enc: "enc_attr t bs = le_bytes 2 (of_nat (4 + length bs) :: u16) @ le_bytes 2 t @ bs"
      "enc_attr t [] @ bs = le_bytes 2 (4 :: u16) @ le_bytes 2 t @ bs"
    by (simp_all add: enc_attr_def pad)
  have of: "(word_of_int (int (4 + length bs)) :: u16) = of_nat (4 + length bs)" by simp
  have l: "int (ab_n (ab_append (enc_attr t [] @ bs) a)) - int (ab_n a) = int (4 + length bs)" by (simp add: pad)
  show ?thesis
    using assms unfolding EndNest_def Let_def l of enc
    by (simp add: RTAttrSizeCst_def ab_append_def go_put_def room_def)
qed

lemma build_eq:
  "ab_ok a \<Longrightarrow> fits_tree x \<Longrightarrow> length (enc_tree x) \<le> room a \<Longrightarrow> build x a = Some (None, ab_append (enc_tree x) a)"
  "ab_ok a \<Longrightarrow> fits_forest xs \<Longrightarrow> length (enc_forest xs) \<le> room a \<Longrightarrow>
     builds xs a = Some (None, ab_append (enc_forest xs) a)"
proof (induction x and xs arbitrary: a and a rule: enc_tree_enc_forest.induct)
  case (1 t v)
  then show ?case by (simp add: pb_eq ab_ok_def)
next
  case (2 t xs)
  then have n: "ab_n a \<le> length (ab_buf a)" by (simp add: ab_ok_def)
  let ?b = "ab_append (enc_attr t []) a"
  have len: "length (enc_attr t []) = 4" "length (enc_forest xs) \<le> 65531" "4 + length (enc_forest xs) \<le> room a"
    using 2 by (auto simp: pad4_mod)
  have "builds xs ?b = Some (None, ab_append (enc_forest xs) ?b)"
    using 2 n len by (intro 2) (auto intro!: ab_append_ok simp: enc_attr_aligned)
  moreover have "ab_append (enc_forest xs) ?b = ab_append (enc_attr t [] @ enc_forest xs) a"
    using len n by (intro ab_append_append) auto
  ultimately show ?case
    using n len EndNest_append [OF n enc_forest_aligned len(2,3), of t] by (simp add: BeginNest_eq)
next
  case 3
  then show ?case by simp
next
  case (4 x xs)
  then have "build x a = Some (None, ab_append (enc_tree x) a)" by simp
  moreover have al: "length (enc_tree x) mod 4 = 0" unfolding enc_tree_payload by (rule enc_attr_aligned)
  have "ab_ok (ab_append (enc_tree x) a)" using 4 al by (intro ab_append_ok) auto
  then have "builds xs (ab_append (enc_tree x) a) = Some (None, ab_append (enc_forest xs) (ab_append (enc_tree x) a))"
    using 4 by (intro 4) (auto simp: ab_ok_def)
  ultimately show ?case
    using 4 by (simp add: ab_append_append ab_ok_def)
qed

section \<open>Walking what was built\<close>

lemma Walk_short: "length data < 4 \<Longrightarrow> WalkRTAttrs data fn s = Some (None, s)"
  by (simp add: WalkRTAttrs.simps RTAttrSizeCst_def)

lemma Walk_step:
  assumes "4 \<le> length data" and l: "l = unat (le_word (take 2 data) :: u16)"
  shows "WalkRTAttrs data fn s =
    (if l < 4 \<or> length data < l then Some (Some ErrRTAttrSmall, s)
     else let s = fn (le_word (take 2 (drop 2 data)) AND NlaTypeMaskCst) (take (l - 4) (drop 4 data)) s in
       if length data < l + pad4 l then Some (None, s) else WalkRTAttrs (drop (l + pad4 l) data) fn s)"
proof -
  have adv: "int l + FourByteAlignPadding (int l) = int (l + pad4 l)" by (simp add: int_pad4)
  show ?thesis
    using assms(1) unfolding WalkRTAttrs.simps [of data] RTAttrSizeCst_def
    by (simp add: DeserializeRTAttr_ok l [symmetric] Let_def adv go_slice_Some go_slice_from_Some del: of_nat_add)
qed

lemma unat_attr_len: "k \<le> 65531 \<Longrightarrow> unat (of_nat (4 + k) :: u16) = 4 + k"
  by (subst unat_of_nat) (simp add: take_bit_eq_mod)

lemma Walk_enc:
  assumes "length v \<le> 65531"
  shows "WalkRTAttrs (enc_attr t v @ rest) fn s = WalkRTAttrs rest fn (fn (t AND NlaTypeMaskCst) v s)"
proof -
  let ?d = "enc_attr t v @ rest"
  have "unat (le_word (take 2 ?d) :: u16) = 4 + length v"
    using assms unat_attr_len [of "length v"] by (simp add: enc_attr_def)
  moreover have "le_word (take 2 (drop 2 ?d)) = t" "take (length v) (drop 4 ?d) = v"
      "drop (4 + length v + pad4 (4 + length v)) ?d = rest"
    by (simp_all add: enc_attr_def)
  ultimately show ?thesis by (subst Walk_step [OF _ refl]) auto
qed

lemma Walk_enc_last: "length v \<le> 65531 \<Longrightarrow> WalkRTAttrs (enc_attr t v) fn s = Some (None, fn (t AND NlaTypeMaskCst) v s)"
  using Walk_enc [of v t "[]"] by (simp add: Walk_short)

definition collect_attr :: "u16 \<Rightarrow> bytes \<Rightarrow> (u16 \<times> bytes) list \<Rightarrow> (u16 \<times> bytes) list" where
  "collect_attr t v acc = acc @ [(t, v)]"

lemma Walk_forest:
  "fits_forest xs \<Longrightarrow> WalkRTAttrs (enc_forest xs) collect_attr acc
     = Some (None, acc @ map (\<lambda>x. (tag x AND NlaTypeMaskCst, payload_of x)) xs)"
proof (induction xs arbitrary: acc)
  case (Cons x xs)
  then have "length (payload_of x) \<le> 65531" by (cases x) auto
  with Cons show ?case by (simp add: enc_tree_payload Walk_enc collect_attr_def)
qed (simp add: Walk_short)

text \<open>Reading a tree back: a leaf's value is its payload, a nest's value is walked again.\<close>

fun read_tree :: "attr \<Rightarrow> bytes \<Rightarrow> bool" and read_forest :: "attr list \<Rightarrow> (u16 \<times> bytes) list \<Rightarrow> bool" where
  "read_tree (Leaf t v) val \<longleftrightarrow> val = v"
| "read_tree (Nest t xs) val \<longleftrightarrow>
     (case WalkRTAttrsNested val collect_attr [] of
        Some (None, vals) \<Rightarrow> read_forest xs vals | _ \<Rightarrow> False)"
| "read_forest [] vals \<longleftrightarrow> vals = []"
| "read_forest (x # xs) vals \<longleftrightarrow>
     (case vals of [] \<Rightarrow> False
      | tv # vals \<Rightarrow> fst tv = tag x AND NlaTypeMaskCst \<and> read_tree x (snd tv) \<and> read_forest xs vals)"

lemma read_back:
  "fits_tree x \<Longrightarrow> read_tree x (payload_of x)"
  "fits_forest xs \<Longrightarrow> read_forest xs (map (\<lambda>x. (tag x AND NlaTypeMaskCst, payload_of x)) xs)"
  by (induction x and xs rule: enc_tree_enc_forest.induct) (simp_all add: WalkRTAttrsNested_def Walk_forest)

lemma Walk_within:
  "\<exists>e vals. WalkRTAttrs data collect_attr acc = Some (e, acc @ vals) \<and> e \<in> {None, Some ErrRTAttrSmall}
     \<and> (\<Sum>(t, v)\<leftarrow>vals. 4 + length v) \<le> length data"
proof (induction "length data" arbitrary: data acc rule: less_induct)
  case less
  define l where "l = unat (le_word (take 2 data) :: u16)"
  let ?tv = "(le_word (take 2 (drop 2 data)) AND NlaTypeMaskCst, take (l - 4) (drop 4 data))"
  consider (stop) "length data < 4 \<or> l < 4 \<or> length data < l" | (fin) "4 \<le> l" "l \<le> length data" "length data < l + pad4 l"
    | (next_attr) "4 \<le> l" "l + pad4 l \<le> length data" by linarith
  then show ?case
  proof cases
    case stop
    then show ?thesis
      by (cases "length data < 4") (auto simp: Walk_short Walk_step [OF _ l_def])
  next
    case fin
    then have "WalkRTAttrs data collect_attr acc = Some (None, acc @ [?tv])"
      by (subst Walk_step [OF _ l_def]) (auto simp: Let_def collect_attr_def)
    then show ?thesis using fin by auto
  next
    case next_attr
    then have eq: "WalkRTAttrs data collect_attr acc = WalkRTAttrs (drop (l + pad4 l) data) collect_attr (acc @ [?tv])"
      by (subst Walk_step [OF _ l_def]) (auto simp: Let_def collect_attr_def)
    have "length (drop (l + pad4 l) data) < length data" using next_attr by simp
    from less [OF this, of "acc @ [?tv]"] obtain e vals
      where rest: "WalkRTAttrs (drop (l + pad4 l) data) collect_attr (acc @ [?tv]) = Some (e, (acc @ [?tv]) @ vals)"
        "e \<in> {None, Some ErrRTAttrSmall}" "(\<Sum>(t, v)\<leftarrow>vals. 4 + length v) \<le> length (drop (l + pad4 l) data)"
      by blast
    then have "(\<Sum>(t, v)\<leftarrow>?tv # vals. 4 + length v) \<le> length data" using next_attr by simp
    with rest(1,2) eq show ?thesis by (intro exI [of _ e] exI [of _ "?tv # vals"]) simp
  qed
qed

section \<open>Facts about duplicates and acknowledgements\<close>

lemma attrSeen_first_eq:
  "attrSeen_first t s = (if t < 64 \<and> bit s (unat t) then (False, s)
     else (True, if t < 64 then s OR push_bit (unat t) 1 else s))"
  by (auto simp: attrSeen_first_def Let_def not_le bit_iff_and_push_bit_not_eq_0)

lemma assign_first_fold:
  assumes "\<And>t. t < 64 \<Longrightarrow> bit s (unat t) \<longleftrightarrow> m t \<noteq> None"
  shows "snd (fold assign_first as (s, m)) t =
    (if t < 64 then (case m t of Some v \<Rightarrow> Some v | None \<Rightarrow> map_of as t)
     else (case map_of (rev as) t of Some v \<Rightarrow> Some v | None \<Rightarrow> m t))"
  using assms
proof (induction as arbitrary: s m)
  case Nil
  then show ?case by (simp split: option.split)
next
  case (Cons tv as)
  obtain t' v where tv: "tv = (t', v)" by force
  show ?case
  proof (cases "t' < 64 \<and> bit s (unat t')")
    case True
    then have "snd (fold assign_first (tv # as) (s, m)) t = snd (fold assign_first as (s, m)) t"
      by (simp add: tv attrSeen_first_eq)
    moreover have "m t' \<noteq> None" using True Cons.prems by blast
    ultimately show ?thesis
      using Cons True by (auto simp: tv map_add_def split: option.splits)
  next
    case False
    define s' where "s' = (if t' < 64 then s OR push_bit (unat t') 1 else s)"
    have inv: "bit s' (unat u) \<longleftrightarrow> (m(t' \<mapsto> v)) u \<noteq> None" if "u < 64" for u
    proof -
      have "unat u < 64" using that by (simp add: word_less_nat_alt)
      then show ?thesis
        using Cons.prems [OF that] that by (auto simp: s'_def bit_simps word_unat_eq_iff word_less_nat_alt split: if_splits)
    qed
    have "snd (fold assign_first (tv # as) (s, m)) t = snd (fold assign_first as (s', m(t' \<mapsto> v))) t"
      using False by (simp add: tv attrSeen_first_eq s'_def)
    then show ?thesis
      using Cons.IH [OF inv] False Cons.prems [of t'] by (auto simp: tv map_add_def split: option.splits)
  qed
qed

lemma trim_nul_snoc: "(v = [] \<or> last v \<noteq> 0) \<Longrightarrow> trim_nul (v @ [0]) = v"
  by (cases v rule: rev_cases) (auto simp: trim_nul_def)

section \<open>Properties\<close>

text \<open>C8: what the encoder writes, the walker reads. A forest of attributes, nested to any
  depth, whose payloads fit their sixteen-bit lengths and whose encoding fits the
  buffer is built without an error, and walking the bytes of the builder, descending
  into the nests, gives back every type (without its flag bits) and every payload.\<close>

theorem attr_forest_roundtrip:
  assumes "fits_forest xs" "length (enc_forest xs) \<le> length buf"
  shows "\<exists>a bs vals. builds xs (NewAttrBuilder buf) = Some (None, a) \<and> Bytes a = Some bs
    \<and> WalkRTAttrs bs collect_attr [] = Some (None, vals) \<and> read_forest xs vals"
proof -
  let ?a = "ab_append (enc_forest xs) (NewAttrBuilder buf)"
  have "builds xs (NewAttrBuilder buf) = Some (None, ?a)"
    using assms by (intro build_eq) (simp_all add: ab_ok_def NewAttrBuilder_def room_def)
  moreover have "Bytes ?a = Some (enc_forest xs)"
    using assms by (simp add: Bytes_def NewAttrBuilder_def ab_append_def go_slice_def)
  ultimately show ?thesis using Walk_forest [OF assms(1)] read_back(2) [OF assms(1)] by auto
qed

definition wit_forest :: "attr list" where
  "wit_forest = [Leaf 3 [108, 111, 0], Nest 18 [Leaf 1 [98], Nest 2 [Leaf 1 [5, 6]]]]"

theorem attr_forest_roundtrip_witness:
  "\<exists>a bs vals. builds wit_forest (NewAttrBuilder (replicate 64 7)) = Some (None, a) \<and> Bytes a = Some bs
    \<and> WalkRTAttrs bs collect_attr [] = Some (None, vals) \<and> read_forest wit_forest vals"
  by (rule attr_forest_roundtrip) (simp_all add: wit_forest_def pad4_mod)

text \<open>The appending operations are atomic. On a well-formed builder each of them returns
  without a panic; it either fails with one of the two documented errors and the builder
  is the one it was, byte for byte, or it appends the complete attribute and changes
  no byte before or after it.\<close>

theorem put_atomic:
  assumes "ab_ok a" "op \<in> {PutBytes t v, PutU8 t b, PutU16 t h, PutU32 t w, PutS32 t w, PutString t v}"
  shows "(\<exists>e \<in> {ErrAttrTooLong, ErrAttrNoSpace}. op a = Some (Some e, a))
    \<or> (\<exists>bs a'. op a = Some (None, a') \<and> ab_ok a' \<and> length (ab_buf a') = length (ab_buf a)
        \<and> take (ab_n a') (ab_buf a') = take (ab_n a) (ab_buf a) @ enc_attr t bs
        \<and> drop (ab_n a') (ab_buf a') = drop (ab_n a') (ab_buf a))"
proof -
  obtain bs where "(\<exists>e. op a = Some (Some e, a) \<and> e \<in> {ErrAttrTooLong, ErrAttrNoSpace})
      \<or> (op a = Some (None, ab_append (enc_attr t bs) a) \<and> length (enc_attr t bs) \<le> room a)"
    using assms pb.put_cases [of a t v] pu8.put_cases [of a t b] pu16.put_cases [of a t h] pu32.put_cases [of a t w]
      ps32.put_cases [of a t w] pstr.put_cases [of a t v] by (elim insertE emptyE) metis+
  then show ?thesis
    using assms(1) ab_append_ok [OF assms(1) _ enc_attr_aligned, of t bs]
    by (auto simp: ab_ok_def room_def ab_append_def simp del: length_enc_attr)
qed

theorem put_atomic_witness:
  "\<exists>e \<in> {ErrAttrTooLong, ErrAttrNoSpace}. PutU32 29 9 (NewAttrBuilder [1, 2, 3]) = Some (Some e, NewAttrBuilder [1, 2, 3])"
proof -
  have "ab_ok (NewAttrBuilder [1, 2, 3])" by (simp add: ab_ok_def NewAttrBuilder_def)
  moreover have "PutU32 29 9 (NewAttrBuilder [1, 2, 3]) \<noteq> Some (None, a')" for a'
    by (simp add: pu32.put_eq NewAttrBuilder_def room_def)
  ultimately show ?thesis using put_atomic [of "NewAttrBuilder [1, 2, 3]" "PutU32 29 9" 29 _ _ _ 9] by blast
qed

text \<open>Walking any bytes at all, as attributes of a message or of a nest, ends without a
  panic and with no other error than a bad attribute length, and the values it hands
  out lie one after the other inside the bytes, each behind its own header.\<close>

theorem walk_attrs_total:
  "\<exists>e vals. WalkRTAttrs data collect_attr [] = Some (e, vals) \<and> e \<in> {None, Some ErrRTAttrSmall}
     \<and> (\<Sum>(t, v)\<leftarrow>vals. 4 + length v) \<le> length data"
  using Walk_within [of data "[]"] by simp

text \<open>The duplicate rule. Assigning under the bitset guard keeps the first value of
  every attribute type below 64 and the last value of every type from 64 on.\<close>

theorem duplicates_first_wins:
  "snd (fold assign_first as (0, Map.empty)) t = (if t < 64 then map_of as t else map_of (rev as) t)"
  by (subst assign_first_fold) (simp_all split: option.split)

text \<open>The acknowledgement parser inverts the kernel's layout: for every errno, request
  header, echoed payload, message and offset, with the payload echoed or capped, parsing
  the error message gives back exactly those values.\<close>

theorem nlmsgerr_roundtrip:
  assumes "capped \<or> nlh_Len h = of_nat (16 + length echo)" "16 + length echo < 2 ^ 32"
    and "msg = [] \<or> last msg \<noteq> 0" "length msg < 65531"
    and "body = le_bytes 4 errno @ nlmsghdr_bytes h @ (if capped then [] else echo @ replicate (pad4 (length echo)) 0)
      @ enc_forest [Leaf 1 (msg @ [0]), Leaf 2 (le_bytes 4 off)]"
  shows "ParseNlMsgErr ((if capped then 0x100 else 0) OR 0x200) body = Some (Inr
    \<lparr>ne_Errno = errno, ne_RequestType = nlh_Type h, ne_RequestFlags = nlh_Flags h, ne_RequestSeq = nlh_Seq h,
     ne_Capped = capped, ne_Msg = msg, ne_HasMsg = True, ne_Offset = off, ne_HasOffset = True\<rparr>)"
proof -
  define tl where "tl = enc_forest [Leaf 1 (msg @ [0]), Leaf 2 (le_bytes 4 off)]"
  define mid where "mid = (if capped then [] else echo @ replicate (pad4 (length echo)) 0)"
  have body: "body = le_bytes 4 errno @ nlmsghdr_bytes h @ mid @ tl" using assms(5) by (simp add: tl_def mid_def)
  have rest: "drop 20 body = mid @ tl" by (simp add: body)
  have fields: "LE_Uint32 body 0 4 = Some errno" "LE_Uint16 body 8 10 = Some (nlh_Type h)"
      "LE_Uint16 body 10 12 = Some (nlh_Flags h)" "LE_Uint32 body 12 16 = Some (nlh_Seq h)"
      "LE_Uint32 body 4 8 = Some (nlh_Len h)"
    by (simp_all add: LE_Uint_Some body nlmsghdr_bytes_def)
  have walk: "WalkRTAttrs tl nlmsgerr_attr e = Some (None, e\<lparr>ne_Msg := msg, ne_HasMsg := True, ne_Offset := off, ne_HasOffset := True\<rparr>)"
    for e
    using assms(3,4) by (simp add: tl_def Walk_enc Walk_enc_last nlmsgerr_attr_def NlaTypeMaskCst_def trim_nul_snoc)
  have len: "20 \<le> length body" by (simp add: body)
  show ?thesis
  proof (cases capped)
    case True
    then show ?thesis
      using len fields rest walk
      by (simp add: ParseNlMsgErr_def nlMsgErrFixedCst_def NlMsgHdrSizeCst_def mid_def go_slice_from_Some)
  next
    case False
    then have "unat (nlh_Len h) = 16 + length echo"
      using assms(1,2) by (simp add: unat_of_nat take_bit_eq_mod del: of_nat_add)
    then have "uint (nlh_Len h) = 16 + int (length echo)" by (metis of_nat_add of_nat_numeral of_nat_unat)
    moreover have "nlmsgAlign (int (length echo)) = int (length mid)"
      using False by (simp add: mid_def nlmsgAlign_eq_padding int_pad4)
    ultimately show ?thesis
      using len fields rest walk False
      by (simp add: ParseNlMsgErr_def nlMsgErrFixedCst_def NlMsgHdrSizeCst_def go_slice_from_Some)
  qed
qed

definition wit_hdr :: NlMsgHdr where
  "wit_hdr = \<lparr>nlh_Len = 17, nlh_Type = 16, nlh_Flags = 5, nlh_Seq = 7, nlh_Pid = 0\<rparr>"

theorem nlmsgerr_roundtrip_witness:
  "\<exists>body. ParseNlMsgErr 0x200 body = Some (Inr \<lparr>ne_Errno = - 22, ne_RequestType = 16, ne_RequestFlags = 5,
     ne_RequestSeq = 7, ne_Capped = False, ne_Msg = [110, 111], ne_HasMsg = True, ne_Offset = 16, ne_HasOffset = True\<rparr>)"
  using nlmsgerr_roundtrip [of False wit_hdr "[9]" "[110, 111]" _ "- 22" 16] by (auto simp: wit_hdr_def)

end
