(* ===== verification/Rtnl_Request.thy ===== *)
theory Rtnl_Request
  imports Rtattr
begin

text \<open>
  The request side of rtnetlink (\<open>pkg/xtcpnl\<close>): the two gates on the message type,
  the layout of a request and the read-only request builders of
  \<open>xtcpnl_rtattr_encode.go\<close>, \<open>xtcpnl_rtnetlink.go\<close> and
  \<open>xtcpnl_rtnetlink_requests.go\<close>. A nil slice is the empty list.
\<close>

section \<open>Message types\<close>

definition RTM_BASE :: u16 where
  "RTM_BASE = 16"

definition NLMSG_NOOP :: u16 where "NLMSG_NOOP = 1"
definition NLMSG_ERROR :: u16 where "NLMSG_ERROR = 2"
definition NLMSG_DONE :: u16 where "NLMSG_DONE = 3"
definition NLMSG_OVERRUN :: u16 where "NLMSG_OVERRUN = 4"
definition NLM_F_REQUEST :: u16 where "NLM_F_REQUEST = 1"
definition NLM_F_ACK :: u16 where "NLM_F_ACK = 4"
definition NLM_F_DUMP_INTR :: u16 where "NLM_F_DUMP_INTR = 0x10"
definition NLM_F_DUMP :: u16 where "NLM_F_DUMP = 0x300"

definition IsGetRequestType :: "u16 \<Rightarrow> bool" where
  "IsGetRequestType msgType \<longleftrightarrow> msgType \<ge> RTM_BASE \<and> (msgType - RTM_BASE) mod 4 = 2"

definition IsBuildableRequestType :: "u16 \<Rightarrow> bool" where
  "IsBuildableRequestType msgType \<longleftrightarrow> (if msgType = NLMSG_NOOP then True else IsGetRequestType msgType)"

text \<open>\<open>RTM_NEWROUTE\<close>, \<open>RTM_DELROUTE\<close>, \<open>RTM_NEWLINK\<close>, \<open>RTM_DELLINK\<close>, \<open>RTM_NEWADDR\<close>,
  \<open>RTM_DELADDR\<close>, \<open>RTM_NEWNEIGH\<close>, \<open>RTM_DELNEIGH\<close>, \<open>RTM_NEWRULE\<close>, \<open>RTM_DELRULE\<close>,
  \<open>RTM_NEWNEXTHOP\<close>, \<open>RTM_DELNEXTHOP\<close>, \<open>RTM_NEWADDRLABEL\<close>, \<open>RTM_DELADDRLABEL\<close>,
  \<open>RTM_SETNEIGHTBL\<close>, \<open>RTM_SETSTATS\<close>, \<open>RTM_NEWLINKPROP\<close>, \<open>RTM_DELLINKPROP\<close>,
  \<open>RTM_SETLINK\<close> and \<open>RTM_NEWNSID\<close>.\<close>

definition IsAdmittedWriteType :: "u16 \<Rightarrow> bool" where
  "IsAdmittedWriteType msgType \<longleftrightarrow> msgType \<in>
     {24, 25, 16, 17, 20, 21, 28, 29, 32, 33, 104, 105, 72, 73, 67, 95, 108, 109, 19, 88}"

text \<open>The length of the family header, \<open>-1\<close> for a type that is not modelled by the package.\<close>

definition FamilyHdrLen :: "u16 \<Rightarrow> int" where
  "FamilyHdrLen msgType =
     (if msgType \<in> {18, 16, 17, 19} then 16
      else if msgType \<in> {108, 109} then 16
      else if msgType \<in> {22, 20, 21} then 8
      else if msgType \<in> {26, 24, 25} then 12
      else if msgType \<in> {30, 28, 29} then 12
      else if msgType \<in> {34, 32, 33} then 12
      else if msgType \<in> {106, 104, 105} then 8
      else if msgType \<in> {118, 116, 117} then 8
      else if msgType \<in> {74, 72, 73} then 12
      else if msgType \<in> {66, 64, 67} then 4
      else if msgType \<in> {82, 80, 81} then 4
      else if msgType \<in> {94, 92, 95} then 12
      else if msgType \<in> {90, 88, 89} then 4
      else if msgType \<in> {NLMSG_DONE, NLMSG_NOOP, NLMSG_ERROR} then 0
      else - 1)"

section \<open>Laying out a request\<close>

definition layoutRequest :: "u16 \<Rightarrow> u16 \<Rightarrow> u32 \<Rightarrow> bytes \<Rightarrow> bytes \<Rightarrow> bytes option" where
  "layoutRequest msgType flags sq familyHdr attrs =
     (let total = NlMsgHdrSizeCst + length familyHdr + length attrs;
          b = replicate total 0 in do {
        b \<leftarrow> go_put b 0 (le_bytes 4 (of_nat total :: u32));
        b \<leftarrow> go_put b 4 (le_bytes 2 msgType);
        b \<leftarrow> go_put b 6 (le_bytes 2 flags);
        b \<leftarrow> go_put b 8 (le_bytes 4 sq);
        b \<leftarrow> go_put b NlMsgHdrSizeCst familyHdr;
        go_put b (NlMsgHdrSizeCst + length familyHdr) attrs })"

definition BuildRequest :: "u16 \<Rightarrow> u16 \<Rightarrow> u32 \<Rightarrow> bytes \<Rightarrow> bytes \<Rightarrow> (nl_error + bytes) option" where
  "BuildRequest msgType flags sq familyHdr attrs =
     (if \<not> IsBuildableRequestType msgType then Some (Inl ErrNotAGetRequest)
      else
        let want = FamilyHdrLen msgType in
        if want \<ge> 0 \<and> int (length familyHdr) \<noteq> want then Some (Inl ErrBadFamilyHdr)
        else do { b \<leftarrow> layoutRequest msgType (flags OR NLM_F_REQUEST) sq familyHdr attrs; Some (Inr b) })"

definition BuildWriteRequest :: "u16 \<Rightarrow> u16 \<Rightarrow> u32 \<Rightarrow> bytes \<Rightarrow> bytes \<Rightarrow> (nl_error + bytes) option" where
  "BuildWriteRequest msgType flags sq familyHdr attrs =
     (if \<not> IsAdmittedWriteType msgType then Some (Inl ErrNotAnAdmittedWrite)
      else if int (length familyHdr) \<noteq> FamilyHdrLen msgType then Some (Inl ErrBadFamilyHdr)
      else do { b \<leftarrow> layoutRequest msgType (flags OR NLM_F_REQUEST) sq familyHdr attrs; Some (Inr b) })"

definition BuildDumpRequest :: "u16 \<Rightarrow> u32 \<Rightarrow> bytes \<Rightarrow> bytes option" where
  "BuildDumpRequest msgType sq familyHdr =
     (if \<not> IsBuildableRequestType msgType then Some []
      else layoutRequest msgType (NLM_F_REQUEST OR NLM_F_DUMP) sq familyHdr [])"

section \<open>The builders\<close>

text \<open>\<open>hdr := make([]byte, n); hdr[0] = family\<close>.\<close>

definition family_hdr :: "nat \<Rightarrow> u8 \<Rightarrow> bytes" where
  "family_hdr n family = family # replicate (n - 1) 0"

text \<open>A run of appends with the early return of the first error; each is guarded by the
  condition of the \<open>if\<close> around it.\<close>

type_synonym ab_op = "AttrBuilder \<Rightarrow> (nl_error option \<times> AttrBuilder) option"

fun put_all :: "(bool \<times> ab_op) list \<Rightarrow> ab_op" where
  "put_all [] a = Some (None, a)"
| "put_all ((c, op) # ops) a =
     (if c then do { (e, a) \<leftarrow> op a; case e of Some err \<Rightarrow> Some (Some err, a) | None \<Rightarrow> put_all ops a }
      else put_all ops a)"

text \<open>Appending to a fresh zeroed buffer of a given size and taking the bytes.\<close>

definition attrs_of :: "nat \<Rightarrow> (bool \<times> ab_op) list \<Rightarrow> (nl_error + bytes) option" where
  "attrs_of n ops = do {
     (e, a) \<leftarrow> put_all ops (NewAttrBuilder (replicate n 0));
     case e of Some err \<Rightarrow> Some (Inl err) | None \<Rightarrow> do { bs \<leftarrow> Bytes a; Some (Inr bs) } }"

definition then_build :: "(nl_error + bytes) option \<Rightarrow> (bytes \<Rightarrow> (nl_error + bytes) option) \<Rightarrow> (nl_error + bytes) option" where
  "then_build r k = do { x \<leftarrow> r; case x of Inl err \<Rightarrow> Some (Inl err) | Inr bs \<Rightarrow> k bs }"

definition IfNameSizeCst :: nat where "IfNameSizeCst = 16"
definition reqAttrBufCst :: nat where "reqAttrBufCst = 32"
definition routeGetBufCst :: nat where "routeGetBufCst = 1024"

definition extMaskAttrs :: "u32 \<Rightarrow> (nl_error + bytes) option" where
  "extMaskAttrs extMask = (if extMask = 0 then Some (Inr []) else attrs_of reqAttrBufCst [(True, PutU32 29 extMask)])"

text \<open>The interface name as bytes: not empty, below sixteen bytes, no dot names, no
  separator, no white space and no NUL.\<close>

definition validIfName :: "bytes \<Rightarrow> bool" where
  "validIfName name \<longleftrightarrow> name \<noteq> [] \<and> length name < IfNameSizeCst \<and> name \<noteq> [46] \<and> name \<noteq> [46, 46]
     \<and> list_all (\<lambda>c. c \<notin> {47, 58, 32, 9, 10, 11, 12, 13} \<and> c \<noteq> 0) name"

definition linkInfoKindAttrs :: "bytes \<Rightarrow> (nl_error + bytes) option" where
  "linkInfoKindAttrs kind =
     then_build (attrs_of reqAttrBufCst [(True, PutBytes 1 kind)])
       (\<lambda>inner. attrs_of reqAttrBufCst [(True, PutBytes 18 inner)])"

definition BuildDumpLinkRequestFamily :: "u8 \<Rightarrow> u32 \<Rightarrow> bytes option" where
  "BuildDumpLinkRequestFamily family sq = BuildDumpRequest 18 sq (family_hdr 16 family)"

definition BuildDumpLinkRequest :: "u32 \<Rightarrow> bytes option" where
  "BuildDumpLinkRequest sq = BuildDumpLinkRequestFamily 0 sq"

definition BuildDumpAddrRequest :: "u8 \<Rightarrow> u32 \<Rightarrow> bytes option" where
  "BuildDumpAddrRequest family sq = BuildDumpRequest 22 sq (family_hdr 8 family)"

definition BuildDumpRouteRequest :: "u8 \<Rightarrow> u32 \<Rightarrow> bytes option" where
  "BuildDumpRouteRequest family sq = BuildDumpRequest 26 sq (family_hdr 12 family)"

definition BuildDumpLinkRequestExt :: "u8 \<Rightarrow> u32 \<Rightarrow> u32 \<Rightarrow> (nl_error + bytes) option" where
  "BuildDumpLinkRequestExt family extMask sq =
     then_build (extMaskAttrs extMask) (BuildRequest 18 NLM_F_DUMP sq (family_hdr 16 family))"

definition BuildDumpLinkRequestKind :: "u8 \<Rightarrow> bytes \<Rightarrow> u32 \<Rightarrow> (nl_error + bytes) option" where
  "BuildDumpLinkRequestKind family kind sq =
     then_build (linkInfoKindAttrs kind) (BuildRequest 18 NLM_F_DUMP sq (family_hdr 16 family))"

text \<open>The nested kind of a filter: the inner attribute in a buffer of its own size.\<close>

definition put_kind :: "bytes \<Rightarrow> ab_op" where
  "put_kind kind a = do {
     x \<leftarrow> attrs_of (RTAttrSizeCst + nat (nlmsgAlign (int (length kind)))) [(True, PutBytes 1 kind)];
     case x of Inl err \<Rightarrow> Some (Some err, a) | Inr inner \<Rightarrow> PutBytes 18 inner a }"

definition BuildDumpLinkRequestFilter ::
    "u8 \<Rightarrow> u32 \<Rightarrow> u32 \<Rightarrow> bytes \<Rightarrow> bool \<Rightarrow> u32 \<Rightarrow> (nl_error + bytes) option" where
  "BuildDumpLinkRequestFilter family extMask master kind hasKind sq =
     (if family \<noteq> 0 \<and> family \<noteq> 17
      then do { b \<leftarrow> BuildDumpLinkRequestFamily family sq; Some (Inr b) }
      else
        let u32AttrLen = RTAttrSizeCst + 4;
            size = 2 * u32AttrLen + (if hasKind then 2 * RTAttrSizeCst + nat (nlmsgAlign (int (length kind))) else 0)
        in then_build
             (attrs_of size [(True, PutU32 29 extMask), (master \<noteq> 0, PutU32 10 master), (hasKind, put_kind kind)])
             (BuildRequest 18 NLM_F_DUMP sq (family_hdr 16 family)))"

definition BuildGetLinkByIndexRequest :: "u8 \<Rightarrow> u32 \<Rightarrow> u32 \<Rightarrow> u32 \<Rightarrow> (nl_error + bytes) option" where
  "BuildGetLinkByIndexRequest family ifindex extMask sq = do {
     hdr \<leftarrow> go_put (family_hdr 16 family) 4 (le_bytes 4 ifindex);
     then_build (extMaskAttrs extMask) (BuildRequest 18 0 sq hdr) }"

definition BuildGetLinkByNameRequest :: "u8 \<Rightarrow> bytes \<Rightarrow> u32 \<Rightarrow> u32 \<Rightarrow> (nl_error + bytes) option" where
  "BuildGetLinkByNameRequest family name extMask sq =
     (if \<not> validIfName name then Some (Inl ErrBadIfName)
      else then_build (attrs_of reqAttrBufCst [(extMask \<noteq> 0, PutU32 29 extMask), (True, PutString 3 name)])
        (BuildRequest 18 0 sq (family_hdr 16 family)))"

definition BuildIplinkGetRequest :: "u8 \<Rightarrow> bytes \<Rightarrow> u32 \<Rightarrow> u32 \<Rightarrow> (nl_error + bytes) option" where
  "BuildIplinkGetRequest family name extMask sq =
     (if \<not> validIfName name then Some (Inl ErrBadIfName)
      else then_build (attrs_of reqAttrBufCst [(True, PutString 3 name), (True, PutU32 29 extMask)])
        (BuildRequest 18 0 sq (family_hdr 16 family)))"

definition BuildDumpAddrRequestIndex :: "u8 \<Rightarrow> u32 \<Rightarrow> u32 \<Rightarrow> bytes option" where
  "BuildDumpAddrRequestIndex family ifindex sq = do {
     hdr \<leftarrow> go_put (family_hdr 8 family) 4 (le_bytes 4 ifindex);
     BuildDumpRequest 22 sq hdr }"

definition BuildDumpRouteRequestFilterProto :: "u8 \<Rightarrow> u8 \<Rightarrow> u32 \<Rightarrow> u32 \<Rightarrow> u32 \<Rightarrow> (nl_error + bytes) option" where
  "BuildDumpRouteRequestFilterProto family protocol table oif sq =
     then_build
       (if table \<noteq> 0 \<or> oif \<noteq> 0
        then attrs_of reqAttrBufCst [(table \<noteq> 0, PutU32 15 table), (oif \<noteq> 0, PutU32 4 oif)] else Some (Inr []))
       (BuildRequest 26 NLM_F_DUMP sq ((family_hdr 12 family)[5 := protocol]))"

definition BuildDumpRouteRequestFilter :: "u8 \<Rightarrow> u32 \<Rightarrow> u32 \<Rightarrow> u32 \<Rightarrow> (nl_error + bytes) option" where
  "BuildDumpRouteRequestFilter family table oif sq = BuildDumpRouteRequestFilterProto family 0 table oif sq"

record RouteGet =
  rg_Family :: u8
  rg_DstLen :: u8
  rg_SrcLen :: u8
  rg_Tos :: u8
  rg_RtmFlags :: u32
  rg_Attrs :: "(u16 \<times> bytes) list"

definition BuildGetRouteRequest :: "RouteGet \<Rightarrow> u32 \<Rightarrow> (nl_error + bytes) option" where
  "BuildGetRouteRequest g sq =
     then_build (attrs_of routeGetBufCst (map (\<lambda>(t, v). (True, PutBytes t v)) (rg_Attrs g)))
       (BuildRequest 26 0 sq ([rg_Family g, rg_DstLen g, rg_SrcLen g, rg_Tos g, 0, 0, 0, 0] @ le_bytes 4 (rg_RtmFlags g)))"

definition BuildDumpNexthopRequest :: "u8 \<Rightarrow> u32 \<Rightarrow> bytes option" where
  "BuildDumpNexthopRequest family sq = BuildDumpRequest 106 sq (family_hdr 8 family)"

definition BuildGetNexthopByIDRequest :: "u8 \<Rightarrow> u32 \<Rightarrow> u32 \<Rightarrow> (nl_error + bytes) option" where
  "BuildGetNexthopByIDRequest family ident sq =
     then_build (attrs_of reqAttrBufCst [(True, PutU32 1 ident), (True, PutU32 14 0)])
       (BuildRequest 106 0 sq (family_hdr 8 family))"

record NexthopDumpFilter =
  nf_OIF :: u32
  nf_Master :: u32
  nf_Groups :: bool
  nf_Fdb :: bool

definition BuildGetNexthopDumpRequest :: "u8 \<Rightarrow> NexthopDumpFilter \<Rightarrow> u32 \<Rightarrow> (nl_error + bytes) option" where
  "BuildGetNexthopDumpRequest family f sq =
     then_build (attrs_of reqAttrBufCst
         [(nf_OIF f \<noteq> 0, PutU32 5 (nf_OIF f)), (nf_Groups f, PutBytes 9 []), (nf_Master f \<noteq> 0, PutU32 10 (nf_Master f)),
          (nf_Fdb f, PutBytes 11 [])])
       (BuildRequest 106 NLM_F_DUMP sq (family_hdr 8 family))"

definition BuildDumpNeighRequest :: "u8 \<Rightarrow> u32 \<Rightarrow> bytes option" where
  "BuildDumpNeighRequest family sq = BuildDumpRequest 30 sq (family_hdr 12 family)"

definition BuildDumpNeighRequestFilter :: "u8 \<Rightarrow> u8 \<Rightarrow> u32 \<Rightarrow> u32 \<Rightarrow> (nl_error + bytes) option" where
  "BuildDumpNeighRequestFilter family ndmFlags ifindex sq =
     then_build (if ifindex \<noteq> 0 then attrs_of reqAttrBufCst [(True, PutU32 8 ifindex)] else Some (Inr []))
       (BuildRequest 30 NLM_F_DUMP sq ((family_hdr 12 family)[10 := ndmFlags]))"

record NeighGet =
  ng_Family :: u8
  ng_Flags :: u8
  ng_Ifindex :: u32
  ng_Dst :: bytes

definition BuildGetNeighRequest :: "NeighGet \<Rightarrow> u32 \<Rightarrow> (nl_error + bytes) option" where
  "BuildGetNeighRequest g sq = do {
     hdr \<leftarrow> go_put (family_hdr 12 (ng_Family g)) 4 (le_bytes 4 (ng_Ifindex g));
     then_build (attrs_of reqAttrBufCst [(True, PutBytes 1 (ng_Dst g))])
       (BuildRequest 30 0 sq (hdr[10 := ng_Flags g])) }"

definition BuildDumpRuleRequest :: "u8 \<Rightarrow> u32 \<Rightarrow> (nl_error + bytes) option" where
  "BuildDumpRuleRequest family sq = BuildRequest 34 NLM_F_DUMP sq (family_hdr 12 family) []"

definition BuildDumpAddrLabelRequest :: "u8 \<Rightarrow> u32 \<Rightarrow> bytes option" where
  "BuildDumpAddrLabelRequest family sq = BuildDumpRequest 74 sq (family_hdr 12 family)"

definition BuildDumpNeighTblRequest :: "u8 \<Rightarrow> u32 \<Rightarrow> bytes option" where
  "BuildDumpNeighTblRequest family sq = BuildDumpRequest 66 sq (family_hdr 4 family)"

definition BuildDumpNetconfRequest :: "u8 \<Rightarrow> u32 \<Rightarrow> bytes option" where
  "BuildDumpNetconfRequest family sq = BuildDumpRequest 82 sq (family_hdr 4 family)"

definition BuildGetNetconfByIndexRequest :: "u8 \<Rightarrow> u32 \<Rightarrow> u32 \<Rightarrow> (nl_error + bytes) option" where
  "BuildGetNetconfByIndexRequest family ifindex sq =
     then_build (attrs_of reqAttrBufCst [(True, PutU32 1 ifindex)]) (BuildRequest 82 NLM_F_ACK sq (family_hdr 4 family))"

definition ifStatsHdr :: "u8 \<Rightarrow> u32 \<Rightarrow> u32 \<Rightarrow> bytes option" where
  "ifStatsHdr family ifindex filterMask = do {
     hdr \<leftarrow> go_put (family_hdr 12 family) 4 (le_bytes 4 ifindex);
     go_put hdr 8 (le_bytes 4 filterMask) }"

definition BuildDumpStatsRequest :: "u8 \<Rightarrow> u32 \<Rightarrow> u32 \<Rightarrow> u32 \<Rightarrow> bytes option" where
  "BuildDumpStatsRequest family ifindex filterMask sq = do {
     hdr \<leftarrow> ifStatsHdr family ifindex filterMask;
     BuildDumpRequest 94 sq hdr }"

definition BuildGetStatsByIndexRequest :: "u32 \<Rightarrow> u32 \<Rightarrow> u32 \<Rightarrow> (nl_error + bytes) option" where
  "BuildGetStatsByIndexRequest ifindex filterMask sq = do {
     hdr \<leftarrow> ifStatsHdr 0 ifindex filterMask;
     BuildRequest 94 0 sq hdr [] }"

section \<open>Laid out bytes\<close>

text \<open>What a request looks like on the wire.\<close>

definition request_bytes :: "u16 \<Rightarrow> u16 \<Rightarrow> u32 \<Rightarrow> bytes \<Rightarrow> bytes \<Rightarrow> bytes" where
  "request_bytes t f sq hdr attrs =
     nlmsghdr_bytes \<lparr>nlh_Len = of_nat (16 + length hdr + length attrs), nlh_Type = t, nlh_Flags = f, nlh_Seq = sq, nlh_Pid = 0\<rparr>
     @ hdr @ attrs"

lemma le_bytes_0: "le_bytes n 0 = replicate n 0"
  by (induction n) simp_all

lemma layoutRequest_eq [simp]: "layoutRequest t f sq hdr attrs = Some (request_bytes t f sq hdr attrs)"
  unfolding layoutRequest_def Let_def NlMsgHdrSizeCst_def
  by (simp add: go_put_Some request_bytes_def nlmsghdr_bytes_def le_bytes_0 del: le_bytes.simps)

text \<open>An append that behaves as \<open>PutBytes\<close> of a given type and payload.\<close>

definition puts_attr :: "ab_op \<Rightarrow> u16 \<times> bytes \<Rightarrow> bool" where
  "puts_attr op tv \<longleftrightarrow> (\<forall>a. ab_n a \<le> length (ab_buf a) \<longrightarrow> op a = PutBytes (fst tv) (snd tv) a)"

lemma puts_attr_simps [simp]:
  "puts_attr (PutBytes t v) (t, v)" "puts_attr (PutU32 t w) (t, le_bytes 4 w)" "puts_attr (PutString t v) (t, v @ [0])"
  by (simp_all add: puts_attr_def pb.put_eq pu32.put_eq pstr.put_eq)

fun leaves :: "(bool \<times> u16 \<times> bytes) list \<Rightarrow> attr list" where
  "leaves [] = []"
| "leaves ((c, t, v) # xs) = (if c then [Leaf t v] else []) @ leaves xs"

lemma put_all_leaves:
  "list_all2 (\<lambda>(c, op) (c', tv). c = c' \<and> puts_attr op tv) ops specs \<Longrightarrow> ab_ok a \<Longrightarrow> fits_forest (leaves specs) \<Longrightarrow>
     length (enc_forest (leaves specs)) \<le> room a \<Longrightarrow>
     put_all ops a = Some (None, ab_append (enc_forest (leaves specs)) a)"
proof (induction ops specs arbitrary: a rule: list_all2_induct)
  case (Cons x ops y specs)
  obtain c op t v where xy: "x = (c, op)" "y = (c, t, v)" "puts_attr op (t, v)" using Cons by (cases x; cases y) auto
  show ?case
  proof (cases c)
    case True
    then have fit: "length v \<le> 65531" "fits_forest (leaves specs)"
        "length (enc_attr t v) + length (enc_forest (leaves specs)) \<le> room a"
      using Cons.prems xy by (simp_all del: length_enc_attr)
    have n: "ab_n a \<le> length (ab_buf a)" using Cons.prems by (simp add: ab_ok_def)
    have "op a = Some (None, ab_append (enc_attr t v) a)"
      using fit n xy(3) by (simp add: puts_attr_def pb.put_eq)
    moreover have "put_all ops (ab_append (enc_attr t v) a)
        = Some (None, ab_append (enc_forest (leaves specs)) (ab_append (enc_attr t v) a))"
      using fit n Cons.prems
      by (intro Cons.IH ab_append_ok enc_attr_aligned) (auto simp del: length_enc_attr)
    ultimately show ?thesis
      using fit n xy True by (simp add: ab_append_append del: length_enc_attr)
  next
    case False
    then show ?thesis using Cons xy by simp
  qed
qed simp

lemma attrs_of_leaves:
  assumes "list_all2 (\<lambda>(c, op) (c', tv). c = c' \<and> puts_attr op tv) ops specs" "fits_forest (leaves specs)"
    and "length (enc_forest (leaves specs)) \<le> n"
  shows "attrs_of n ops = Some (Inr (enc_forest (leaves specs)))"
proof -
  have "put_all ops (NewAttrBuilder (replicate n 0))
      = Some (None, ab_append (enc_forest (leaves specs)) (NewAttrBuilder (replicate n 0)))"
    using assms by (intro put_all_leaves) (simp_all add: ab_ok_def NewAttrBuilder_def room_def)
  then show ?thesis
    using assms by (simp add: attrs_of_def Bytes_def NewAttrBuilder_def ab_append_def go_slice_def)
qed

section \<open>Read-only requests\<close>

text \<open>A well-formed read request: a GET with the request flag, the family header of its
  type, and attributes the walker reads to the end.\<close>

definition read_request :: "bytes \<Rightarrow> bool" where
  "read_request b \<longleftrightarrow> (\<exists>t f sq hdr xs. b = request_bytes t (f OR NLM_F_REQUEST) sq hdr (enc_forest xs)
     \<and> IsGetRequestType t \<and> FamilyHdrLen t = int (length hdr) \<and> fits_forest xs)"

lemma BuildRequest_read:
  assumes "IsGetRequestType t" "FamilyHdrLen t = int (length hdr)" "fits_forest xs"
  shows "\<exists>b. BuildRequest t f sq hdr (enc_forest xs) = Some (Inr b) \<and> read_request b"
proof -
  have "read_request (request_bytes t (f OR NLM_F_REQUEST) sq hdr (enc_forest xs))"
    unfolding read_request_def using assms by blast
  then show ?thesis using assms by (simp add: BuildRequest_def IsBuildableRequestType_def)
qed

lemma BuildRequest_leaves:
  assumes "IsGetRequestType t" "FamilyHdrLen t = int (length hdr)"
    and "list_all2 (\<lambda>(c, op) (c', tv). c = c' \<and> puts_attr op tv) ops specs" "fits_forest (leaves specs)"
    and "length (enc_forest (leaves specs)) \<le> n"
  shows "\<exists>b. then_build (attrs_of n ops) (BuildRequest t f sq hdr) = Some (Inr b) \<and> read_request b"
  using BuildRequest_read [OF assms(1,2,4)] by (simp add: attrs_of_leaves [OF assms(3-5)] then_build_def)

lemma BuildDumpRequest_read:
  assumes "IsGetRequestType t" "FamilyHdrLen t = int (length hdr)"
  shows "\<exists>b. BuildDumpRequest t sq hdr = Some b \<and> read_request b"
proof -
  have "read_request (request_bytes t (NLM_F_DUMP OR NLM_F_REQUEST) sq hdr (enc_forest []))"
    using assms unfolding read_request_def by fastforce
  then show ?thesis
    using assms by (simp add: BuildDumpRequest_def IsBuildableRequestType_def or.commute)
qed

lemmas get_types = IsGetRequestType_def RTM_BASE_def FamilyHdrLen_def

lemma family_hdr_length [simp]: "0 < n \<Longrightarrow> length (family_hdr n family) = n"
  by (simp add: family_hdr_def)

lemma ifStatsHdr_length: "\<exists>hdr. ifStatsHdr family ifindex m = Some hdr \<and> length hdr = 12"
  by (simp add: ifStatsHdr_def go_put_Some)

lemma pads: "pad4 8 = 0" "pad4 4 = 0"
  by (simp_all add: pad4_mod)

text \<open>What a builder's result must be.\<close>

definition reads :: "(nl_error + bytes) option \<Rightarrow> bool" where
  "reads r \<longleftrightarrow> (\<exists>b. r = Some (Inr b) \<and> read_request b)"

lemma reads_leaves:
  assumes "IsGetRequestType t" "FamilyHdrLen t = int (length hdr)"
    and "list_all2 (\<lambda>(c, op) (c', tv). c = c' \<and> puts_attr op tv) ops specs" "fits_forest (leaves specs)"
    and "length (enc_forest (leaves specs)) \<le> 32"
  shows "reads (then_build (attrs_of reqAttrBufCst ops) (BuildRequest t f sq hdr))"
  using BuildRequest_leaves [OF assms(1-4)] assms(5) by (simp add: reads_def reqAttrBufCst_def)

lemma reads_plain:
  "IsGetRequestType t \<Longrightarrow> FamilyHdrLen t = int (length hdr) \<Longrightarrow> reads (BuildRequest t f sq hdr [])"
  using BuildRequest_read [of t hdr "[]" f sq] by (simp add: reads_def)

lemma reads_empty:
  "IsGetRequestType t \<Longrightarrow> FamilyHdrLen t = int (length hdr) \<Longrightarrow> reads (then_build (Some (Inr [])) (BuildRequest t f sq hdr))"
  by (simp add: then_build_def reads_plain)

lemma reads_ext: "length hdr = 16 \<Longrightarrow> reads (then_build (extMaskAttrs w) (BuildRequest 18 f sq hdr))"
  using reads_leaves [of 18 hdr "[(True, PutU32 29 w)]" "[(True, 29, le_bytes 4 w)]"]
  by (simp add: extMaskAttrs_def reads_empty get_types pads)

lemma reads_route: "reads (BuildDumpRouteRequestFilterProto family p w w' sq)"
  using reads_leaves [of 26 "(family_hdr 12 family)[5 := p]" "[(w \<noteq> 0, PutU32 15 w), (w' \<noteq> 0, PutU32 4 w')]"
      "[(w \<noteq> 0, 15, le_bytes 4 w), (w' \<noteq> 0, 4, le_bytes 4 w')]"]
  by (simp add: BuildDumpRouteRequestFilterProto_def reads_empty get_types pads)

lemma reads_nexthop_id: "reads (BuildGetNexthopByIDRequest family w sq)"
  unfolding BuildGetNexthopByIDRequest_def
  by (rule reads_leaves [where specs = "[(True, 1, le_bytes 4 w), (True, 14, le_bytes 4 (0 :: u32))]"]) (simp_all add: get_types pads)

lemma reads_nexthop_dump: "reads (BuildGetNexthopDumpRequest family nf sq)"
  unfolding BuildGetNexthopDumpRequest_def
  by (rule reads_leaves [where specs = "[(nf_OIF nf \<noteq> 0, 5, le_bytes 4 (nf_OIF nf)), (nf_Groups nf, 9, []),
      (nf_Master nf \<noteq> 0, 10, le_bytes 4 (nf_Master nf)), (nf_Fdb nf, 11, [])]"]) (simp_all add: get_types pads)

lemma reads_neigh: "reads (BuildDumpNeighRequestFilter family p w sq)"
  using reads_leaves [of 30 "(family_hdr 12 family)[10 := p]" "[(True, PutU32 8 w)]" "[(True, 8, le_bytes 4 w)]"]
  by (simp add: BuildDumpNeighRequestFilter_def reads_empty get_types pads)

lemma reads_netconf: "reads (BuildGetNetconfByIndexRequest family w sq)"
  unfolding BuildGetNetconfByIndexRequest_def
  by (rule reads_leaves [where specs = "[(True, 1, le_bytes 4 w)]"]) (simp_all add: get_types pads)

lemma reads_link_index: "reads (BuildGetLinkByIndexRequest family w w' sq)"
  by (simp add: BuildGetLinkByIndexRequest_def go_put_Some reads_ext)

lemma reads_stats: "reads (BuildGetStatsByIndexRequest w w' sq)"
  using ifStatsHdr_length [of 0 w w'] by (auto simp: BuildGetStatsByIndexRequest_def get_types intro!: reads_plain)

lemma dump_reads:
  "\<exists>b. BuildDumpAddrRequestIndex family w sq = Some b \<and> read_request b"
  "\<exists>b. BuildDumpStatsRequest family w w' sq = Some b \<and> read_request b"
  using ifStatsHdr_length [of family w w']
  by (auto simp: BuildDumpAddrRequestIndex_def BuildDumpStatsRequest_def go_put_Some get_types intro!: BuildDumpRequest_read)

lemma name_room: "validIfName name \<Longrightarrow> length name < 16 \<and> 5 + length name + pad4 (5 + length name) \<le> 20"
  using pad4_round_le [of 20 "5 + length name"] by (simp add: validIfName_def IfNameSizeCst_def)

text \<open>A single append into a fresh buffer, on every length.\<close>

lemma attrs_of_one:
  "attrs_of n [(True, PutBytes t v)] =
    (if length v > 65531 then Some (Inl ErrAttrTooLong)
     else if length (enc_attr t v) > n then Some (Inl ErrAttrNoSpace) else Some (Inr (enc_attr t v)))"
  by (simp add: attrs_of_def pb.put_eq NewAttrBuilder_def room_def ab_append_def Bytes_def go_slice_def
      del: length_enc_attr)

lemma length_enc_nested: "length (enc_attr t (enc_attr t' v)) = 4 + length (enc_attr t' v)"
proof -
  have "(4 + length (enc_attr t' v)) mod 4 = 0"
    using enc_attr_aligned [of t' v] by (simp add: mod_add_eq [symmetric] del: length_enc_attr)
  then have "pad4 (4 + length (enc_attr t' v)) = 0" by (simp add: pad4_mod del: length_enc_attr)
  then show ?thesis by (simp only: length_enc_attr)
qed

lemma length_enc_u32: "length (enc_attr t (le_bytes 4 (w :: u32))) = 8"
  by (simp add: pads)

lemma reads_nest:
  assumes "length v \<le> 65524" "length hdr = 16" "fits_forest pre"
  shows "reads (BuildRequest 18 f sq hdr (enc_forest (pre @ [Nest 18 [Leaf 1 v]])))"
proof -
  have "fits_forest (pre @ [Nest 18 [Leaf 1 v]])"
  proof -
    have "4 + length v + pad4 (4 + length v) \<le> 65528" using assms pad4_round_le [of 65528 "4 + length v"] by simp
    then show ?thesis using assms by (induction pre) auto
  qed
  then show ?thesis using assms BuildRequest_read [of 18 hdr] by (simp add: reads_def get_types)
qed

lemma kind_dump:
  "if length kind \<le> 24 then reads (BuildDumpLinkRequestKind family kind sq)
   else if length kind \<le> 65531 then BuildDumpLinkRequestKind family kind sq = Some (Inl ErrAttrNoSpace)
   else BuildDumpLinkRequestKind family kind sq = Some (Inl ErrAttrTooLong)"
proof -
  have room: "4 + length kind + pad4 (4 + length kind) \<le> 28 \<longleftrightarrow> length kind \<le> 24"
    using pad4_round_le [of 28 "4 + length kind"] by auto
  note inner = length_enc_nested [of 18 1 kind]
  show ?thesis
  proof (cases "length kind \<le> 24")
    case True
    then have "linkInfoKindAttrs kind = Some (Inr (enc_forest ([] @ [Nest 18 [Leaf 1 kind]])))"
      using room length_enc_attr [of 1 kind]
      by (simp add: linkInfoKindAttrs_def then_build_def attrs_of_one inner reqAttrBufCst_def del: length_enc_attr)
    then show ?thesis
      using True reads_nest [of kind "family_hdr 16 family" "[]" NLM_F_DUMP sq]
      by (simp add: BuildDumpLinkRequestKind_def then_build_def)
  next
    case False
    then have "28 < length (enc_attr 1 kind)" using room by simp
    then have "linkInfoKindAttrs kind = Some (Inl (if length kind \<le> 65531 then ErrAttrNoSpace else ErrAttrTooLong))"
      using False
      by (cases "32 < length (enc_attr 1 kind)")
        (simp_all add: linkInfoKindAttrs_def then_build_def attrs_of_one inner reqAttrBufCst_def del: length_enc_attr)
    then show ?thesis using False by (simp add: BuildDumpLinkRequestKind_def then_build_def)
  qed
qed

lemma kind_filter:
  assumes "length kind \<le> 65524"
  shows "reads (BuildDumpLinkRequestFilter family w w' kind hasKind sq)"
proof -
  have size: "4 + nat (nlmsgAlign (int (length kind))) = length (enc_attr 1 kind)"
  proof -
    have "nlmsgAlign (int (length kind)) = int (length kind + pad4 (length kind))"
      by (simp add: nlmsgAlign_eq_padding int_pad4)
    moreover have "pad4 (4 + length kind) = pad4 (length kind)" by (simp add: pad4_mod)
    ultimately show ?thesis by (simp del: of_nat_add)
  qed
  have pk: "puts_attr (put_kind kind) (18, enc_attr 1 kind)"
    using assms unfolding put_kind_def puts_attr_def RTAttrSizeCst_def size attrs_of_one by simp
  have fit: "4 + length kind + pad4 (4 + length kind) \<le> 65531" using assms pad4_round_le [of 65528 "4 + length kind"] by simp
  let ?specs = "[(True, 29, le_bytes 4 w), (w' \<noteq> 0, 10, le_bytes 4 w'), (hasKind, 18, enc_attr 1 kind)]"
  have "reads (then_build (attrs_of n [(True, PutU32 29 w), (w' \<noteq> 0, PutU32 10 w'), (hasKind, put_kind kind)])
      (BuildRequest 18 NLM_F_DUMP sq (family_hdr 16 family)))" if "length (enc_forest (leaves ?specs)) \<le> n" for n
    unfolding reads_def using pk fit that by (intro BuildRequest_leaves [where specs = ?specs]) (auto simp: get_types)
  moreover have "reads (do { b \<leftarrow> BuildDumpLinkRequestFamily family sq; Some (Inr b) })"
    using BuildDumpRequest_read [of 18 "family_hdr 16 family" sq]
    by (auto simp: reads_def BuildDumpLinkRequestFamily_def get_types)
  ultimately show ?thesis
    using size
    by (auto simp: BuildDumpLinkRequestFilter_def RTAttrSizeCst_def Let_def length_enc_nested length_enc_u32 simp del: length_enc_attr)
qed

section \<open>Properties\<close>


text \<open>The read gate and the write gate never overlap. No message type is accepted by
  both, so \<open>BuildRequest\<close> and the attribute-free dump builder never produce a message of a
  type that writes, for any type, flags, header and attributes.\<close>

theorem gates_disjoint:
  "\<not> (IsBuildableRequestType t \<and> IsAdmittedWriteType t)
   \<and> (BuildRequest t f sq hdr attrs = Some (Inr b) \<longrightarrow> BuildWriteRequest t f' sq' hdr' attrs' = Some (Inl ErrNotAnAdmittedWrite))
   \<and> (IsAdmittedWriteType t \<longrightarrow> BuildDumpRequest t sq hdr = Some [])"
proof -
  have "\<not> IsGetRequestType t" "t \<noteq> 1" if "IsAdmittedWriteType t"
    using that by (auto simp: IsAdmittedWriteType_def IsGetRequestType_def RTM_BASE_def)
  then have "\<not> (IsBuildableRequestType t \<and> IsAdmittedWriteType t)"
    by (auto simp: IsBuildableRequestType_def NLMSG_NOOP_def)
  then show ?thesis
    by (auto simp: BuildRequest_def BuildWriteRequest_def BuildDumpRequest_def split: if_splits)
qed

theorem gates_disjoint_witness:
  "BuildWriteRequest 18 0 1 (replicate 16 0) [] = Some (Inl ErrNotAnAdmittedWrite) \<and> BuildDumpRequest 24 1 [] = Some []"
proof -
  have "BuildRequest 18 0 1 (replicate 16 0) [] = Some (Inr (request_bytes 18 1 1 (replicate 16 0) []))"
    by (simp add: BuildRequest_def IsBuildableRequestType_def IsGetRequestType_def RTM_BASE_def NLMSG_NOOP_def
        FamilyHdrLen_def NLM_F_REQUEST_def)
  moreover have "IsAdmittedWriteType 24" by (simp add: IsAdmittedWriteType_def)
  ultimately show ?thesis
    using gates_disjoint [of 18 0 1 "replicate 16 0" "[]" _ 0 1 "replicate 16 0" "[]"] gates_disjoint [of 24] by blast
qed

text \<open>C29: a request reads back as it was asked for. The bytes of an accepted request below
  four gigabytes carry the length of the whole message, the type, the flags with the
  request flag added, the sequence number and a zero port id; the family header follows
  with the length its type requires, and the attributes follow it unchanged.\<close>

theorem request_layout:
  assumes "BuildRequest t f sq hdr attrs = Some (Inr b)" "16 + length hdr + length attrs < 2 ^ 32"
  shows "unat (nlh_Len (nlmsghdr_of b)) = length b \<and> nlh_Type (nlmsghdr_of b) = t
    \<and> nlh_Flags (nlmsghdr_of b) = f OR 1 \<and> nlh_Seq (nlmsghdr_of b) = sq \<and> nlh_Pid (nlmsghdr_of b) = 0
    \<and> drop 16 b = hdr @ attrs \<and> (0 \<le> FamilyHdrLen t \<longrightarrow> drop (16 + nat (FamilyHdrLen t)) b = attrs)"
proof -
  have "b = request_bytes t (f OR 1) sq hdr attrs" "0 \<le> FamilyHdrLen t \<longrightarrow> FamilyHdrLen t = int (length hdr)"
    using assms(1) by (auto simp: BuildRequest_def NLM_F_REQUEST_def Let_def split: if_splits)
  then show ?thesis
    using assms(2) by (auto simp: request_bytes_def unat_of_nat take_bit_eq_mod simp del: of_nat_add)
qed

theorem request_layout_witness:
  "drop 16 (request_bytes 18 1 7 (family_hdr 16 17) [8, 0, 29, 0, 9, 0, 0, 0]) = family_hdr 16 17 @ [8, 0, 29, 0, 9, 0, 0, 0]"
proof -
  have "BuildRequest 18 0 7 (family_hdr 16 17) [8, 0, 29, 0, 9, 0, 0, 0]
      = Some (Inr (request_bytes 18 1 7 (family_hdr 16 17) [8, 0, 29, 0, 9, 0, 0, 0]))"
    by (simp add: BuildRequest_def IsBuildableRequestType_def IsGetRequestType_def RTM_BASE_def NLMSG_NOOP_def
        FamilyHdrLen_def NLM_F_REQUEST_def)
  from request_layout [OF this] show ?thesis by simp
qed

text \<open>The link builders that take a name or a kind. A name lookup succeeds exactly for a
  valid interface name, in both attribute orders. The nested kind of a plain dump fails
  for lack of space exactly when the kind is longer than 24 bytes, where the filtering
  dump, which sizes its buffer, still succeeds.\<close>

theorem link_builders_by_name:
  "(if validIfName name
    then reads (BuildGetLinkByNameRequest family name w sq) \<and> reads (BuildIplinkGetRequest family name w sq)
    else BuildGetLinkByNameRequest family name w sq = Some (Inl ErrBadIfName)
      \<and> BuildIplinkGetRequest family name w sq = Some (Inl ErrBadIfName))
   \<and> (if length kind \<le> 24 then reads (BuildDumpLinkRequestKind family kind sq)
      else if length kind \<le> 65531 then BuildDumpLinkRequestKind family kind sq = Some (Inl ErrAttrNoSpace)
      else BuildDumpLinkRequestKind family kind sq = Some (Inl ErrAttrTooLong))
   \<and> (length kind \<le> 65524 \<longrightarrow> reads (BuildDumpLinkRequestFilter family w w' kind hasKind sq))"
proof -
  have "validIfName name \<Longrightarrow> reads (BuildGetLinkByNameRequest family name w sq)"
    using reads_leaves [of 18 "family_hdr 16 family" "[(w \<noteq> 0, PutU32 29 w), (True, PutString 3 name)]"
        "[(w \<noteq> 0, 29, le_bytes 4 w), (True, 3, name @ [0])]"] name_room [of name]
    by (auto simp: BuildGetLinkByNameRequest_def get_types pads)
  moreover have "validIfName name \<Longrightarrow> reads (BuildIplinkGetRequest family name w sq)"
    using reads_leaves [of 18 "family_hdr 16 family" "[(True, PutString 3 name), (True, PutU32 29 w)]"
        "[(True, 3, name @ [0]), (True, 29, le_bytes 4 w)]"] name_room [of name]
    by (auto simp: BuildIplinkGetRequest_def get_types pads)
  ultimately show ?thesis
    using kind_dump [of kind family sq] kind_filter [of kind family w w' hasKind sq]
    by (auto simp: BuildGetLinkByNameRequest_def BuildIplinkGetRequest_def)
qed

theorem link_builders_by_name_witness:
  "reads (BuildDumpLinkRequestFilter 0 9 0 (replicate 30 97) True 1)
   \<and> BuildDumpLinkRequestKind 0 (replicate 30 97) 1 = Some (Inl ErrAttrNoSpace)"
  using link_builders_by_name [where kind = "replicate 30 97" and family = 0 and w = 9 and w' = 0 and hasKind = True and sq = 1]
  by simp

end
