(* ===== verification/Rtnl_Dump.thy ===== *)
theory Rtnl_Dump
  imports Rtnl_Request
begin

text \<open>
  The reply side of rtnetlink (\<open>xtcpnl_rtnetlink.go\<close>, \<open>xtcpnl_envelope.go\<close>): the walk over
  the messages of one datagram, the dump driver that reads datagrams until the end of
  the dump, the single request, and the strict walk. The kernel is a list of what each
  \<open>recvfrom\<close> returns; an empty list is a call that waits for ever.
\<close>

section \<open>Status of a message\<close>

text \<open>\<open>syscall.Errno(-errno)\<close> converts the negated \<open>int32\<close>, sign extended.\<close>

definition netlinkErr :: "bytes \<Rightarrow> nl_error option option" where
  "netlinkErr body =
     (if length body < 4 then Some (Some ErrNetlinkError)
      else do {
        errno \<leftarrow> LE_Uint32 body 0 4;
        Some (if errno = 0 then None else Some (ErrErrno (scast (- errno)))) })"

definition DoneErr :: "bytes \<Rightarrow> nl_error option option" where
  "DoneErr body =
     (if length body < 4 then Some None
      else do {
        errno \<leftarrow> LE_Uint32 body 0 4;
        if 0 \<le> sint errno then Some None else netlinkErr body })"

section \<open>The walk over a datagram\<close>

type_synonym 's on_msg = "NlMsgHdr \<Rightarrow> bytes \<Rightarrow> 's \<Rightarrow> nl_error option \<times> 's"

definition zero_hdr :: NlMsgHdr where
  "zero_hdr = \<lparr>nlh_Len = 0, nlh_Type = 0, nlh_Flags = 0, nlh_Seq = 0, nlh_Pid = 0\<rparr>"

function walk_msgs ::
    "u32 \<Rightarrow> 's on_msg option \<Rightarrow> bool \<Rightarrow> bool \<Rightarrow> bytes \<Rightarrow> 's \<Rightarrow> ((bool \<times> nl_error option) \<times> 's) option" where
  "walk_msgs sq onMsg doneErr interrupted data s =
     (if length data < NlMsgHdrSizeCst
      then Some ((False, if interrupted then Some ErrDumpInterrupted else None), s)
      else do {
        (h, res) \<leftarrow> DeserializeNlMsgHdr data zero_hdr;
        case res of
          Inl derr \<Rightarrow> Some ((False, Some derr), s)
        | Inr _ \<Rightarrow>
            let msgLen = unat (nlh_Len h) in
            if msgLen < NlMsgHdrSizeCst \<or> msgLen > length data then Some ((False, Some ErrBadMsgLen), s)
            else do {
              body \<leftarrow> go_slice data NlMsgHdrSizeCst msgLen;
              let adv = msgLen + pad4 msgLen;
              let adv = (if adv > length data then length data else adv);
              data' \<leftarrow> go_slice_from data adv;
              if nlh_Seq h \<noteq> sq then walk_msgs sq onMsg doneErr interrupted data' s
              else
                let interrupted = (interrupted \<or> nlh_Flags h AND NLM_F_DUMP_INTR \<noteq> 0) in
                if nlh_Type h = NLMSG_DONE then
                  (if interrupted then Some ((True, Some ErrDumpInterrupted), s)
                   else if doneErr then do { e \<leftarrow> DoneErr body; Some ((True, e), s) }
                   else Some ((True, None), s))
                else if nlh_Type h = NLMSG_ERROR then
                  (if interrupted then Some ((True, Some ErrDumpInterrupted), s)
                   else do { e \<leftarrow> netlinkErr body; Some ((True, e), s) })
                else if nlh_Type h = NLMSG_NOOP then walk_msgs sq onMsg doneErr interrupted data' s
                else
                  (case (if interrupted then None else onMsg) of
                     None \<Rightarrow> walk_msgs sq onMsg doneErr interrupted data' s
                   | Some f \<Rightarrow>
                       (case f h body s of
                          (Some cerr, s) \<Rightarrow> Some ((False, Some cerr), s)
                        | (None, s) \<Rightarrow> walk_msgs sq onMsg doneErr interrupted data' s)) } })"
  by pat_completeness auto
termination
  by (relation "measure (\<lambda>(sq, f, de, i, data, s). length data)")
    (auto simp: go_slice_from_def go_slice_def NlMsgHdrSizeCst_def split: if_splits)

declare walk_msgs.simps [simp del]

definition walkNlMsgsHdr ::
    "bytes \<Rightarrow> u32 \<Rightarrow> 's on_msg option \<Rightarrow> bool \<Rightarrow> 's \<Rightarrow> ((bool \<times> nl_error option) \<times> 's) option" where
  "walkNlMsgsHdr data sq onMsg doneErr s =
     (if length data < NlMsgHdrSizeCst then Some ((False, Some ErrShortRecv), s)
      else walk_msgs sq onMsg doneErr False data s)"

definition WalkNlMsgsHdr :: "bytes \<Rightarrow> u32 \<Rightarrow> 's on_msg option \<Rightarrow> 's \<Rightarrow> ((bool \<times> nl_error option) \<times> 's) option" where
  "WalkNlMsgsHdr data sq onMsg s = walkNlMsgsHdr data sq onMsg False s"

definition typeOnly :: "(u16 \<Rightarrow> bytes \<Rightarrow> 's \<Rightarrow> nl_error option \<times> 's) option \<Rightarrow> 's on_msg option" where
  "typeOnly onMsg = map_option (\<lambda>f h body. f (nlh_Type h) body) onMsg"

definition WalkNlMsgs ::
    "bytes \<Rightarrow> u32 \<Rightarrow> (u16 \<Rightarrow> bytes \<Rightarrow> 's \<Rightarrow> nl_error option \<times> 's) option \<Rightarrow> 's \<Rightarrow> ((bool \<times> nl_error option) \<times> 's) option" where
  "WalkNlMsgs data sq onMsg s = WalkNlMsgsHdr data sq (typeOnly onMsg) s"

section \<open>The dump driver\<close>

datatype sockaddr = SockaddrNetlink u32 | OtherAddr

definition fromKernel :: "sockaddr \<Rightarrow> bool" where
  "fromKernel from = (case from of SockaddrNetlink pid \<Rightarrow> pid = 0 | OtherAddr \<Rightarrow> True)"

datatype recv = RecvErr | Datagram sockaddr bytes

definition rtnetlinkRecvBufCst :: nat where
  "rtnetlinkRecvBufCst = 64 * 1024"

text \<open>The outcome of a driver: it waits on an empty socket, or it returns. What is left on
  the socket and the callback's state come with it.\<close>

datatype 'r outcome = Waiting | Returned 'r

fun dump_loop ::
    "u32 \<Rightarrow> 's on_msg option \<Rightarrow> bool \<Rightarrow> bool \<Rightarrow> recv list \<Rightarrow> 's \<Rightarrow> (nl_error option outcome \<times> recv list \<times> 's) option" where
  "dump_loop sq onMsg doneErr interrupted [] s = Some (Waiting, [], s)"
| "dump_loop sq onMsg doneErr interrupted (RecvErr # rs) s = Some (Returned (Some ErrRecv), rs, s)"
| "dump_loop sq onMsg doneErr interrupted (Datagram from bs # rs) s =
     (if \<not> fromKernel from then dump_loop sq onMsg doneErr interrupted rs s
      else do {
        ((fin, werr), s) \<leftarrow> walkNlMsgsHdr (take rtnetlinkRecvBufCst bs) sq
          (if interrupted then None else onMsg) doneErr s;
        if werr \<noteq> None \<and> werr \<noteq> Some ErrDumpInterrupted then Some (Returned werr, rs, s)
        else
          let interrupted = (interrupted \<or> werr = Some ErrDumpInterrupted) in
          if fin then Some (Returned (if interrupted then Some ErrDumpInterrupted else None), rs, s)
          else dump_loop sq onMsg doneErr interrupted rs s })"

definition dumpRtnetlinkMsgs ::
    "bytes \<Rightarrow> bool \<Rightarrow> recv list \<Rightarrow> 's on_msg option \<Rightarrow> bool \<Rightarrow> 's \<Rightarrow> (nl_error option outcome \<times> recv list \<times> 's) option" where
  "dumpRtnetlinkMsgs request sendFails recvs onMsg doneErr s =
     (if length request < NlMsgHdrSizeCst then Some (Returned (Some ErrShortRequest), recvs, s)
      else do {
        sq \<leftarrow> LE_Uint32 request 8 12;
        if sendFails then Some (Returned (Some ErrSend), recvs, s)
        else dump_loop sq onMsg doneErr False recvs s })"

definition DumpRtnetlinkMsgs where
  "DumpRtnetlinkMsgs request sendFails recvs onMsg = dumpRtnetlinkMsgs request sendFails recvs onMsg False"

definition DumpRtnetlinkMsgsDoneErr where
  "DumpRtnetlinkMsgsDoneErr request sendFails recvs onMsg = dumpRtnetlinkMsgs request sendFails recvs onMsg True"

definition DumpRtnetlink where
  "DumpRtnetlink request sendFails recvs onMsg =
     DumpRtnetlinkMsgs request sendFails recvs (typeOnly onMsg)"

section \<open>The single request\<close>

text \<open>The callback keeps the first message and stops the walk.\<close>

definition talk_stop :: "(u16 \<times> bytes) on_msg" where
  "talk_stop h body s = (Some errTalkStopCst, (nlh_Type h, body))"

fun talk_loop :: "u32 \<Rightarrow> recv list \<Rightarrow> ((nl_error option \<times> u16 \<times> bytes) outcome \<times> recv list) option" where
  "talk_loop sq [] = Some (Waiting, [])"
| "talk_loop sq (RecvErr # rs) = Some (Returned (Some ErrRecv, 0, []), rs)"
| "talk_loop sq (Datagram from bs # rs) =
     (if \<not> fromKernel from then talk_loop sq rs
      else do {
        ((fin, werr), got) \<leftarrow> walkNlMsgsHdr (take rtnetlinkRecvBufCst bs) sq (Some talk_stop) False (0, []);
        if werr = Some errTalkStopCst then Some (Returned (None, got), rs)
        else if werr \<noteq> None then Some (Returned (werr, 0, []), rs)
        else if fin then Some (Returned (None, 0, []), rs)
        else talk_loop sq rs })"

definition TalkRtnetlink ::
    "bytes \<Rightarrow> bool \<Rightarrow> recv list \<Rightarrow> ((nl_error option \<times> u16 \<times> bytes) outcome \<times> recv list) option" where
  "TalkRtnetlink request sendFails recvs =
     (if length request < NlMsgHdrSizeCst then Some (Returned (Some ErrShortRequest, 0, []), recvs)
      else do {
        sq \<leftarrow> LE_Uint32 request 8 12;
        if sendFails then Some (Returned (Some ErrSend, 0, []), recvs) else talk_loop sq recvs })"

section \<open>The strict walk\<close>

datatype NetlinkControl = NetlinkData | NetlinkACK | NetlinkError | NetlinkDone | NetlinkNoop | NetlinkOverrun

record NetlinkEnvelope =
  en_Header :: NlMsgHdr
  en_Body :: bytes
  en_Control :: NetlinkControl
  en_Code :: u32

definition classify :: "NetlinkEnvelope \<Rightarrow> (nl_error option \<times> NetlinkEnvelope) option" where
  "classify e =
     (let t = nlh_Type (en_Header e); body = en_Body e in
      if t = NLMSG_ERROR then
        (if length body < 4 then Some (Some ErrNetlinkError, e)
         else do {
           c \<leftarrow> LE_Uint32 body 0 (length body);
           Some (None, e\<lparr>en_Code := c, en_Control := (if c = 0 then NetlinkACK else NetlinkError)\<rparr>) })
      else if t = NLMSG_DONE then
        (let e = e\<lparr>en_Control := NetlinkDone\<rparr> in
         if body = [] then Some (None, e)
         else if length body < 4 then Some (Some ErrNetlinkError, e)
         else do { c \<leftarrow> LE_Uint32 body 0 (length body); Some (None, e\<lparr>en_Code := c\<rparr>) })
      else if t = NLMSG_NOOP then Some (None, e\<lparr>en_Control := NetlinkNoop\<rparr>)
      else if t = NLMSG_OVERRUN then Some (None, e\<lparr>en_Control := NetlinkOverrun\<rparr>)
      else Some (None, e\<lparr>en_Control := NetlinkData\<rparr>))"

function walk_envelopes ::
    "(NetlinkEnvelope \<Rightarrow> 's \<Rightarrow> nl_error option \<times> 's) option \<Rightarrow> bytes \<Rightarrow> 's \<Rightarrow> (nl_error option \<times> 's) option" where
  "walk_envelopes visit data s =
     (if data = [] then Some (None, s)
      else do {
        (h, res) \<leftarrow> DeserializeNlMsgHdr data zero_hdr;
        case res of
          Inl err \<Rightarrow> Some (Some err, s)
        | Inr _ \<Rightarrow>
            let n = unat (nlh_Len h) in
            if n < NlMsgHdrSizeCst \<or> n > length data then Some (Some ErrBadMsgLen, s)
            else do {
              body \<leftarrow> go_slice data NlMsgHdrSizeCst n;
              (cerr, e) \<leftarrow> classify \<lparr>en_Header = h, en_Body = body, en_Control = NetlinkData, en_Code = 0\<rparr>;
              case cerr of
                Some err \<Rightarrow> Some (Some err, s)
              | None \<Rightarrow>
                  let advance = n + pad4 n in
                  if n \<noteq> length data \<and> advance > length data then Some (Some ErrBadMsgLen, s)
                  else do {
                    data' \<leftarrow> go_slice_from data (if n = length data then n else advance);
                    case visit of
                      None \<Rightarrow> walk_envelopes visit data' s
                    | Some f \<Rightarrow>
                        (case f e s of
                           (Some err, s) \<Rightarrow> Some (Some err, s)
                         | (None, s) \<Rightarrow> walk_envelopes visit data' s) } } })"
  by pat_completeness auto
termination
  by (relation "measure (\<lambda>(visit, data, s). length data)")
    (auto simp: go_slice_from_def go_slice_def NlMsgHdrSizeCst_def split: if_splits)

declare walk_envelopes.simps [simp del]

definition WalkNetlinkEnvelopes ::
    "bytes \<Rightarrow> (NetlinkEnvelope \<Rightarrow> 's \<Rightarrow> nl_error option \<times> 's) option \<Rightarrow> 's \<Rightarrow> (nl_error option \<times> 's) option" where
  "WalkNetlinkEnvelopes data visit s =
     (if length data < NlMsgHdrSizeCst then Some (Some ErrShortRecv, s) else walk_envelopes visit data s)"

section \<open>Messages and their bytes\<close>

type_synonym nlmsg = "NlMsgHdr \<times> bytes"

definition wf_msg :: "nlmsg \<Rightarrow> bool" where
  "wf_msg m \<longleftrightarrow> unat (nlh_Len (fst m)) = 16 + length (snd m)"

definition enc_msg :: "nlmsg \<Rightarrow> bytes" where
  "enc_msg m = nlmsghdr_bytes (fst m) @ snd m @ replicate (pad4 (16 + length (snd m))) 0"

definition enc_msgs :: "nlmsg list \<Rightarrow> bytes" where
  "enc_msgs ms = concat (map enc_msg ms)"

lemma enc_msgs_simps [simp]: "enc_msgs [] = []" "enc_msgs (m # ms) = enc_msg m @ enc_msgs ms"
  by (simp_all add: enc_msgs_def)

lemma length_enc_msg: "length (enc_msg m) = 16 + length (snd m) + pad4 (16 + length (snd m))"
  by (simp add: enc_msg_def)

lemma enc_msg_parts:
  assumes "wf_msg m"
  shows "nlmsghdr_of (enc_msg m @ rest) = fst m" "16 \<le> length (enc_msg m @ rest)"
    "16 + length (snd m) + pad4 (16 + length (snd m)) \<le> length (enc_msg m @ rest)"
    "take (length (snd m)) (drop 16 (enc_msg m @ rest)) = snd m"
    "drop (16 + length (snd m) + pad4 (16 + length (snd m))) (enc_msg m @ rest) = rest"
  by (simp_all add: enc_msg_def)

text \<open>The walk on messages rather than bytes.\<close>

definition intr :: "nlmsg \<Rightarrow> bool" where
  "intr m \<longleftrightarrow> nlh_Flags (fst m) AND NLM_F_DUMP_INTR \<noteq> 0"

fun consume :: "u32 \<Rightarrow> 's on_msg option \<Rightarrow> bool \<Rightarrow> bool \<Rightarrow> nlmsg list \<Rightarrow> 's \<Rightarrow> ((bool \<times> nl_error option) \<times> 's) option" where
  "consume sq f de i [] s = Some ((False, if i then Some ErrDumpInterrupted else None), s)"
| "consume sq f de i (m # ms) s =
     (if nlh_Seq (fst m) \<noteq> sq then consume sq f de i ms s
      else let i = (i \<or> intr m); t = nlh_Type (fst m) in
        if t = 3 then
          (if i then Some ((True, Some ErrDumpInterrupted), s)
           else if de then map_option (\<lambda>e. ((True, e), s)) (DoneErr (snd m)) else Some ((True, None), s))
        else if t = 2 then
          (if i then Some ((True, Some ErrDumpInterrupted), s) else map_option (\<lambda>e. ((True, e), s)) (netlinkErr (snd m)))
        else if t = 1 then consume sq f de i ms s
        else (case (if i then None else f) of
            None \<Rightarrow> consume sq f de i ms s
          | Some g \<Rightarrow> (case g (fst m) (snd m) s of
              (Some e, s) \<Rightarrow> Some ((False, Some e), s) | (None, s) \<Rightarrow> consume sq f de i ms s)))"

lemma bind_Some_map: "(x \<bind> (\<lambda>e. Some (g e))) = map_option g x"
  by (cases x) simp_all

lemma walk_msgs_enc:
  "list_all wf_msg ms \<Longrightarrow> walk_msgs sq f de i (enc_msgs ms) s = consume sq f de i ms s"
proof (induction ms arbitrary: f i s)
  case Nil
  then show ?case by (simp add: walk_msgs.simps NlMsgHdrSizeCst_def)
next
  case (Cons m ms)
  then have wf: "wf_msg m" by simp
  note parts = enc_msg_parts [OF wf, of "enc_msgs ms"]
  have len: "unat (nlh_Len (fst m)) = 16 + length (snd m)" using wf by (simp add: wf_msg_def)
  have slices: "go_slice (enc_msg m @ enc_msgs ms) 16 (16 + length (snd m)) = Some (snd m)"
      "go_slice_from (enc_msg m @ enc_msgs ms) (16 + length (snd m) + pad4 (16 + length (snd m))) = Some (enc_msgs ms)"
    using parts by (simp_all add: go_slice_Some go_slice_from_Some)
  have wfs: "list_all wf_msg ms" using Cons by simp
  note IH = Cons.IH [OF wfs]
  show ?case
    using parts(2,3)
    by (simp add: walk_msgs.simps [of _ _ _ _ "enc_msg m @ _"] NlMsgHdrSizeCst_def DeserializeNlMsgHdr_ok parts(1) len
        slices IH Let_def NLMSG_DONE_def NLMSG_ERROR_def NLMSG_NOOP_def intr_def bind_Some_map
        split: option.split prod.split)
qed

lemma walkNlMsgsHdr_enc:
  "list_all wf_msg ms \<Longrightarrow> ms \<noteq> [] \<Longrightarrow> walkNlMsgsHdr (enc_msgs ms) sq f de s = consume sq f de False ms s"
  using walk_msgs_enc [of ms sq f de False s]
  by (cases ms) (simp_all add: walkNlMsgsHdr_def NlMsgHdrSizeCst_def length_enc_msg del: consume.simps)

lemma consume_filter:
  "consume sq f de i ms s = consume sq f de i (filter (\<lambda>m. nlh_Seq (fst m) = sq) ms) s"
  by (induction ms arbitrary: f i s) (simp_all add: Let_def split: option.split prod.split)

text \<open>The recording callback of the dump theorems.\<close>

definition record_msg :: "nlmsg list on_msg" where
  "record_msg h body s = (None, s @ [(h, body)])"

definition is_data :: "nlmsg \<Rightarrow> bool" where
  "is_data m \<longleftrightarrow> nlh_Type (fst m) \<notin> {1, 2, 3}"

lemma consume_data:
  "list_all (\<lambda>m. nlh_Seq (fst m) = sq \<and> is_data m) ms \<Longrightarrow>
     consume sq (if out then None else Some record_msg) de i (ms @ ms') s =
     consume sq (if out then None else Some record_msg) de (i \<or> list_ex intr ms) ms'
       (if i \<or> out then s else s @ takeWhile (\<lambda>m. \<not> intr m) ms)"
proof (induction ms arbitrary: i s)
  case (Cons m ms)
  then have m: "nlh_Seq (fst m) = sq" "nlh_Type (fst m) \<noteq> 1" "nlh_Type (fst m) \<noteq> 2" "nlh_Type (fst m) \<noteq> 3"
    by (auto simp: is_data_def)
  show ?case
  proof (cases "i \<or> out \<or> intr m")
    case True
    then show ?thesis using Cons m by (auto simp: Let_def split: option.split)
  next
    case False
    then show ?thesis using Cons m by (simp add: record_msg_def)
  qed
qed simp

section \<open>Streams of datagrams\<close>

type_synonym dgram = "sockaddr \<times> nlmsg list"

definition enc_dgram :: "dgram \<Rightarrow> recv" where
  "enc_dgram g = Datagram (fst g) (enc_msgs (snd g))"

definition good_dgram :: "dgram \<Rightarrow> bool" where
  "good_dgram g \<longleftrightarrow> snd g \<noteq> [] \<and> list_all wf_msg (snd g) \<and> length (enc_msgs (snd g)) \<le> 65536"

text \<open>The messages of a stream that belong to the request: from the kernel, with its sequence
  number.\<close>

definition own_msgs :: "u32 \<Rightarrow> dgram list \<Rightarrow> nlmsg list" where
  "own_msgs sq gs = filter (\<lambda>m. nlh_Seq (fst m) = sq) (concat (map snd (filter (\<lambda>g. fromKernel (fst g)) gs)))"

lemma own_msgs_simps [simp]:
  "own_msgs sq [] = []"
  "own_msgs sq (g # gs) = (if fromKernel (fst g) then filter (\<lambda>m. nlh_Seq (fst m) = sq) (snd g) else []) @ own_msgs sq gs"
  by (simp_all add: own_msgs_def)

lemma own_seq: "list_all (\<lambda>m. nlh_Seq (fst m) = sq \<and> is_data m) (filter (\<lambda>m. nlh_Seq (fst m) = sq) ms)
    \<longleftrightarrow> list_all is_data (filter (\<lambda>m. nlh_Seq (fst m) = sq) ms)"
  by (auto simp: list_all_iff)

lemma walk_dgram:
  assumes "good_dgram g"
  shows "walkNlMsgsHdr (take rtnetlinkRecvBufCst (enc_msgs (snd g))) sq f de s
    = consume sq f de False (filter (\<lambda>m. nlh_Seq (fst m) = sq) (snd g)) s"
  using assms walkNlMsgsHdr_enc [of "snd g" sq f de s] consume_filter [of sq f de False "snd g" s]
  by (simp add: good_dgram_def rtnetlinkRecvBufCst_def)

lemma takeWhile_append_ex:
  "takeWhile P (xs @ ys) = takeWhile P xs @ (if list_ex (\<lambda>x. \<not> P x) xs then [] else takeWhile P ys)"
  by (induction xs) auto

lemma dump_data:
  "list_all good_dgram gs \<Longrightarrow> list_all is_data (own_msgs sq gs) \<Longrightarrow>
     dump_loop sq (Some record_msg) de i (map enc_dgram gs @ rs) s =
     dump_loop sq (Some record_msg) de (i \<or> list_ex intr (own_msgs sq gs)) rs
       (if i then s else s @ takeWhile (\<lambda>m. \<not> intr m) (own_msgs sq gs))"
proof (induction gs arbitrary: i s)
  case (Cons g gs)
  show ?case
  proof (cases "fromKernel (fst g)")
    case True
    let ?own = "filter (\<lambda>m. nlh_Seq (fst m) = sq) (snd g)"
    have "walkNlMsgsHdr (take rtnetlinkRecvBufCst (enc_msgs (snd g))) sq (if i then None else Some record_msg) de s
      = Some ((False, if list_ex intr ?own then Some ErrDumpInterrupted else None),
          if i then s else s @ takeWhile (\<lambda>m. \<not> intr m) ?own)"
      using Cons.prems True consume_data [of sq ?own i de False "[]" s] by (simp add: walk_dgram own_seq)
    then show ?thesis
      using Cons True by (simp add: enc_dgram_def takeWhile_append_ex)
  next
    case False
    then show ?thesis using Cons by (simp add: enc_dgram_def)
  qed
qed simp

lemma dump_last:
  assumes "good_dgram g" "fromKernel (fst g)" "filter (\<lambda>m. nlh_Seq (fst m) = sq) (snd g) = dms @ fin # junk"
    and "list_all is_data dms" "nlh_Type (fst fin) = 3" "de \<longrightarrow> DoneErr (snd fin) = Some None"
  shows "dump_loop sq (Some record_msg) de i (enc_dgram g # rs) s =
    Some (Returned (if i \<or> list_ex intr (dms @ [fin]) then Some ErrDumpInterrupted else None), rs,
      if i then s else s @ takeWhile (\<lambda>m. \<not> intr m) dms)"
proof -
  have "\<forall>m \<in> set (dms @ fin # junk). nlh_Seq (fst m) = sq" unfolding assms(3) [symmetric] by simp
  then have sq: "list_all (\<lambda>m. nlh_Seq (fst m) = sq \<and> is_data m) dms" "nlh_Seq (fst fin) = sq"
    using assms(4) by (auto simp: list_all_iff)
  have "walkNlMsgsHdr (take rtnetlinkRecvBufCst (enc_msgs (snd g))) sq (if i then None else Some record_msg) de s
    = Some ((True, if list_ex intr (dms @ [fin]) then Some ErrDumpInterrupted else None),
        if i then s else s @ takeWhile (\<lambda>m. \<not> intr m) dms)"
    using sq assms by (simp add: walk_dgram consume_data [OF sq(1)] Let_def)
  then show ?thesis using assms(2) by (simp add: enc_dgram_def)
qed

section \<open>The single request and the strict walk on messages\<close>

lemma talk_skip:
  "list_all good_dgram gs \<Longrightarrow> own_msgs sq gs = [] \<Longrightarrow> talk_loop sq (map enc_dgram gs @ rs) = talk_loop sq rs"
  by (induction gs) (auto simp: enc_dgram_def walk_dgram split: if_splits)

definition collect_env :: "NetlinkEnvelope \<Rightarrow> NetlinkEnvelope list \<Rightarrow> nl_error option \<times> NetlinkEnvelope list" where
  "collect_env e s = (None, s @ [e])"

definition env_size :: "NetlinkEnvelope \<Rightarrow> nat" where
  "env_size e = 16 + length (en_Body e) + pad4 (16 + length (en_Body e))"

lemma classify_keeps: "classify e = Some (None, e') \<Longrightarrow> en_Header e' = en_Header e \<and> en_Body e' = en_Body e"
  by (auto simp: classify_def Let_def bind_eq_Some_conv split: if_splits)

lemma classify_total: "\<exists>cerr e'. classify e = Some (cerr, e')"
  by (auto simp: classify_def Let_def LE_Uint_Some)

lemma walk_env_step:
  assumes "16 \<le> length data" "n = unat (nlh_Len (nlmsghdr_of data))"
    and "classify \<lparr>en_Header = nlmsghdr_of data, en_Body = take (n - 16) (drop 16 data), en_Control = NetlinkData, en_Code = 0\<rparr>
      = Some (cerr, e)"
  shows "walk_envelopes (Some collect_env) data s =
    (if n < 16 \<or> length data < n then Some (Some ErrBadMsgLen, s)
     else case cerr of Some err \<Rightarrow> Some (Some err, s)
     | None \<Rightarrow> if n \<noteq> length data \<and> length data < n + pad4 n then Some (Some ErrBadMsgLen, s)
       else walk_envelopes (Some collect_env) (drop (n + pad4 n) data) (s @ [e]))"
proof -
  have "data \<noteq> []" using assms(1) by auto
  then show ?thesis
    using assms unfolding walk_envelopes.simps [of _ data]
    by (auto simp: DeserializeNlMsgHdr_ok NlMsgHdrSizeCst_def Let_def go_slice_Some go_slice_from_Some collect_env_def
        split: option.split)
qed

lemma walk_env_accounts:
  "walk_envelopes (Some collect_env) data s = Some (None, s') \<Longrightarrow>
     \<exists>es. s' = s @ es \<and> length data \<le> (\<Sum>e\<leftarrow>es. env_size e) \<and> (\<Sum>e\<leftarrow>es. env_size e) < length data + 4
       \<and> list_all (\<lambda>e. unat (nlh_Len (en_Header e)) = 16 + length (en_Body e)) es"
proof (induction "length data" arbitrary: data s rule: less_induct)
  case less
  consider (nil) "data = []" | (short) "data \<noteq> []" "length data < 16" | (msg) "16 \<le> length data" by linarith
  then show ?case
  proof cases
    case nil
    then show ?thesis using less.prems by (intro exI [of _ "[]"]) (simp add: walk_envelopes.simps)
  next
    case short
    then show ?thesis using less.prems by (simp add: walk_envelopes.simps DeserializeNlMsgHdr_small)
  next
    case msg
    define n where "n = unat (nlh_Len (nlmsghdr_of data))"
    let ?e0 = "\<lparr>en_Header = nlmsghdr_of data, en_Body = take (n - 16) (drop 16 data), en_Control = NetlinkData, en_Code = 0\<rparr>"
    obtain cerr e where c: "classify ?e0 = Some (cerr, e)" using classify_total by blast
    have n: "16 \<le> n" "n \<le> length data" "cerr = None" "n = length data \<or> n + pad4 n \<le> length data"
      and rec: "walk_envelopes (Some collect_env) (drop (n + pad4 n) data) (s @ [e]) = Some (None, s')"
      using less.prems unfolding walk_env_step [OF msg n_def c] by (auto split: if_splits option.splits)
    have e: "en_Header e = nlmsghdr_of data" "length (en_Body e) = n - 16"
      using classify_keeps [of ?e0 e] c n by auto
    have "length (drop (n + pad4 n) data) < length data" using n msg by auto
    from less.hyps [OF this rec] obtain es
      where es: "s' = (s @ [e]) @ es" "length (drop (n + pad4 n) data) \<le> (\<Sum>e\<leftarrow>es. env_size e)"
        "(\<Sum>e\<leftarrow>es. env_size e) < length (drop (n + pad4 n) data) + 4"
        "list_all (\<lambda>e. unat (nlh_Len (en_Header e)) = 16 + length (en_Body e)) es" by blast
    have size: "env_size e = n + pad4 n" using e(2) n(1) by (simp add: env_size_def)
    show ?thesis
    proof (cases "n + pad4 n \<le> length data")
      case True
      then show ?thesis
        using es size e n n_def by (intro exI [of _ "e # es"]) auto
    next
      case False
      then have "drop (n + pad4 n) data = []" by simp
      then have "s' = s @ [e]" using rec by (simp add: walk_envelopes.simps)
      then show ?thesis
        using size e n n_def False pad4_less [of n] by (intro exI [of _ "[e]"]) auto
    qed
  qed
qed

section \<open>Properties\<close>

text \<open>C5: a dump delivers the kernel's messages, however they arrive. For every stream of
  datagrams up to the end of the dump, cut into datagrams in any way and mixed with
  datagrams of other senders and messages of other requests, the driver returns, with
  exactly the request's messages in order, up to the first one flagged as interrupted.
  An interrupted dump is reported, and only after the stream was read to its end, so
  what is left on the socket is what came after.\<close>

theorem dump_delivers_stream:
  assumes "list_all good_dgram (gs @ [g])" "fromKernel (fst g)" "list_all is_data (own_msgs sq gs)"
    and "filter (\<lambda>m. nlh_Seq (fst m) = sq) (snd g) = dms @ fin # junk" "list_all is_data dms"
    and "nlh_Type (fst fin) = 3" "doneErr \<longrightarrow> DoneErr (snd fin) = Some None"
    and "16 \<le> length request" "le_word (take 4 (drop 8 request)) = sq"
    and "recvs = map enc_dgram (gs @ [g]) @ rest" "ms = own_msgs sq gs @ dms"
  shows "dumpRtnetlinkMsgs request False recvs (Some record_msg) doneErr [] =
    Some (Returned (if list_ex intr (ms @ [fin]) then Some ErrDumpInterrupted else None), rest,
      takeWhile (\<lambda>m. \<not> intr m) ms)"
proof -
  have "dumpRtnetlinkMsgs request False recvs (Some record_msg) doneErr []
      = dump_loop sq (Some record_msg) doneErr False (map enc_dgram gs @ enc_dgram g # rest) []"
    using assms by (simp add: dumpRtnetlinkMsgs_def NlMsgHdrSizeCst_def LE_Uint_Some)
  also have "\<dots> = Some (Returned (if list_ex intr (ms @ [fin]) then Some ErrDumpInterrupted else None), rest,
      takeWhile (\<lambda>m. \<not> intr m) ms)"
    using assms by (simp add: dump_data dump_last takeWhile_append_ex)
  finally show ?thesis .
qed

text \<open>The witness stream: a datagram of another sender, a stale reply, two data messages in
  two datagrams and the end of the dump.\<close>

definition wit_msg :: "u16 \<Rightarrow> u32 \<Rightarrow> bytes \<Rightarrow> nlmsg" where
  "wit_msg t sq body = (\<lparr>nlh_Len = of_nat (16 + length body), nlh_Type = t, nlh_Flags = 2, nlh_Seq = sq, nlh_Pid = 0\<rparr>, body)"

definition wit_stream :: "dgram list" where
  "wit_stream = [(SockaddrNetlink 9, [wit_msg 16 7 [1]]), (SockaddrNetlink 0, [wit_msg 3 6 [], wit_msg 16 7 [2, 3]])]"

definition wit_end :: dgram where
  "wit_end = (SockaddrNetlink 0, [wit_msg 16 7 [4], wit_msg 3 7 [0, 0, 0, 0]])"

lemma wit_wf: "length body < 100 \<Longrightarrow> wf_msg (wit_msg t sq body)"
  by (simp add: wf_msg_def wit_msg_def unat_of_nat take_bit_eq_mod del: of_nat_add)

theorem dump_delivers_stream_witness:
  "dumpRtnetlinkMsgs (request_bytes 18 0x301 7 (family_hdr 16 0) []) False
     (map enc_dgram (wit_stream @ [wit_end]) @ [RecvErr]) (Some record_msg) True []
   = Some (Returned None, [RecvErr], [wit_msg 16 7 [2, 3], wit_msg 16 7 [4]])"
proof -
  have good: "list_all good_dgram (wit_stream @ [wit_end])"
    by (simp add: good_dgram_def wit_stream_def wit_end_def wf_msg_def length_enc_msg pad4_mod wit_msg_def)
  have done_ok: "DoneErr [0, 0, 0, 0] = Some None" by (simp add: DoneErr_def LE_Uint_Some)
  have own: "own_msgs 7 wit_stream = [wit_msg 16 7 [2, 3]]"
    by (simp add: wit_stream_def fromKernel_def wit_msg_def)
  have fin: "filter (\<lambda>m. nlh_Seq (fst m) = 7) (snd wit_end) = [wit_msg 16 7 [4]] @ wit_msg 3 7 [0, 0, 0, 0] # []"
    by (simp add: wit_end_def wit_msg_def)
  have "\<not> list_ex intr [wit_msg 16 7 [2, 3], wit_msg 16 7 [4], wit_msg 3 7 [0, 0, 0, 0]]"
    by (simp add: intr_def wit_msg_def NLM_F_DUMP_INTR_def)
  then show ?thesis
    using dump_delivers_stream [OF good _ _ fin, where doneErr = True and rest = "[RecvErr]", OF _ _ _ _ _ _ _ refl refl,
        of "request_bytes 18 0x301 7 (family_hdr 16 0) []"] own done_ok
    by (simp add: wit_end_def fromKernel_def is_data_def wit_msg_def request_bytes_def nlmsghdr_bytes_def)
qed

text \<open>C30: a single request returns the first reply that is its own. Datagrams of other
  senders and messages of other requests are passed over; the reply's type and body
  come back, and the rest of the socket is untouched.\<close>

theorem talk_first_reply:
  assumes "list_all good_dgram (gs @ [g])" "own_msgs sq gs = []" "fromKernel (fst g)"
    and "filter (\<lambda>m. nlh_Seq (fst m) = sq) (snd g) = m # junk" "is_data m" "\<not> intr m"
    and "16 \<le> length request" "le_word (take 4 (drop 8 request)) = sq"
  shows "TalkRtnetlink request False (map enc_dgram (gs @ [g]) @ rest)
    = Some (Returned (None, nlh_Type (fst m), snd m), rest)"
proof -
  have "m \<in> set (filter (\<lambda>m. nlh_Seq (fst m) = sq) (snd g))" unfolding assms(4) by simp
  then have m: "nlh_Seq (fst m) = sq" by simp
  have "talk_loop sq (map enc_dgram (gs @ [g]) @ rest) = talk_loop sq (enc_dgram g # rest)"
    using talk_skip [of gs sq "enc_dgram g # rest"] assms by simp
  also have "\<dots> = Some (Returned (None, nlh_Type (fst m), snd m), rest)"
    using assms m by (simp add: enc_dgram_def walk_dgram talk_stop_def is_data_def Let_def)
  finally show ?thesis using assms by (simp add: TalkRtnetlink_def NlMsgHdrSizeCst_def LE_Uint_Some)
qed

theorem talk_first_reply_witness:
  "TalkRtnetlink (request_bytes 18 1 7 (family_hdr 16 0) []) False
     (map enc_dgram ([(SockaddrNetlink 0, [wit_msg 3 6 []])] @ [wit_end]) @ [])
   = Some (Returned (None, 16, [4]), [])"
proof -
  have good: "list_all good_dgram ([(SockaddrNetlink 0, [wit_msg 3 6 []])] @ [wit_end])"
    by (simp add: good_dgram_def wit_end_def wf_msg_def length_enc_msg pad4_mod wit_msg_def)
  have fin: "filter (\<lambda>m. nlh_Seq (fst m) = 7) (snd wit_end) = wit_msg 16 7 [4] # [wit_msg 3 7 [0, 0, 0, 0]]"
    by (simp add: wit_end_def wit_msg_def)
  show ?thesis
    using talk_first_reply [OF good _ _ fin, where rest = "[]", of "request_bytes 18 1 7 (family_hdr 16 0) []"]
    by (simp add: fromKernel_def wit_end_def wit_msg_def is_data_def intr_def NLM_F_DUMP_INTR_def request_bytes_def
        nlmsghdr_bytes_def)
qed

text \<open>A stale reply cannot end or feed a dump. Whatever well-formed messages of other
  requests a datagram carries between the request's own, the walk gives the same result,
  status and deliveries as on the request's own messages alone.\<close>

theorem stale_messages_ignored:
  assumes "list_all wf_msg ms" "filter (\<lambda>m. nlh_Seq (fst m) = sq) ms \<noteq> []"
  shows "walkNlMsgsHdr (enc_msgs ms) sq onMsg doneErr s
    = walkNlMsgsHdr (enc_msgs (filter (\<lambda>m. nlh_Seq (fst m) = sq) ms)) sq onMsg doneErr s"
proof -
  have "list_all wf_msg (filter (\<lambda>m. nlh_Seq (fst m) = sq) ms)" "ms \<noteq> []"
    using assms by (auto simp: list_all_iff)
  then show ?thesis
    using assms consume_filter [of sq onMsg doneErr False ms s] by (simp add: walkNlMsgsHdr_enc)
qed

theorem stale_messages_ignored_witness:
  "walkNlMsgsHdr (enc_msgs [wit_msg 3 6 [], wit_msg 16 7 [1]]) 7 (Some record_msg) False []
    = walkNlMsgsHdr (enc_msgs [wit_msg 16 7 [1]]) 7 (Some record_msg) False []"
proof -
  have "filter (\<lambda>m. nlh_Seq (fst m) = 7) [wit_msg 3 6 [], wit_msg 16 7 [1]] = [wit_msg 16 7 [1]]"
    by (simp add: wit_msg_def)
  then show ?thesis
    using stale_messages_ignored [of "[wit_msg 3 6 [], wit_msg 16 7 [1]]" 7] by (simp add: wit_wf)
qed

text \<open>The strict walk accounts for every byte. If it accepts a datagram, the messages it
  visited have the lengths their headers declare, and laid end to end with their padding
  they cover the datagram, where only the padding of the last message may be missing.\<close>

theorem strict_walk_accounts:
  assumes "WalkNetlinkEnvelopes data (Some collect_env) [] = Some (None, es)"
  shows "length data \<le> (\<Sum>e\<leftarrow>es. env_size e) \<and> (\<Sum>e\<leftarrow>es. env_size e) < length data + 4
    \<and> list_all (\<lambda>e. unat (nlh_Len (en_Header e)) = 16 + length (en_Body e)) es"
  using assms walk_env_accounts [of data "[]" es] by (auto simp: WalkNetlinkEnvelopes_def split: if_splits)

theorem strict_walk_accounts_witness:
  "\<exists>es. WalkNetlinkEnvelopes (enc_msg (wit_msg 16 7 [1])) (Some collect_env) [] = Some (None, es)
     \<and> (\<Sum>e\<leftarrow>es. env_size e) < 24"
proof -
  have "map_option fst (WalkNetlinkEnvelopes (enc_msg (wit_msg 16 7 [1])) (Some collect_env) []) = Some None"
    by code_simp
  then obtain es where "WalkNetlinkEnvelopes (enc_msg (wit_msg 16 7 [1])) (Some collect_env) [] = Some (None, es)" by auto
  then show ?thesis
    using strict_walk_accounts [of "enc_msg (wit_msg 16 7 [1])"] by (auto simp: length_enc_msg wit_msg_def pad4_mod)
qed

end
