(* ===== verification/Dump_Tracker.thy ===== *)
theory Dump_Tracker
  imports Rtnl_Dump
begin

text \<open>
  How the end of a socket's dump is found (\<open>pkg/xtcp/netlinker.go\<close>): one receiver numbers
  the packets and hands them to several decoders over a channel, and the decoder that
  finishes the last packet of a dump signals. The receiver and the decoders are steps of
  one transition system in which every atomic operation is a step of its own; a dump
  state is addressed by a number, as the code shares it by pointer.
\<close>

section \<open>Finding the end marker\<close>

lemma nat_nlmsgAlign: "nat (nlmsgAlign (int n)) = n + pad4 n"
  by (simp add: nlmsgAlign_eq_padding int_pad4 nat_int_add)

text \<open>The walk of \<open>packetHasDone\<close> from an offset; the message length is not compared with the
  packet, so the offset may pass its end.\<close>

function has_done_from :: "bytes \<Rightarrow> nat \<Rightarrow> bool option" where
  "has_done_from b off =
     (if off + NlMsgHdrSizeCst \<le> length b then do {
        t \<leftarrow> LE_Uint16 b (off + 4) (off + 6);
        if t = NlMsgHdrTypeDoneCst then Some True
        else do {
          l \<leftarrow> LE_Uint32 b off (off + 4);
          if unat l < NlMsgHdrSizeCst then Some False
          else has_done_from b (off + nat (nlmsgAlign (int (unat l)))) } }
      else Some False)"
  by pat_completeness auto
termination
proof (relation "measure (\<lambda>(b, off). length b - off)", goal_cases)
  case 1
  then show ?case by simp
next
  case (2 b off t l)
  have "unat l \<le> nat (nlmsgAlign (int (unat l)))" unfolding nat_nlmsgAlign by simp
  then show ?case using 2 by (simp add: NlMsgHdrSizeCst_def del: of_nat_unat)
qed

declare has_done_from.simps [simp del]

definition packetHasDone :: "bytes \<Rightarrow> bool option" where
  "packetHasDone b = has_done_from b 0"

section \<open>State\<close>

record dumpState =
  ds_total :: nat
  ds_decoded :: nat
  ds_signaled :: bool

definition new_dump :: dumpState where
  "new_dump = \<lparr>ds_total = 0, ds_decoded = 0, ds_signaled = False\<rparr>"

text \<open>A decoder: waiting on the channel, decoding a packet, between the increment and the
  load of the total, or before the compare-and-swap.\<close>

datatype decoder = Waiting_packet | Decoding nat | Counted nat nat | Loaded nat nat nat

record tracker =
  t_dump :: nat
  t_packets :: nat
  t_pending :: "nat option"
  dumps :: "nat \<Rightarrow> dumpState"
  chan :: "nat list"
  decoders :: "nat \<Rightarrow> decoder"
  signals :: "nat list"

definition newDumpTracker :: tracker where
  "newDumpTracker = \<lparr>t_dump = 0, t_packets = 0, t_pending = None, dumps = (\<lambda>_. new_dump), chan = [],
     decoders = (\<lambda>_. Waiting_packet), signals = []\<rparr>"

section \<open>Operations\<close>

text \<open>\<open>assign\<close>: the packet is numbered, and the end marker stores the total and opens the
  next dump; the packet is then pending until the channel takes it.\<close>

definition assign :: "bool \<Rightarrow> tracker \<Rightarrow> tracker" where
  "assign hasDone s =
     (let n = t_packets s + 1; d = t_dump s in
      if hasDone
      then s\<lparr>dumps := (dumps s)(d := (dumps s d)\<lparr>ds_total := n\<rparr>), t_dump := d + 1, t_packets := 0, t_pending := Some d\<rparr>
      else s\<lparr>t_packets := n, t_pending := Some d\<rparr>)"

definition send_packet :: "tracker \<Rightarrow> tracker" where
  "send_packet s = (case t_pending s of None \<Rightarrow> s | Some d \<Rightarrow> s\<lparr>t_pending := None, chan := chan s @ [d]\<rparr>)"

definition take_packet :: "nat \<Rightarrow> tracker \<Rightarrow> tracker" where
  "take_packet i s = (case chan s of [] \<Rightarrow> s | d # ds \<Rightarrow> s\<lparr>chan := ds, decoders := (decoders s)(i := Decoding d)\<rparr>)"

text \<open>\<open>packetDecoded\<close> in its three atomic operations.\<close>

definition decoded_add :: "nat \<Rightarrow> nat \<Rightarrow> tracker \<Rightarrow> tracker" where
  "decoded_add i d s =
     (let v = ds_decoded (dumps s d) + 1 in
      s\<lparr>dumps := (dumps s)(d := (dumps s d)\<lparr>ds_decoded := v\<rparr>), decoders := (decoders s)(i := Counted d v)\<rparr>)"

definition total_load :: "nat \<Rightarrow> nat \<Rightarrow> nat \<Rightarrow> tracker \<Rightarrow> tracker" where
  "total_load i d v s = s\<lparr>decoders := (decoders s)(i := Loaded d v (ds_total (dumps s d)))\<rparr>"

definition signal_once :: "nat \<Rightarrow> nat \<Rightarrow> nat \<Rightarrow> nat \<Rightarrow> tracker \<Rightarrow> tracker" where
  "signal_once i d v t s =
     (let s' = s\<lparr>decoders := (decoders s)(i := Waiting_packet)\<rparr> in
      if v = t \<and> \<not> ds_signaled (dumps s d)
      then s'\<lparr>dumps := (dumps s)(d := (dumps s d)\<lparr>ds_signaled := True\<rparr>), signals := signals s @ [d]\<rparr>
      else s')"

text \<open>One step of the socket's goroutines, with \<open>n\<close> decoders and a channel of \<open>n\<close> slots.\<close>

inductive work_step :: "nat \<Rightarrow> tracker \<Rightarrow> tracker \<Rightarrow> bool" for n where
  send: "t_pending s = Some d \<Longrightarrow> length (chan s) < n \<Longrightarrow> work_step n s (send_packet s)"
| fetch: "i < n \<Longrightarrow> decoders s i = Waiting_packet \<Longrightarrow> chan s \<noteq> [] \<Longrightarrow> work_step n s (take_packet i s)"
| add: "decoders s i = Decoding d \<Longrightarrow> work_step n s (decoded_add i d s)"
| load: "decoders s i = Counted d v \<Longrightarrow> work_step n s (total_load i d v s)"
| signal: "decoders s i = Loaded d v t \<Longrightarrow> work_step n s (signal_once i d v t s)"

inductive dump_step :: "nat \<Rightarrow> tracker \<Rightarrow> tracker \<Rightarrow> bool" for n where
  receive: "t_pending s = None \<Longrightarrow> dump_step n s (assign hasDone s)"
| work: "work_step n s s' \<Longrightarrow> dump_step n s s'"

inductive dump_reach :: "nat \<Rightarrow> tracker \<Rightarrow> bool" for n where
  start: "dump_reach n newDumpTracker"
| step: "dump_reach n s \<Longrightarrow> dump_step n s s' \<Longrightarrow> dump_reach n s'"

inductive_cases work_stepE: "work_step n s s'"
inductive_cases dump_stepE: "dump_step n s s'"

section \<open>Invariant\<close>

text \<open>The packets of a dump that no decoder has counted yet.\<close>

definition uncounted_pkts :: "nat \<Rightarrow> tracker \<Rightarrow> nat \<Rightarrow> nat" where
  "uncounted_pkts n s d =
     (if t_pending s = Some d then 1 else 0) + count_list (chan s) d + card {i. i < n \<and> decoders s i = Decoding d}"

text \<open>The packets numbered for a dump: its total once the end marker was seen.\<close>

definition numbered :: "tracker \<Rightarrow> nat \<Rightarrow> nat" where
  "numbered s d = (if d < t_dump s then ds_total (dumps s d) else if d = t_dump s then t_packets s else 0)"

definition counted_ok :: "tracker \<Rightarrow> nat \<Rightarrow> nat \<Rightarrow> bool" where
  "counted_ok s d v \<longleftrightarrow> 1 \<le> v \<and> v \<le> ds_decoded (dumps s d)"

fun decoder_ok :: "tracker \<Rightarrow> decoder \<Rightarrow> bool" where
  "decoder_ok s Waiting_packet = True"
| "decoder_ok s (Decoding d) = True"
| "decoder_ok s (Counted d v) = counted_ok s d v"
| "decoder_ok s (Loaded d v t) =
     (counted_ok s d v \<and> (t = ds_total (dumps s d) \<or> t = 0 \<and> (d < t_dump s \<longrightarrow> v < ds_total (dumps s d))))"

definition finishing :: "tracker \<Rightarrow> nat \<Rightarrow> bool" where
  "finishing s d \<longleftrightarrow> (\<exists>i. decoders s i = Counted d (ds_total (dumps s d))
     \<or> decoders s i = Loaded d (ds_total (dumps s d)) (ds_total (dumps s d)))"

definition dump_inv :: "nat \<Rightarrow> tracker \<Rightarrow> bool" where
  "dump_inv n s \<longleftrightarrow>
     (\<forall>d. ds_decoded (dumps s d) + uncounted_pkts n s d = numbered s d)
   \<and> (\<forall>d. (d < t_dump s \<longrightarrow> 1 \<le> ds_total (dumps s d)) \<and> (t_dump s \<le> d \<longrightarrow> ds_total (dumps s d) = 0))
   \<and> (\<forall>i. decoder_ok s (decoders s i)) \<and> (\<forall>i. n \<le> i \<longrightarrow> decoders s i = Waiting_packet)
   \<and> (\<forall>d. ds_signaled (dumps s d) \<longleftrightarrow> d \<in> set (signals s)) \<and> distinct (signals s)
   \<and> (\<forall>d \<in> set (signals s). d < t_dump s \<and> ds_decoded (dumps s d) = ds_total (dumps s d))
   \<and> (\<forall>d < t_dump s. ds_decoded (dumps s d) = ds_total (dumps s d) \<longrightarrow> ds_signaled (dumps s d) \<or> finishing s d)"

lemma dump_invD:
  assumes "dump_inv n s"
  shows "ds_decoded (dumps s d) + uncounted_pkts n s d = numbered s d"
    "d < t_dump s \<Longrightarrow> 1 \<le> ds_total (dumps s d)" "t_dump s \<le> d \<Longrightarrow> ds_total (dumps s d) = 0"
    "decoder_ok s (decoders s i)" "n \<le> i \<Longrightarrow> decoders s i = Waiting_packet"
    "ds_signaled (dumps s d) \<longleftrightarrow> d \<in> set (signals s)" "distinct (signals s)"
    "d \<in> set (signals s) \<Longrightarrow> d < t_dump s \<and> ds_decoded (dumps s d) = ds_total (dumps s d)"
    "d < t_dump s \<Longrightarrow> ds_decoded (dumps s d) = ds_total (dumps s d) \<Longrightarrow> ds_signaled (dumps s d) \<or> finishing s d"
  using assms unfolding dump_inv_def by blast+

lemma dump_invI:
  assumes "\<And>d. ds_decoded (dumps s d) + uncounted_pkts n s d = numbered s d"
    "\<And>d. d < t_dump s \<Longrightarrow> 1 \<le> ds_total (dumps s d)" "\<And>d. t_dump s \<le> d \<Longrightarrow> ds_total (dumps s d) = 0"
    "\<And>i. decoder_ok s (decoders s i)" "\<And>i. n \<le> i \<Longrightarrow> decoders s i = Waiting_packet"
    "\<And>d. ds_signaled (dumps s d) \<longleftrightarrow> d \<in> set (signals s)" "distinct (signals s)"
    "\<And>d. d \<in> set (signals s) \<Longrightarrow> d < t_dump s \<and> ds_decoded (dumps s d) = ds_total (dumps s d)"
    "\<And>d. d < t_dump s \<Longrightarrow> ds_decoded (dumps s d) = ds_total (dumps s d) \<Longrightarrow> ds_signaled (dumps s d) \<or> finishing s d"
  shows "dump_inv n s"
  using assms unfolding dump_inv_def by blast

text \<open>A step that leaves the dump states alone.\<close>

lemma decoder_ok_frame: "dumps s' = dumps s \<Longrightarrow> t_dump s' = t_dump s \<Longrightarrow> decoder_ok s' c = decoder_ok s c"
  by (cases c) (simp_all add: counted_ok_def)

lemma inv_frame:
  assumes "dump_inv n s" "dumps s' = dumps s" "t_dump s' = t_dump s" "signals s' = signals s"
    and "\<And>d. uncounted_pkts n s' d = uncounted_pkts n s d" "\<And>d. numbered s' d = numbered s d"
    and "\<And>i. decoder_ok s (decoders s' i)" "\<And>i. n \<le> i \<Longrightarrow> decoders s' i = Waiting_packet"
    and "\<And>d. finishing s d \<Longrightarrow> finishing s' d"
  shows "dump_inv n s'"
proof (rule dump_invI)
  fix d
  show "d < t_dump s' \<Longrightarrow> ds_decoded (dumps s' d) = ds_total (dumps s' d) \<Longrightarrow> ds_signaled (dumps s' d) \<or> finishing s' d"
    using dump_invD(9) [OF assms(1), of d] assms(2,3,9) by auto
  show "d \<in> set (signals s') \<Longrightarrow> d < t_dump s' \<and> ds_decoded (dumps s' d) = ds_total (dumps s' d)"
    using dump_invD(8) [OF assms(1), of d] assms(2-4) by simp
qed (use dump_invD [OF assms(1)] assms(2-8) decoder_ok_frame [OF assms(2,3)] in simp_all)

lemma inv_start: "dump_inv n newDumpTracker"
  by (simp add: dump_inv_def newDumpTracker_def new_dump_def uncounted_pkts_def numbered_def)

lemma inv_assign_data:
  assumes "dump_inv n s" "t_pending s = None"
  shows "dump_inv n (assign False s)"
proof -
  let ?s = "assign False s"
  have eq: "dumps ?s = dumps s" "t_dump ?s = t_dump s" "decoders ?s = decoders s" "signals ?s = signals s"
    by (simp_all add: assign_def Let_def)
  have ok: "decoder_ok ?s c = decoder_ok s c" for c by (cases c) (simp_all add: counted_ok_def eq)
  have fin: "finishing ?s = finishing s" by (simp add: fun_eq_iff finishing_def eq)
  have "ds_decoded (dumps ?s d) + uncounted_pkts n ?s d = numbered ?s d" for d
    using dump_invD(1) [OF assms(1), of d] assms(2)
    by (auto simp: uncounted_pkts_def numbered_def assign_def Let_def)
  then show ?thesis
    using assms(1) unfolding dump_inv_def eq ok fin by blast
qed

lemma inv_assign_done:
  assumes "dump_inv n s" "t_pending s = None"
  shows "dump_inv n (assign True s)"
proof -
  let ?s = "assign True s" and ?d = "t_dump s"
  have eq: "t_dump ?s = ?d + 1" "decoders ?s = decoders s" "signals ?s = signals s"
      "dumps ?s = (dumps s)(?d := (dumps s ?d)\<lparr>ds_total := t_packets s + 1\<rparr>)"
    by (simp_all add: assign_def Let_def)
  have le: "ds_decoded (dumps s ?d) \<le> t_packets s"
    using dump_invD(1) [OF assms(1), of ?d] by (simp add: numbered_def)
  have zero: "ds_total (dumps s ?d) = 0" "?d \<notin> set (signals s)"
    using dump_invD(3,8) [OF assms(1), of ?d] by auto
  have count: "ds_decoded (dumps ?s d) + uncounted_pkts n ?s d = numbered ?s d" for d
    using dump_invD(1) [OF assms(1), of d] assms(2)
    by (auto simp: uncounted_pkts_def numbered_def assign_def Let_def)
  have ok: "decoder_ok ?s (decoders s i)" for i
    using dump_invD(4) [OF assms(1), of i] le zero
    by (cases "decoders s i") (auto simp: counted_ok_def eq)
  have fin: "finishing s d \<Longrightarrow> d < ?d \<Longrightarrow> finishing ?s d" for d
    by (auto simp: finishing_def eq)
  show ?thesis
  proof (rule dump_invI)
    fix d
    show "d < t_dump ?s \<Longrightarrow> 1 \<le> ds_total (dumps ?s d)"
      using dump_invD(2) [OF assms(1), of d] by (auto simp: eq)
    show "t_dump ?s \<le> d \<Longrightarrow> ds_total (dumps ?s d) = 0"
      using dump_invD(3) [OF assms(1), of d] by (auto simp: eq)
    show "d \<in> set (signals ?s) \<Longrightarrow> d < t_dump ?s \<and> ds_decoded (dumps ?s d) = ds_total (dumps ?s d)"
      using dump_invD(8) [OF assms(1), of d] zero by (auto simp: eq)
    show "d < t_dump ?s \<Longrightarrow> ds_decoded (dumps ?s d) = ds_total (dumps ?s d) \<Longrightarrow> ds_signaled (dumps ?s d) \<or> finishing ?s d"
      using dump_invD(9) [OF assms(1), of d] fin [of d] le by (auto simp: eq split: if_splits)
  qed (use dump_invD [OF assms(1)] count ok in \<open>auto simp: eq\<close>)
qed

lemma inv_send:
  assumes "dump_inv n s" "t_pending s = Some d"
  shows "dump_inv n (send_packet s)"
proof (rule inv_frame [OF assms(1)])
  fix d'
  show "uncounted_pkts n (send_packet s) d' = uncounted_pkts n s d'" "numbered (send_packet s) d' = numbered s d'"
    using assms(2) by (auto simp: uncounted_pkts_def numbered_def send_packet_def)
qed (use assms(2) dump_invD [OF assms(1)] in \<open>simp_all add: send_packet_def finishing_def\<close>)

lemma card_decoding_upd:
  assumes "i < (n :: nat)" "f i \<noteq> Decoding d"
  shows "card {j. j < n \<and> (f(i := Decoding d)) j = Decoding d} = card {j. j < n \<and> f j = Decoding d} + 1"
proof -
  have "{j. j < n \<and> (f(i := Decoding d)) j = Decoding d} = insert i {j. j < n \<and> f j = Decoding d}"
    using assms by auto
  moreover have "finite {j. j < n \<and> f j = Decoding d}" by simp
  ultimately show ?thesis using assms by simp
qed

lemma card_decoding_other:
  "f i \<noteq> Decoding d \<Longrightarrow> c \<noteq> Decoding d \<Longrightarrow>
     card {j. j < n \<and> (f(i := c)) j = Decoding d} = card {j. j < n \<and> f j = Decoding d}"
  by (rule arg_cong [where f = card]) auto

lemma tracker_inv_take:
  assumes "dump_inv n s" "i < n" "decoders s i = Waiting_packet" "chan s = d # ds"
  shows "dump_inv n (take_packet i s)"
proof -
  let ?s = "take_packet i s"
  have eq: "dumps ?s = dumps s" "t_dump ?s = t_dump s" "t_packets ?s = t_packets s" "t_pending ?s = t_pending s"
      "signals ?s = signals s" "decoders ?s = (decoders s)(i := Decoding d)" "chan ?s = ds"
    using assms(4) by (simp_all add: take_packet_def)
  have fin: "finishing s d' \<Longrightarrow> finishing ?s d'" for d'
    using assms(3) unfolding finishing_def eq by (metis decoder.distinct(3,5) fun_upd_other)
  have "uncounted_pkts n ?s d' = uncounted_pkts n s d'" "numbered ?s d' = numbered s d'" for d'
    using assms(2-4) card_decoding_upd [of i n "decoders s" d] card_decoding_other [of "decoders s" i d' "Decoding d" n]
    by (cases "d' = d"; simp add: uncounted_pkts_def numbered_def eq)+
  then show ?thesis
    using assms(2) fin dump_invD(4,5) [OF assms(1)] by (intro inv_frame [OF assms(1)]) (simp_all add: eq)
qed

lemma card_decoding_done:
  assumes "i < (n :: nat)" "f i = Decoding d" "c \<noteq> Decoding d"
  shows "card {j. j < n \<and> f j = Decoding d} = card {j. j < n \<and> (f(i := c)) j = Decoding d} + 1"
proof -
  have "f = (f(i := c))(i := Decoding d)" using assms(2) by auto
  then show ?thesis using card_decoding_upd [of i n "f(i := c)" d] assms by simp
qed

lemma tracker_inv_add:
  assumes "dump_inv n s" "decoders s i = Decoding d"
  shows "dump_inv n (decoded_add i d s)"
proof -
  let ?s = "decoded_add i d s"
  define v where "v = ds_decoded (dumps s d) + 1"
  have eq: "t_dump ?s = t_dump s" "signals ?s = signals s" "chan ?s = chan s"
      "t_pending ?s = t_pending s" "decoders ?s = (decoders s)(i := Counted d v)"
      "dumps ?s = (dumps s)(d := (dumps s d)\<lparr>ds_decoded := v\<rparr>)"
    by (simp_all add: decoded_add_def v_def Let_def)
  have i: "i < n" using dump_invD(5) [OF assms(1), of i] assms(2) by (cases "i < n") auto
  have count: "ds_decoded (dumps ?s d') + uncounted_pkts n ?s d' = numbered ?s d'" for d'
    using dump_invD(1) [OF assms(1), of d'] card_decoding_done [of i n "decoders s" d "Counted d v", OF i assms(2)]
      card_decoding_other [of "decoders s" i d' "Counted d v" n] assms(2)
    by (cases "d' = d") (simp_all add: uncounted_pkts_def numbered_def eq v_def decoded_add_def Let_def)
  have ok: "decoder_ok ?s (decoders ?s j)" for j
    using dump_invD(4) [OF assms(1), of j]
    by (cases "decoders s j") (auto simp: eq counted_ok_def v_def)
  have unsignaled: "d \<notin> set (signals s)"
  proof
    assume "d \<in> set (signals s)"
    then have "d < t_dump s" "ds_decoded (dumps s d) = ds_total (dumps s d)" using dump_invD(8) [OF assms(1)] by blast+
    then show False
      using dump_invD(1) [OF assms(1), of d] i assms(2) by (auto simp: uncounted_pkts_def numbered_def)
  qed
  have fin: "finishing s d' \<Longrightarrow> d' \<noteq> d \<Longrightarrow> finishing ?s d'" for d'
    using assms(2) unfolding finishing_def eq by (metis decoder.distinct(7,9) fun_upd_other)
  have last: "ds_decoded (dumps ?s d) = ds_total (dumps ?s d) \<Longrightarrow> finishing ?s d"
    unfolding finishing_def by (rule exI [of _ i]) (simp add: eq)
  show ?thesis
  proof (rule dump_invI)
    fix d'
    show "d' < t_dump ?s \<Longrightarrow> ds_decoded (dumps ?s d') = ds_total (dumps ?s d') \<Longrightarrow>
        ds_signaled (dumps ?s d') \<or> finishing ?s d'"
      using dump_invD(9) [OF assms(1), of d'] fin [of d'] last by (cases "d' = d") (auto simp: eq)
  qed (use dump_invD [OF assms(1)] count ok unsignaled i in \<open>auto simp: eq\<close>)
qed

lemma inv_load:
  assumes "dump_inv n s" "decoders s i = Counted d v"
  shows "dump_inv n (total_load i d v s)"
proof -
  let ?s = "total_load i d v s"
  have eq: "t_dump ?s = t_dump s" "t_packets ?s = t_packets s" "signals ?s = signals s" "chan ?s = chan s"
      "t_pending ?s = t_pending s" "dumps ?s = dumps s"
      "decoders ?s = (decoders s)(i := Loaded d v (ds_total (dumps s d)))"
    by (simp_all add: total_load_def)
  have i: "i < n" using dump_invD(5) [OF assms(1), of i] assms(2) by (cases "i < n") auto
  have oks: "decoder_ok s (decoders ?s j)" for j
    using dump_invD(4) [OF assms(1), of j] dump_invD(4) [OF assms(1), of i] assms(2) by (simp add: eq)
  have fin: "finishing s d' \<Longrightarrow> finishing ?s d'" for d'
  proof -
    assume "finishing s d'"
    then obtain j where j: "decoders s j = Counted d' (ds_total (dumps s d'))
        \<or> decoders s j = Loaded d' (ds_total (dumps s d')) (ds_total (dumps s d'))"
      by (auto simp: finishing_def)
    then show ?thesis using assms(2) unfolding finishing_def eq by (intro exI [of _ j]) (cases "j = i"; auto)
  qed
  have "uncounted_pkts n ?s d' = uncounted_pkts n s d'" "numbered ?s d' = numbered s d'" for d'
    using card_decoding_other [of "decoders s" i d' "Loaded d v (ds_total (dumps s d))" n] assms(2)
    by (simp_all add: uncounted_pkts_def numbered_def eq)
  then show ?thesis
    using oks fin i dump_invD(5) [OF assms(1)] by (intro inv_frame [OF assms(1)]) (simp_all add: eq)
qed

lemma inv_signal:
  assumes "dump_inv n s" "decoders s i = Loaded d v t"
  shows "dump_inv n (signal_once i d v t s)"
proof -
  let ?s = "signal_once i d v t s" and ?hit = "v = t \<and> \<not> ds_signaled (dumps s d)"
  have eq: "t_dump ?s = t_dump s" "t_packets ?s = t_packets s" "chan ?s = chan s" "t_pending ?s = t_pending s"
      "decoders ?s = (decoders s)(i := Waiting_packet)"
      "signals ?s = (if ?hit then signals s @ [d] else signals s)"
      "dumps ?s = (if ?hit then (dumps s)(d := (dumps s d)\<lparr>ds_signaled := True\<rparr>) else dumps s)"
    by (simp_all add: signal_once_def Let_def)
  have same: "ds_total (dumps ?s d') = ds_total (dumps s d')" "ds_decoded (dumps ?s d') = ds_decoded (dumps s d')" for d'
    by (simp_all add: eq)
  have l: "1 \<le> v" "v \<le> ds_decoded (dumps s d)" "t = ds_total (dumps s d) \<or> t = 0"
    using dump_invD(4) [OF assms(1), of i] assms(2) by (auto simp: counted_ok_def)
  have reached: "d < t_dump s \<and> ds_decoded (dumps s d) = ds_total (dumps s d)" if "v = t"
  proof -
    have t: "ds_total (dumps s d) = t" "t \<noteq> 0" using that l by auto
    then have "d < t_dump s" using dump_invD(3) [OF assms(1), of d] by (cases "d < t_dump s") auto
    then show ?thesis using t l that dump_invD(1) [OF assms(1), of d] by (auto simp: numbered_def)
  qed
  have ok: "decoder_ok ?s c = decoder_ok s c" for c by (cases c) (simp_all add: counted_ok_def eq same)
  have fin: "finishing ?s d' \<or> d' = d \<and> v = t" if "finishing s d'" for d'
  proof -
    obtain j where j: "decoders s j = Counted d' (ds_total (dumps s d'))
        \<or> decoders s j = Loaded d' (ds_total (dumps s d')) (ds_total (dumps s d'))"
      using \<open>finishing s d'\<close> by (auto simp: finishing_def)
    show ?thesis
    proof (cases "j = i")
      case False
      then have "decoders ?s j = decoders s j" by (simp add: eq(5))
      with j show ?thesis unfolding finishing_def same by auto
    qed (use j assms(2) in auto)
  qed
  have un: "uncounted_pkts n ?s d' = uncounted_pkts n s d'" "numbered ?s d' = numbered s d'" for d'
    using card_decoding_other [of "decoders s" i d' Waiting_packet n] assms(2)
    by (simp_all add: uncounted_pkts_def numbered_def eq(1-5) same)
  have flag: "ds_signaled (dumps ?s d') \<longleftrightarrow> ds_signaled (dumps s d') \<or> d' = d \<and> v = t" for d'
    by (auto simp: eq(7))
  show ?thesis
  proof (rule dump_invI)
    show "distinct (signals ?s)" using dump_invD(6,7) [OF assms(1)] by (simp add: eq(6))
    fix d'
    show "ds_signaled (dumps ?s d') \<longleftrightarrow> d' \<in> set (signals ?s)"
      using dump_invD(6) [OF assms(1)] unfolding flag eq(6) by auto
    show "d' \<in> set (signals ?s) \<Longrightarrow> d' < t_dump ?s \<and> ds_decoded (dumps ?s d') = ds_total (dumps ?s d')"
      using dump_invD(8) [OF assms(1), of d'] reached unfolding eq(1,6) same by (auto split: if_splits)
    show "d' < t_dump ?s \<Longrightarrow> ds_decoded (dumps ?s d') = ds_total (dumps ?s d') \<Longrightarrow> ds_signaled (dumps ?s d') \<or> finishing ?s d'"
      using dump_invD(9) [OF assms(1), of d'] fin [of d'] unfolding eq(1) same flag by blast
  qed (use dump_invD(1-5) [OF assms(1)] in \<open>simp_all add: eq(1,5) same ok un\<close>)
qed

lemma inv_work: "work_step n s s' \<Longrightarrow> dump_inv n s \<Longrightarrow> dump_inv n s'"
proof (erule work_stepE, goal_cases)
  case (2 i)
  then show ?case using tracker_inv_take [of n s i] by (cases "chan s") auto
qed (auto intro: inv_send tracker_inv_add inv_load inv_signal)

lemma inv_step: "dump_step n s s' \<Longrightarrow> dump_inv n s \<Longrightarrow> dump_inv n s'"
proof (erule dump_stepE, goal_cases)
  case (1 hasDone)
  then show ?case using inv_assign_data [of n s] inv_assign_done [of n s] by (cases hasDone) auto
qed (auto intro: inv_work)

lemma inv_reach: "dump_reach n s \<Longrightarrow> dump_inv n s"
  by (induction rule: dump_reach.induct) (auto intro: inv_start inv_step)

section \<open>Progress\<close>

fun weight :: "decoder \<Rightarrow> nat" where
  "weight Waiting_packet = 0"
| "weight (Decoding d) = 3"
| "weight (Counted d v) = 2"
| "weight (Loaded d v t) = 1"

definition work_left :: "nat \<Rightarrow> tracker \<Rightarrow> nat" where
  "work_left n s = (if t_pending s = None then 0 else 5) + 4 * length (chan s) + (\<Sum>i<n. weight (decoders s i))"

lemma sum_weight_upd:
  "i < (n :: nat) \<Longrightarrow> (\<Sum>j<n. weight ((f(i := c)) j)) + weight (f i) = (\<Sum>j<n. weight (f j)) + weight c"
proof -
  assume i: "i < n"
  have "(\<Sum>j<n. weight ((f(i := c)) j)) = weight c + (\<Sum>j\<in>{..<n} - {i}. weight ((f(i := c)) j))"
    using i by (subst sum.remove [of _ i]) auto
  moreover have "(\<Sum>j<n. weight (f j)) = weight (f i) + (\<Sum>j\<in>{..<n} - {i}. weight (f j))"
    using i by (subst sum.remove [of _ i]) auto
  moreover have "(\<Sum>j\<in>{..<n} - {i}. weight ((f(i := c)) j)) = (\<Sum>j\<in>{..<n} - {i}. weight (f j))"
    by (rule sum.cong) auto
  ultimately show ?thesis by simp
qed

lemma work_decreases:
  assumes "work_step n s s'" "dump_inv n s"
  shows "work_left n s' < work_left n s"
proof -
  have busy: "i < n" if "decoders s i \<noteq> Waiting_packet" for i
    using dump_invD(5) [OF assms(2), of i] that by (cases "i < n") auto
  from assms(1) show ?thesis
  proof (rule work_stepE)
    fix i
    assume *: "s' = take_packet i s" "i < n" "decoders s i = Waiting_packet" "chan s \<noteq> []"
    then obtain d ds where "chan s = d # ds" by (cases "chan s") auto
    then show ?thesis using * sum_weight_upd [of i n "decoders s" "Decoding d"] by (simp add: take_packet_def work_left_def)
  next
    fix i d
    assume *: "s' = decoded_add i d s" "decoders s i = Decoding d"
    then show ?thesis
      using busy [of i] sum_weight_upd [of i n "decoders s" "Counted d (ds_decoded (dumps s d) + 1)"]
      by (simp add: decoded_add_def work_left_def Let_def)
  next
    fix i d v
    assume *: "s' = total_load i d v s" "decoders s i = Counted d v"
    then show ?thesis
      using busy [of i] sum_weight_upd [of i n "decoders s" "Loaded d v (ds_total (dumps s d))"]
      by (simp add: total_load_def work_left_def)
  next
    fix i d v t
    assume *: "s' = signal_once i d v t s" "decoders s i = Loaded d v t"
    then show ?thesis
      using busy [of i] sum_weight_upd [of i n "decoders s" Waiting_packet]
      by (simp add: signal_once_def work_left_def Let_def)
  qed (auto simp: send_packet_def work_left_def)
qed

lemma distinct_count_1: "x \<in> set xs \<Longrightarrow> distinct xs \<Longrightarrow> count_list xs x = 1"
  by (induction xs) (auto simp: count_list_0_iff)

text \<open>With a decoder there is always a next step until the work is done.\<close>

lemma no_work_quiescent:
  assumes "1 \<le> n" "\<And>s'. \<not> work_step n s s'"
  shows "t_pending s = None" "chan s = []" "decoders s i = Waiting_packet"
proof -
  show w: "decoders s i = Waiting_packet" for i
    using assms(2) work_step.add [of s i] work_step.load [of s i] work_step.signal [of s i]
    by (cases "decoders s i") blast+
  show c: "chan s = []" using work_step.fetch [of 0 n s] assms w by auto
  show "t_pending s = None" using work_step.send [of s _ n] assms c by (cases "t_pending s") auto
qed

section \<open>The end marker on messages\<close>

lemma has_done_total: "has_done_from b off \<noteq> None"
proof (induction "length b - off" arbitrary: off rule: less_induct)
  case less
  show ?case
  proof (cases "off + 16 \<le> length b")
    case True
    define l where "l = (le_word (take 4 (drop off b)) :: u32)"
    have "16 \<le> unat l \<Longrightarrow> has_done_from b (off + nat (nlmsgAlign (int (unat l)))) \<noteq> None"
      using True by (intro less) (simp add: nat_nlmsgAlign del: of_nat_unat)
    then show ?thesis
      using True by (subst has_done_from.simps) (simp add: NlMsgHdrSizeCst_def LE_Uint_Some l_def [symmetric] not_less del: of_nat_unat not_None_eq)
  next
    case False
    then show ?thesis by (subst has_done_from.simps) (simp add: NlMsgHdrSizeCst_def)
  qed
qed

lemma has_done_enc:
  "list_all wf_msg ms \<Longrightarrow> has_done_from (pre @ enc_msgs ms) (length pre) = Some (list_ex (\<lambda>m. nlh_Type (fst m) = 3) ms)"
proof (induction ms arbitrary: pre)
  case Nil
  then show ?case by (subst has_done_from.simps) (simp add: NlMsgHdrSizeCst_def)
next
  case (Cons m ms)
  let ?b = "pre @ enc_msg m @ enc_msgs ms" and ?o = "length pre"
  have wf: "unat (nlh_Len (fst m)) = 16 + length (snd m)" using Cons.prems by (simp add: wf_msg_def)
  have fields: "LE_Uint16 ?b (?o + 4) (?o + 6) = Some (nlh_Type (fst m))" "LE_Uint32 ?b ?o (?o + 4) = Some (nlh_Len (fst m))"
    by (simp_all add: LE_Uint_Some enc_msg_def nlmsghdr_bytes_def)
  have off: "?o + nat (nlmsgAlign (int (unat (nlh_Len (fst m))))) = length (pre @ enc_msg m)"
    unfolding nat_nlmsgAlign wf by (simp add: length_enc_msg)
  have "has_done_from ?b (length (pre @ enc_msg m)) = Some (list_ex (\<lambda>m. nlh_Type (fst m) = 3) ms)"
    using Cons.IH [of "pre @ enc_msg m"] Cons.prems by simp
  then show ?case
    using wf fields off
    by (simp add: has_done_from.simps [of ?b ?o] NlMsgHdrSizeCst_def NlMsgHdrTypeDoneCst_def length_enc_msg del: of_nat_unat)
qed

section \<open>Properties\<close>

text \<open>C7: the done signal is exact. In every interleaving of the receiver with any number of
  decoders, a dump is signaled at most once, and only when its end marker was received
  and every one of its packets has been decoded: none is pending, queued or being
  decoded.\<close>

theorem done_signal_exact:
  assumes "dump_reach n s"
  shows "distinct (signals s) \<and> (\<forall>d \<in> set (signals s). d < t_dump s \<and> ds_decoded (dumps s d) = ds_total (dumps s d)
    \<and> uncounted_pkts n s d = 0)"
proof -
  note inv = dump_invD [OF inv_reach [OF assms]]
  have "uncounted_pkts n s d = 0" if "d \<in> set (signals s)" for d
    using inv(1) [of d] inv(8) [OF that] by (simp add: numbered_def)
  then show ?thesis using inv(7,8) by blast
qed

text \<open>C18: the done signal comes. With at least one decoder, the goroutines of a socket finish
  the packets they were given: every step of theirs uses up work, and when none is left
  every dump whose end marker was received has been signaled exactly once.\<close>

theorem done_signal_comes:
  assumes "dump_reach n s" "1 \<le> n"
  shows "(\<forall>s'. work_step n s s' \<longrightarrow> work_left n s' < work_left n s)
    \<and> ((\<forall>s'. \<not> work_step n s s') \<longrightarrow> (\<forall>d < t_dump s. count_list (signals s) d = 1))"
proof -
  note inv = inv_reach [OF assms(1)]
  have "count_list (signals s) d = 1" if quiet: "\<forall>s'. \<not> work_step n s s'" and d: "d < t_dump s" for d
  proof -
    note q = no_work_quiescent [OF assms(2), of s] quiet
    have "uncounted_pkts n s d = 0" using q by (simp add: uncounted_pkts_def)
    then have "ds_decoded (dumps s d) = ds_total (dumps s d)" using dump_invD(1) [OF inv, of d] d by (simp add: numbered_def)
    moreover have "\<not> finishing s d" using q by (simp add: finishing_def)
    ultimately have "d \<in> set (signals s)" using dump_invD(6,9) [OF inv, of d] d by blast
    then show ?thesis using dump_invD(7) [OF inv] by (rule distinct_count_1)
  qed
  then show ?thesis using work_decreases [OF _ inv] by blast
qed

text \<open>The witness: one decoder, one packet that carries the end marker.\<close>

definition wit_run :: tracker where
  "wit_run = signal_once 0 0 1 1 (total_load 0 0 1 (decoded_add 0 0 (take_packet 0 (send_packet (assign True newDumpTracker)))))"

lemmas wit_run_defs = signal_once_def total_load_def decoded_add_def take_packet_def send_packet_def assign_def
  newDumpTracker_def new_dump_def Let_def

lemma wit_run_reach: "dump_reach 1 wit_run"
proof -
  have 1: "dump_reach 1 (assign True newDumpTracker)"
    by (rule dump_reach.step [OF dump_reach.start dump_step.receive]) (simp add: wit_run_defs)
  have 2: "dump_reach 1 (send_packet (assign True newDumpTracker))"
    by (rule dump_reach.step [OF 1 dump_step.work [OF work_step.send [where d = 0]]]) (simp_all add: wit_run_defs)
  have 3: "dump_reach 1 (take_packet 0 (send_packet (assign True newDumpTracker)))"
    by (rule dump_reach.step [OF 2 dump_step.work [OF work_step.fetch]]) (simp_all add: wit_run_defs)
  have 4: "dump_reach 1 (decoded_add 0 0 (take_packet 0 (send_packet (assign True newDumpTracker))))"
    by (rule dump_reach.step [OF 3 dump_step.work [OF work_step.add]]) (simp add: wit_run_defs)
  have 5: "dump_reach 1 (total_load 0 0 1 (decoded_add 0 0 (take_packet 0 (send_packet (assign True newDumpTracker)))))"
    by (rule dump_reach.step [OF 4 dump_step.work [OF work_step.load]]) (simp add: wit_run_defs)
  show ?thesis
    unfolding wit_run_def
    by (rule dump_reach.step [OF 5 dump_step.work [OF work_step.signal]]) (simp add: wit_run_defs)
qed

theorem done_signal_exact_witness:
  "signals wit_run = [0] \<and> uncounted_pkts 1 wit_run 0 = 0"
proof -
  have sig: "signals wit_run = [0]" by (simp add: wit_run_def wit_run_defs)
  then show ?thesis using done_signal_exact [OF wit_run_reach] by simp
qed

theorem done_signal_comes_witness: "count_list (signals wit_run) 0 = 1"
proof -
  have quiet: "\<not> work_step 1 wit_run s'" for s'
  proof
    assume "work_step 1 wit_run s'"
    then show False by (rule work_stepE) (auto simp: wit_run_def wit_run_defs split: if_splits)
  qed
  have "t_dump wit_run = 1" by (simp add: wit_run_def wit_run_defs)
  then show ?thesis using done_signal_comes [OF wit_run_reach] quiet by simp
qed

text \<open>The end marker is found exactly where it is. On every byte string the header walk
  ends without a panic, and on the bytes of well-formed messages it reports whether one
  of them ends the dump.\<close>

theorem packet_has_done_exact:
  "packetHasDone b \<noteq> None
   \<and> (list_all wf_msg ms \<longrightarrow> packetHasDone (enc_msgs ms) = Some (list_ex (\<lambda>m. nlh_Type (fst m) = 3) ms))"
  using has_done_total [of b 0] has_done_enc [of ms "[]"] by (simp add: packetHasDone_def)

theorem packet_has_done_exact_witness: "packetHasDone (enc_msgs [wit_msg 20 1 [9], wit_msg 3 1 []]) = Some True"
  using packet_has_done_exact [of "[]" "[wit_msg 20 1 [9], wit_msg 3 1 []]"] by (simp add: wit_wf) (simp add: wit_msg_def)

end
