(* ===== verification/Namespaces.thy ===== *)
theory Namespaces
  imports Envelope "HOL-Library.AList"
begin

text \<open>
  The set of tracked network namespaces (\<open>pkg/xtcp/ns_discover.go\<close>, \<open>ns_reconcile.go\<close>,
  \<open>ns_add.go\<close>, \<open>ns_delete.go\<close>, \<open>ns_net_namespace.go\<close>, \<open>ns_createNetlinkersAndStore.go\<close>,
  \<open>ns_map_count.go\<close>). \<open>nsMap\<close> and \<open>fdToNsMap\<close> are association lists with one entry per
  key. A per-namespace context and its cancel function are one number; \<open>canceled\<close> holds
  the numbers whose cancel function ran. A goroutine of \<open>netNamespaceInstance\<close> is an
  \<open>netInstance\<close> that advances by the atomic pieces between which another goroutine can run.
\<close>

section \<open>State\<close>

record nsIdentity =
  id_inode :: u64
  id_pid :: int
  id_name :: string
  id_path :: string

record netNSitem =
  it_inode :: u64
  it_pid :: int
  it_name :: string
  it_ctx :: nat
  it_socketFD :: int

text \<open>Where a goroutine of \<open>netNamespaceInstance\<close> stands: before the setns, after it, with a
  bound socket, past the first context check of \<open>createNetlinkersAndStore\<close>, past its
  store, waiting for its context, returned.\<close>

datatype stage = Starting | Entered | Bound | Passed | Stored | Blocked | Finished

text \<open>\<open>i_ns\<close> is the network namespace the goroutine's thread is in, \<open>i_fd\<close> the handle it
  was entered by, \<open>i_socket\<close> the netlink socket.\<close>

record netInstance =
  i_id :: nsIdentity
  i_stage :: stage
  i_ns :: u64
  i_fd :: int
  i_socket :: int

record Ns =
  nsMap :: "(u64 \<times> netNSitem) list"
  fdToNsMap :: "(int \<times> u64) list"
  storeCount :: u64
  deleteCount :: u64
  generation :: u64
  selfNsInode :: u64
  nextCtx :: nat
  canceled :: "nat list"
  instances :: "nat \<Rightarrow> netInstance option"

type_synonym nsd = "XTCP \<times> Ns"

definition inc_ns :: "string \<Rightarrow> string \<Rightarrow> string \<Rightarrow> nsd \<Rightarrow> nsd" where
  "inc_ns a b c p = (inc a b c (fst p), snd p)"

text \<open>\<open>nsCtx.Err() != nil\<close>\<close>

definition ctx_done :: "nat \<Rightarrow> nsd \<Rightarrow> bool" where
  "ctx_done c p \<longleftrightarrow> c \<in> set (canceled (snd p))"

section \<open>Adding and deleting a namespace\<close>

definition new_instance :: "u64 \<Rightarrow> nsIdentity \<Rightarrow> netInstance" where
  "new_instance self idn = \<lparr>i_id = idn, i_stage = Starting, i_ns = self, i_fd = -1, i_socket = -1\<rparr>"

definition nsAdd :: "nsIdentity \<Rightarrow> nsd \<Rightarrow> nsd" where
  "nsAdd idn p =
     (let (x, s) = inc_ns ''add'' ''store'' ''counter'' p;
          c = nextCtx s;
          s = s\<lparr>nextCtx := Suc c\<rparr>
      in case map_of (nsMap s) (id_inode idn) of
           Some _ \<Rightarrow> inc_ns ''add'' ''duplicate'' ''counter'' (x, s\<lparr>canceled := c # canceled s\<rparr>)
         | None \<Rightarrow>
             (x, s\<lparr>nsMap := AList.update (id_inode idn)
                     \<lparr>it_inode = id_inode idn, it_pid = id_pid idn, it_name = id_name idn, it_ctx = c,
                      it_socketFD = -1\<rparr> (nsMap s),
                   instances := (instances s)(c \<mapsto> new_instance (selfNsInode s) idn)\<rparr>))"

definition incrementDeleteAndGenerationCounts :: "Ns \<Rightarrow> Ns" where
  "incrementDeleteAndGenerationCounts s = s\<lparr>deleteCount := deleteCount s + 1, generation := generation s + 1\<rparr>"

definition nsDelete :: "u64 \<Rightarrow> nsd \<Rightarrow> nsd" where
  "nsDelete inode p =
     (case map_of (nsMap (snd p)) inode of
        None \<Rightarrow> inc_ns ''delete'' ''load'' ''error'' p
      | Some it \<Rightarrow>
          let (x, s) = p;
              fd = it_socketFD it;
              s = s\<lparr>canceled := it_ctx it # canceled s\<rparr>;
              s = s\<lparr>nsMap := AList.delete inode (nsMap s), fdToNsMap := AList.delete fd (fdToNsMap s)\<rparr>;
              x = x\<lparr>pollTime := (pollTime x)(fd := None)\<rparr>
          in inc_ns ''delete'' ''delete'' ''counter'' (x, incrementDeleteAndGenerationCounts s))"

definition MapCount :: "Ns \<Rightarrow> u64" where
  "MapCount s = storeCount s - deleteCount s"

definition lenSyncMap :: "Ns \<Rightarrow> nat" where
  "lenSyncMap s = length (nsMap s)"

definition getNetlinkSocketFDs :: "(u64 \<times> netNSitem) list \<Rightarrow> int list" where
  "getNetlinkSocketFDs m = map (it_socketFD \<circ> snd) m"

definition GetNetlinkSocketFDs :: "nsd \<Rightarrow> nsd \<times> int list" where
  "GetNetlinkSocketFDs p =
     (let p = inc_ns ''GetNetlinkSocketFDs'' ''start'' ''counter'' p
      in (p, getNetlinkSocketFDs (nsMap (snd p))))"

section \<open>Discovery and reconciliation\<close>

text \<open>The results of the two scans: \<open>scan\<close> the inode and representative pid of every
  namespace with a live process, \<open>mounts\<close> the inode and path of every bind mount, \<open>name\<close>
  the resolver's name for an inode and a pid.\<close>

definition discover_proc ::
  "(u64 \<Rightarrow> int \<Rightarrow> string) \<Rightarrow> u64 \<times> int \<Rightarrow> (u64 \<times> nsIdentity) list \<Rightarrow> (u64 \<times> nsIdentity) list" where
  "discover_proc name e out =
     (case e of (inode, pid) \<Rightarrow>
        AList.update inode \<lparr>id_inode = inode, id_pid = pid, id_name = name inode pid, id_path = []\<rparr> out)"

definition discover_mount ::
  "(u64 \<Rightarrow> int \<Rightarrow> string) \<Rightarrow> u64 \<times> string \<Rightarrow> (u64 \<times> nsIdentity) list \<Rightarrow> (u64 \<times> nsIdentity) list" where
  "discover_mount name e out =
     (case e of (inode, path) \<Rightarrow>
        if map_of out inode \<noteq> None then out
        else AList.update inode \<lparr>id_inode = inode, id_pid = 0, id_name = name inode 0, id_path = path\<rparr> out)"

definition discoverNamespaces ::
  "(u64 \<times> int) list \<Rightarrow> (u64 \<times> string) list \<Rightarrow> (u64 \<Rightarrow> int \<Rightarrow> string) \<Rightarrow> (u64 \<times> nsIdentity) list" where
  "discoverNamespaces scan mounts name =
     fold (discover_mount name) mounts (fold (discover_proc name) scan [])"

definition reconcile_delete :: "(u64 \<times> nsIdentity) list \<Rightarrow> u64 \<Rightarrow> nsd \<times> int \<Rightarrow> nsd \<times> int" where
  "reconcile_delete live inode st =
     (case st of (p, dels) \<Rightarrow>
        if inode = selfNsInode (snd p) then st
        else if map_of live inode = None then (nsDelete inode p, dels + 1)
        else st)"

definition reconcile_add :: "u64 \<times> nsIdentity \<Rightarrow> nsd \<times> int \<Rightarrow> nsd \<times> int" where
  "reconcile_add e st =
     (case (e, st) of ((inode, idn), (p, stores)) \<Rightarrow>
        if map_of (nsMap (snd p)) inode = None then (nsAdd idn p, stores + 1) else st)"

definition reconcile :: "(u64 \<times> nsIdentity) list \<Rightarrow> nsd \<Rightarrow> nsd \<times> int \<times> int" where
  "reconcile live p =
     (let p = inc_ns ''reconcile'' ''start'' ''count'' p;
          (p, dels) = fold (reconcile_delete live) (map fst (nsMap (snd p))) (p, 0);
          (p, stores) = fold reconcile_add live (p, 0)
      in (p, dels, stores))"

section \<open>Entering a namespace\<close>

text \<open>What the kernel answers to one attempt to open the handle and enter the namespace
  behind it: open fails; it yields a descriptor but setns fails, and the close that
  follows may fail too; or the thread is now in namespace \<open>ns\<close>.\<close>

datatype attempt = OpenFails | SetnsFails int bool | Enters int u64

text \<open>The thread while it tries: its namespace, the descriptors it opened and closed, and
  how long it slept, in milliseconds.\<close>

record entering =
  e_x :: XTCP
  e_ns :: u64
  e_opened :: "int list"
  e_closed :: "int list"
  e_slept :: nat

definition inc_e :: "string \<Rightarrow> string \<Rightarrow> string \<Rightarrow> entering \<Rightarrow> entering" where
  "inc_e a b c e = e\<lparr>e_x := inc a b c (e_x e)\<rparr>"

text \<open>The result is the descriptor, whether open failed, and whether setns failed.\<close>

definition attemptOpenAndSetns :: "attempt \<Rightarrow> entering \<Rightarrow> entering \<times> int \<times> bool \<times> bool" where
  "attemptOpenAndSetns a e =
     (case a of
        OpenFails \<Rightarrow> (inc_e ''openAndSetNSWithRetries'' ''open'' ''error'' e, -1, True, False)
      | Enters fd ns \<Rightarrow> (e\<lparr>e_opened := fd # e_opened e, e_ns := ns\<rparr>, fd, False, False)
      | SetnsFails fd closeErr \<Rightarrow>
          let e = inc_e ''openAndSetNSWithRetries'' ''Setns'' ''error''
                    (e\<lparr>e_opened := fd # e_opened e, e_closed := fd # e_closed e\<rparr>);
              e = (if closeErr then inc_e ''openAndSetNSWithRetries'' ''close'' ''error'' e else e)
          in (e, fd, False, True))"

definition maxRetriesCst :: nat where
  "maxRetriesCst = 10"

definition backoffFactor :: nat where
  "backoffFactor = 10"

definition backoffSleep :: "nat \<Rightarrow> entering \<Rightarrow> entering" where
  "backoffSleep attempt e =
     (if attempt \<le> 0 \<or> attempt \<ge> maxRetriesCst then e
      else e\<lparr>e_slept := e_slept e + 2 ^ attempt * backoffFactor\<rparr>)"

text \<open>The loop of \<open>openAndSetNSWithRetries\<close> from attempt number \<open>k\<close> on; \<open>as k\<close> is the
  kernel's answer to that attempt.\<close>

function setns_loop :: "(nat \<Rightarrow> attempt) \<Rightarrow> nat \<Rightarrow> entering \<Rightarrow> entering \<times> int" where
  "setns_loop as k e =
     (if k < maxRetriesCst
      then case attemptOpenAndSetns (as k) e of (e, fd, errOpen, errSetns) \<Rightarrow>
             if errOpen then (e, fd)
             else if \<not> errSetns then (e, fd)
             else setns_loop as (Suc k) (backoffSleep k e)
      else (inc_e ''openAndSetNSWithRetries'' ''SetnsAfterRetries'' ''error'' e, -1))"
  by pat_completeness auto
termination by (relation "measure (\<lambda>(as, k, e). maxRetriesCst - k)") auto

declare setns_loop.simps [simp del]

text \<open>\<open>strings.Contains\<close>, the scan of the mount table, and its retry loop. A read is the
  lines that were scanned and whether the scan ended in an error; \<open>None\<close> is a table that
  could not be opened.\<close>

fun go_contains :: "string \<Rightarrow> string \<Rightarrow> bool" where
  "go_contains s t \<longleftrightarrow> take (length t) s = t \<or> (case s of [] \<Rightarrow> False | _ # s' \<Rightarrow> go_contains s' t)"

definition checkMountInfo :: "(string list \<times> bool) option \<Rightarrow> string \<Rightarrow> bool \<times> bool" where
  "checkMountInfo table nsName =
     (case table of
        None \<Rightarrow> (False, True)
      | Some (lines, scanErr) \<Rightarrow>
          if list_ex (\<lambda>l. go_contains l nsName) lines then (True, False) else (False, scanErr))"

text \<open>The result is whether the mount was found and whether an error is returned; \<open>err\<close> is
  what earlier attempts left in the named result.\<close>

function mount_loop ::
  "(nat \<Rightarrow> (string list \<times> bool) option) \<Rightarrow> string \<Rightarrow> nat \<Rightarrow> bool \<Rightarrow> entering \<Rightarrow> entering \<times> bool \<times> bool" where
  "mount_loop tables nsName k err e =
     (if k < maxRetriesCst
      then case checkMountInfo (tables k) nsName of (ex, errC) \<Rightarrow>
             if errC then mount_loop tables nsName (Suc k) True e
             else if ex then (e, True, err)
             else mount_loop tables nsName (Suc k) err (e\<lparr>e_slept := e_slept e + 2 ^ k * backoffFactor\<rparr>)
      else (e, False, err))"
  by pat_completeness auto
termination by (relation "measure (\<lambda>(tables, nsName, k, err, e). maxRetriesCst - k)") auto

declare mount_loop.simps [simp del]

definition checkMountInfoWithRetries ::
  "(nat \<Rightarrow> (string list \<times> bool) option) \<Rightarrow> string \<Rightarrow> entering \<Rightarrow> entering \<times> bool \<times> bool" where
  "checkMountInfoWithRetries tables nsName e = mount_loop tables nsName 0 False e"

text \<open>The handle that is opened determines \<open>as\<close>; \<open>tables\<close> are the mount tables it would be
  looked for in.\<close>

definition openAndSetNSWithRetries ::
  "(string \<Rightarrow> nat \<Rightarrow> attempt) \<Rightarrow> (nat \<Rightarrow> (string list \<times> bool) option) \<Rightarrow> string \<Rightarrow> bool \<Rightarrow> entering
    \<Rightarrow> entering \<times> int" where
  "openAndSetNSWithRetries as tables nsName checkMount e =
     (if checkMount
      then case checkMountInfoWithRetries tables nsName e of (e, found, err) \<Rightarrow>
             if err \<or> \<not> found then (e, -1) else setns_loop (as nsName) 0 e
      else setns_loop (as nsName) 0 e)"

text \<open>\<open>strconv.Itoa\<close>\<close>

fun digits :: "nat \<Rightarrow> string" where
  "digits n = (if n < 10 then [char_of (48 + n)] else digits (n div 10) @ [char_of (48 + n mod 10)])"

declare digits.simps [simp del]

definition go_Itoa :: "int \<Rightarrow> string" where
  "go_Itoa n = (if n < 0 then ''-'' @ digits (nat (- n)) else digits (nat n))"

definition procNsPath :: "int \<Rightarrow> string" where
  "procNsPath pid = ''/proc/'' @ go_Itoa pid @ ''/ns/net''"

section \<open>The goroutine of a namespace\<close>

definition set_instance :: "nat \<Rightarrow> netInstance \<Rightarrow> nsd \<Rightarrow> nsd" where
  "set_instance c i p = (fst p, (snd p)\<lparr>instances := (instances (snd p))(c \<mapsto> i)\<rparr>)"

text \<open>\<open>closeFD\<close> and \<open>closeSocket\<close>: closing the invalid descriptor -1 fails.\<close>

definition closeFD :: "int \<Rightarrow> nsd \<Rightarrow> nsd" where
  "closeFD fd = inc_ns ''netNamespaceInstance'' ''closeFd'' (if fd < 0 then ''error'' else ''count'')"

definition closeSocket :: "int \<Rightarrow> nsd \<Rightarrow> nsd" where
  "closeSocket fd = inc_ns ''netNamespaceInstance'' ''closeSocketFD'' (if fd < 0 then ''error'' else ''count'')"

definition inst_handle :: "netInstance \<Rightarrow> string" where
  "inst_handle i = (if id_path (i_id i) = [] then procNsPath (id_pid (i_id i)) else id_path (i_id i))"

text \<open>From the start of \<open>netNamespaceInstance\<close> to the return of \<open>openAndSetNSWithRetries\<close>.\<close>

definition instance_enter :: "(string \<Rightarrow> nat \<Rightarrow> attempt) \<Rightarrow> nat \<Rightarrow> netInstance \<Rightarrow> nsd \<Rightarrow> nsd" where
  "instance_enter as c i p =
     (let (x, s) = inc_ns ''netNamespaceInstance'' ''start'' ''counter'' p;
          (e, fd) = openAndSetNSWithRetries as (\<lambda>_. None) (inst_handle i) False
                      \<lparr>e_x = x, e_ns = i_ns i, e_opened = [], e_closed = [], e_slept = 0\<rparr>
      in set_instance c (i\<lparr>i_stage := Entered, i_ns := e_ns e, i_fd := fd\<rparr>) (e_x e, s))"

text \<open>The abort of a canceled namespace, then \<open>Socket\<close> and \<open>Bind\<close>. \<open>None\<close> is a failing
  \<open>Socket\<close>; otherwise the new descriptor and whether \<open>Bind\<close> fails.\<close>

definition instance_open :: "(int \<times> bool) option \<Rightarrow> nat \<Rightarrow> netInstance \<Rightarrow> nsd \<Rightarrow> nsd" where
  "instance_open r c i p =
     (if ctx_done c p
      then set_instance c (i\<lparr>i_stage := Finished\<rparr>)
             (closeFD (i_fd i) (inc_ns ''netNamespaceInstance'' ''abortedDuringInit'' ''count'' p))
      else case r of
        None \<Rightarrow> set_instance c (i\<lparr>i_stage := Finished\<rparr>)
                  (closeFD (i_fd i) (inc_ns ''netNamespaceInstance'' ''Socket'' ''error'' p))
      | Some (fd, bindErr) \<Rightarrow>
          if bindErr
          then set_instance c (i\<lparr>i_stage := Finished\<rparr>)
                 (closeSocket fd (closeFD (i_fd i) (inc_ns ''netNamespaceInstance'' ''Bind'' ''error'' p)))
          else set_instance c (i\<lparr>i_stage := Bound, i_socket := fd\<rparr>) p)"

definition incrementStoreAndGenerationCounts :: "Ns \<Rightarrow> Ns" where
  "incrementStoreAndGenerationCounts s = s\<lparr>storeCount := storeCount s + 1, generation := generation s + 1\<rparr>"

text \<open>\<open>createNetlinkersAndStore\<close> in three pieces: the first check of the context, the
  store, and the second check. The caller closes the namespace handle after it.\<close>

definition store_guard :: "nat \<Rightarrow> netInstance \<Rightarrow> nsd \<Rightarrow> nsd" where
  "store_guard c i p =
     (let p = inc_ns ''createWorksAndStore'' ''start'' ''counter'' p
      in if ctx_done c p
         then set_instance c (i\<lparr>i_stage := Blocked\<rparr>)
                (closeFD (i_fd i) (inc_ns ''createWorksAndStore'' ''cancelledDuringInit'' ''count'' p))
         else set_instance c (i\<lparr>i_stage := Passed\<rparr>) p)"

definition store_put :: "nat \<Rightarrow> netInstance \<Rightarrow> nsd \<Rightarrow> nsd" where
  "store_put c i p =
     (let (x, s) = p;
          inode = id_inode (i_id i);
          s = s\<lparr>nsMap := AList.update inode
                  \<lparr>it_inode = inode, it_pid = id_pid (i_id i), it_name = id_name (i_id i), it_ctx = c,
                   it_socketFD = i_socket i\<rparr> (nsMap s),
                fdToNsMap := AList.update (i_socket i) inode (fdToNsMap s)\<rparr>
      in set_instance c (i\<lparr>i_stage := Stored\<rparr>) (x, incrementStoreAndGenerationCounts s))"

definition store_recheck :: "nat \<Rightarrow> netInstance \<Rightarrow> nsd \<Rightarrow> nsd" where
  "store_recheck c i p =
     (let p = (if ctx_done c p
               then inc_ns ''createWorksAndStore'' ''cancelRacedStore'' ''count''
                      (fst p, (snd p)\<lparr>nsMap := AList.delete (id_inode (i_id i)) (nsMap (snd p)),
                                      fdToNsMap := AList.delete (i_socket i) (fdToNsMap (snd p))\<rparr>)
               else p)
      in set_instance c (i\<lparr>i_stage := Blocked\<rparr>) (closeFD (i_fd i) p))"

text \<open>The return after the context is done: the deferred \<open>closeSocket\<close> runs.\<close>

definition instance_finish :: "nat \<Rightarrow> netInstance \<Rightarrow> nsd \<Rightarrow> nsd" where
  "instance_finish c i p =
     (if ctx_done c p
      then set_instance c (i\<lparr>i_stage := Finished\<rparr>)
             (closeSocket (i_socket i) (inc_ns ''netNamespaceInstance'' ''ctx.Done'' ''count'' p))
      else p)"

text \<open>\<open>openDefaultNetLinkSocket\<close> with the socket the kernel returned: xtcp's own namespace,
  whose context is never canceled while the daemon runs.\<close>

definition openDefaultNetLinkSocket :: "int \<Rightarrow> int \<Rightarrow> nsd \<Rightarrow> nsd" where
  "openDefaultNetLinkSocket pid fd p =
     (let (x, s) = inc_ns ''createWorksAndStore'' ''start'' ''counter'' p;
          c = nextCtx s;
          i = \<lparr>i_id = \<lparr>id_inode = selfNsInode s, id_pid = pid, id_name = ''default'', id_path = []\<rparr>,
               i_stage = Passed, i_ns = selfNsInode s, i_fd = -1, i_socket = fd\<rparr>
      in set_instance c (i\<lparr>i_stage := Blocked\<rparr>) (store_put c i (x, s\<lparr>nextCtx := Suc c\<rparr>)))"

section \<open>What a reconcile does to the map\<close>

abbreviation tracked :: "nsd \<Rightarrow> u64 \<Rightarrow> netNSitem option" where
  "tracked p \<equiv> map_of (nsMap (snd p))"

lemma inc_ns_simps [simp]: "snd (inc_ns a b c p) = snd p"
  by (simp add: inc_ns_def)

lemma nsDelete_effect:
  "tracked (nsDelete i p) = (tracked p)(i := None)"
  "selfNsInode (snd (nsDelete i p)) = selfNsInode (snd p)"
  "distinct (map fst (nsMap (snd p))) \<Longrightarrow> distinct (map fst (nsMap (snd (nsDelete i p))))"
  "set (canceled (snd (nsDelete i p))) = it_ctx ` set_option (tracked p i) \<union> set (canceled (snd p))"
  by (cases p; cases "tracked p i";
      auto simp: nsDelete_def Let_def incrementDeleteAndGenerationCounts_def AList.delete_conv'
        AList.distinct_delete)+

lemma nsAdd_effect:
  assumes "tracked p (id_inode idn) = None"
  shows "tracked (nsAdd idn p) = (tracked p)(id_inode idn \<mapsto>
      \<lparr>it_inode = id_inode idn, it_pid = id_pid idn, it_name = id_name idn, it_ctx = nextCtx (snd p),
       it_socketFD = -1\<rparr>)"
    "selfNsInode (snd (nsAdd idn p)) = selfNsInode (snd p)"
    "distinct (map fst (nsMap (snd p))) \<Longrightarrow> distinct (map fst (nsMap (snd (nsAdd idn p))))"
    "canceled (snd (nsAdd idn p)) = canceled (snd p)"
  using assms
  by (auto simp: nsAdd_def Let_def inc_ns_def split_beta AList.update_conv' AList.distinct_update)

definition doomed :: "(u64 \<times> nsIdentity) list \<Rightarrow> nsd \<Rightarrow> u64 \<Rightarrow> bool" where
  "doomed live p i \<longleftrightarrow> i \<noteq> selfNsInode (snd p) \<and> map_of live i = None"

text \<open>\<open>q\<close> is \<open>p\<close> without the doomed namespaces of \<open>ks\<close>, \<open>n\<close> of them, and with exactly
  their contexts canceled.\<close>

definition removed :: "(u64 \<times> nsIdentity) list \<Rightarrow> u64 list \<Rightarrow> nsd \<Rightarrow> nsd \<Rightarrow> int \<Rightarrow> bool" where
  "removed live ks p q n \<longleftrightarrow>
     tracked q = (\<lambda>i. if i \<in> set ks \<and> doomed live p i then None else tracked p i)
     \<and> selfNsInode (snd q) = selfNsInode (snd p)
     \<and> (distinct (map fst (nsMap (snd p))) \<longrightarrow> distinct (map fst (nsMap (snd q))))
     \<and> n = int (card {i \<in> set ks. doomed live p i})
     \<and> set (canceled (snd q)) =
         {it_ctx it |i it. i \<in> set ks \<and> doomed live p i \<and> tracked p i = Some it} \<union> set (canceled (snd p))"

lemma removed_Cons:
  assumes k: "k \<notin> set ks"
    and p1: "p1 = (if doomed live p k then nsDelete k p else p)"
    and rest: "removed live ks p1 q n"
  shows "removed live (k # ks) p q (n + (if doomed live p k then 1 else 0))"
proof -
  have dm: "doomed live p1 = doomed live p"
    by (auto simp: fun_eq_iff doomed_def p1 nsDelete_effect)
  have tr: "tracked p1 = (if doomed live p k then (tracked p)(k := None) else tracked p)"
    by (simp add: p1 nsDelete_effect)
  have "{i \<in> set (k # ks). doomed live p i} =
      (if doomed live p k then insert k {i \<in> set ks. doomed live p i} else {i \<in> set ks. doomed live p i})"
    by auto
  then have card: "card {i \<in> set (k # ks). doomed live p i} =
      card {i \<in> set ks. doomed live p i} + (if doomed live p k then 1 else 0)"
    using k by simp
  have "set (canceled (snd p1)) =
      {it_ctx it |it. doomed live p k \<and> tracked p k = Some it} \<union> set (canceled (snd p))"
    by (auto simp: p1 nsDelete_effect)
  then have can: "set (canceled (snd q)) =
      {it_ctx it |i it. i \<in> set (k # ks) \<and> doomed live p i \<and> tracked p i = Some it} \<union> set (canceled (snd p))"
    using k rest unfolding removed_def dm tr by (auto split: if_splits)
  have tq: "tracked q = (\<lambda>i. if i \<in> set (k # ks) \<and> doomed live p i then None else tracked p i)"
    using rest unfolding removed_def dm tr by (auto simp: fun_eq_iff)
  have r: "selfNsInode (snd q) = selfNsInode (snd p)"
    "distinct (map fst (nsMap (snd p))) \<Longrightarrow> distinct (map fst (nsMap (snd q)))"
    using rest nsDelete_effect(3) [of p k] unfolding removed_def
    by (auto simp: p1 nsDelete_effect(2) split: if_splits)
  have num: "n + (if doomed live p k then 1 else 0) = int (card {i \<in> set (k # ks). doomed live p i})"
    using rest unfolding removed_def dm card by simp
  show ?thesis unfolding removed_def by (intro conjI impI tq num can r)
qed

lemma reconcile_delete_fold:
  "distinct ks \<Longrightarrow> fold (reconcile_delete live) ks (p, d) = (q, d') \<Longrightarrow> removed live ks p q (d' - d)"
proof (induction ks arbitrary: p d)
  case (Cons k ks)
  let ?p = "if doomed live p k then nsDelete k p else p"
  let ?d = "if doomed live p k then d + 1 else d"
  have "reconcile_delete live k (p, d) = (?p, ?d)"
    by (auto simp: reconcile_delete_def doomed_def)
  then have "removed live ks ?p q (d' - ?d)" using Cons by auto
  from removed_Cons [OF _ refl this] Cons.prems(1)
  have "removed live (k # ks) p q (d' - ?d + (if doomed live p k then 1 else 0))" by auto
  moreover have "d' - ?d + (if doomed live p k then 1 else 0) = d' - d" by simp
  ultimately show ?case by (simp only:)
qed (simp add: removed_def)

text \<open>\<open>q\<close> is \<open>p\<close> with the untracked namespaces of \<open>live\<close> added, \<open>n\<close> of them.\<close>

definition added :: "(u64 \<times> nsIdentity) list \<Rightarrow> nsd \<Rightarrow> nsd \<Rightarrow> int \<Rightarrow> bool" where
  "added live p q n \<longleftrightarrow>
     dom (tracked q) = dom (tracked p) \<union> fst ` set live
     \<and> tracked p \<subseteq>\<^sub>m tracked q
     \<and> (\<forall>i it. tracked q i = Some it \<longrightarrow> i \<notin> dom (tracked p) \<longrightarrow> it_socketFD it = -1)
     \<and> selfNsInode (snd q) = selfNsInode (snd p)
     \<and> (distinct (map fst (nsMap (snd p))) \<longrightarrow> distinct (map fst (nsMap (snd q))))
     \<and> n = int (card (fst ` set live - dom (tracked p)))
     \<and> canceled (snd q) = canceled (snd p)"

lemma added_Cons:
  assumes idn: "id_inode idn = i"
    and p1: "p1 = (if tracked p i = None then nsAdd idn p else p)"
    and rest: "added live p1 q n"
    and i: "i \<notin> fst ` set live"
  shows "added ((i, idn) # live) p q (n + (if tracked p i = None then 1 else 0))"
proof (cases "tracked p i")
  case None
  then have un: "tracked p (id_inode idn) = None" using idn by simp
  note eff = nsAdd_effect [OF un]
  have d1: "dom (tracked p1) = insert i (dom (tracked p))" using None idn by (auto simp: p1 eff)
  have "fst ` set ((i, idn) # live) - dom (tracked p) = insert i (fst ` set live - dom (tracked p1))"
    using None unfolding d1 by auto
  then have card: "card (fst ` set ((i, idn) # live) - dom (tracked p))
      = Suc (card (fst ` set live - dom (tracked p1)))"
    using i by (simp add: d1)
  have sub: "tracked p \<subseteq>\<^sub>m tracked p1" using None idn by (auto simp: p1 eff map_le_def)
  have "it_socketFD it = -1" if q: "tracked q j = Some it" and j: "j \<notin> dom (tracked p)" for j it
  proof (cases "j = i")
    case True
    then have "tracked p1 j = Some it"
      using rest q d1 unfolding added_def map_le_def by (metis domIff insertI1)
    then show ?thesis using True None idn by (auto simp: p1 eff)
  next
    case False
    then show ?thesis using rest q j d1 unfolding added_def by (metis insert_iff)
  qed
  then show ?thesis
    using rest None idn sub card map_le_trans [of "tracked p" "tracked p1" "tracked q"]
    unfolding added_def by (auto simp: p1 d1 eff)
next
  case (Some it)
  then have "fst ` set ((i, idn) # live) - dom (tracked p) = fst ` set live - dom (tracked p1)"
    "insert i (dom (tracked p)) = dom (tracked p)"
    by (auto simp: p1 dom_def)
  then show ?thesis using rest Some unfolding added_def p1 by auto
qed

lemma reconcile_add_fold:
  "distinct (map fst live) \<Longrightarrow> \<forall>(i, idn) \<in> set live. id_inode idn = i
    \<Longrightarrow> fold reconcile_add live (p, d) = (q, d') \<Longrightarrow> added live p q (d' - d)"
proof (induction live arbitrary: p d)
  case (Cons e live)
  obtain i idn where e: "e = (i, idn)" by force
  let ?p = "if tracked p i = None then nsAdd idn p else p"
  let ?d = "if tracked p i = None then d + 1 else d"
  have "reconcile_add e (p, d) = (?p, ?d)" by (simp add: reconcile_add_def e)
  then have "added live ?p q (d' - ?d)" using Cons by auto
  moreover have "id_inode idn = i" "i \<notin> fst ` set live" using Cons.prems by (auto simp: e)
  ultimately have "added (e # live) p q (d' - ?d + (if tracked p i = None then 1 else 0))"
    using added_Cons [of idn i ?p p live q] e by blast
  moreover have "d' - ?d + (if tracked p i = None then 1 else 0) = d' - d" by simp
  ultimately show ?case by (simp only:)
qed (auto simp: added_def)

section \<open>What discovery yields\<close>

definition named_by_inode :: "(u64 \<times> nsIdentity) list \<Rightarrow> bool" where
  "named_by_inode al \<longleftrightarrow> distinct (map fst al) \<and> (\<forall>(i, idn) \<in> set al. id_inode idn = i)"

lemma fold_keeps: "(\<And>e al. P al \<Longrightarrow> P (h e al)) \<Longrightarrow> P al \<Longrightarrow> P (fold h xs al)"
  by (induction xs arbitrary: al) auto

lemma fold_keys:
  "(\<And>e al. K (h e al) = insert (k e) (K al)) \<Longrightarrow> K (fold h xs al) = K al \<union> k ` set xs"
  by (induction xs arbitrary: al) auto

lemma update_named: "named_by_inode al \<Longrightarrow> id_inode idn = i \<Longrightarrow> named_by_inode (AList.update i idn al)"
proof -
  have "set (AList.update i idn al) \<subseteq> insert (i, idn) (set al)" by (induction al) auto
  then show "named_by_inode al \<Longrightarrow> id_inode idn = i \<Longrightarrow> named_by_inode (AList.update i idn al)"
    unfolding named_by_inode_def by (auto simp: AList.distinct_update)
qed

lemma update_keys_fst: "fst ` set (AList.update i v al) = insert i (fst ` set al)"
  using AList.dom_update [of i v al] by (simp add: dom_map_of_conv_image_fst)

definition found :: "(u64 \<times> int) list \<Rightarrow> (u64 \<times> string) list \<Rightarrow> u64 set" where
  "found scan mounts = fst ` set scan \<union> fst ` set mounts"

lemma discover_named: "named_by_inode (discoverNamespaces scan mounts name)"
  unfolding discoverNamespaces_def
proof (intro fold_keeps [of named_by_inode])
  show "named_by_inode []" by (simp add: named_by_inode_def)
qed (auto simp: discover_proc_def discover_mount_def update_named split: prod.splits)

lemma discover_found: "fst ` set (discoverNamespaces scan mounts name) = found scan mounts"
proof -
  have "fst ` set (fold (discover_proc name) scan []) = fst ` set scan"
    using fold_keys [of "\<lambda>al. fst ` set al" "discover_proc name" fst scan "[]"]
    by (simp add: discover_proc_def update_keys_fst split_beta)
  moreover have "fst ` set (discover_mount name e al) = insert (fst e) (fst ` set al)" for e al
  proof (cases "map_of al (fst e)")
    case (Some v)
    then have "fst e \<in> fst ` set al" by (metis domI dom_map_of_conv_image_fst)
    then show ?thesis using Some by (simp add: discover_mount_def split_beta insert_absorb)
  qed (simp add: discover_mount_def update_keys_fst split_beta)
  ultimately show ?thesis
    using fold_keys [of "\<lambda>al. fst ` set al" "discover_mount name" fst mounts]
    by (simp add: discoverNamespaces_def found_def)
qed

section \<open>The retry loop\<close>

text \<open>The kernel's descriptors are not negative.\<close>

definition fds_valid :: "(nat \<Rightarrow> attempt) \<Rightarrow> bool" where
  "fds_valid as \<longleftrightarrow> (\<forall>k fd ns b. (as k = Enters fd ns \<or> as k = SetnsFails fd b) \<longrightarrow> 0 \<le> fd)"

definition setns_failed :: "attempt \<Rightarrow> bool" where
  "setns_failed a \<longleftrightarrow> (case a of SetnsFails _ _ \<Rightarrow> True | _ \<Rightarrow> False)"

definition enters_at :: "(nat \<Rightarrow> attempt) \<Rightarrow> nat \<Rightarrow> int \<Rightarrow> u64 \<Rightarrow> bool" where
  "enters_at as k fd ns \<longleftrightarrow>
     (\<exists>j. k \<le> j \<and> j < maxRetriesCst \<and> as j = Enters fd ns \<and> (\<forall>i. k \<le> i \<longrightarrow> i < j \<longrightarrow> setns_failed (as i)))"

definition sleep_after :: "nat \<Rightarrow> nat" where
  "sleep_after k = (\<Sum>j \<in> {max 1 k..<maxRetriesCst}. 2 ^ j * backoffFactor)"

text \<open>What the loop has done when it returns: every descriptor it opened is closed, except
  the one it returns; the thread is in the namespace of the returned descriptor, or where
  it was.\<close>

definition settled :: "(nat \<Rightarrow> attempt) \<Rightarrow> nat \<Rightarrow> entering \<Rightarrow> entering \<Rightarrow> int \<Rightarrow> bool" where
  "settled as k e e' fd \<longleftrightarrow>
     mset (e_opened e') + mset (e_closed e) =
       mset (e_opened e) + mset (e_closed e') + (if 0 \<le> fd then {#fd#} else {#})
     \<and> (if 0 \<le> fd then enters_at as k fd (e_ns e')
        else e_ns e' = e_ns e \<and> (\<nexists>f n. enters_at as k f n))
     \<and> e_slept e' \<le> e_slept e + sleep_after k"

lemma enters_at_here: "as k = Enters fd ns \<Longrightarrow> k < maxRetriesCst \<Longrightarrow> enters_at as k fd ns"
  unfolding enters_at_def by (intro exI [of _ k]) auto

lemma enters_at_next:
  assumes "setns_failed (as k)"
  shows "enters_at as k fd ns \<longleftrightarrow> enters_at as (Suc k) fd ns"
proof
  assume "enters_at as k fd ns"
  then obtain j where j: "k \<le> j" "j < maxRetriesCst" "as j = Enters fd ns"
      "\<forall>i. k \<le> i \<longrightarrow> i < j \<longrightarrow> setns_failed (as i)"
    unfolding enters_at_def by auto
  moreover have "j \<noteq> k" using j(3) assms by (auto simp: setns_failed_def)
  ultimately show "enters_at as (Suc k) fd ns" unfolding enters_at_def by (intro exI [of _ j]) auto
next
  assume "enters_at as (Suc k) fd ns"
  then show "enters_at as k fd ns"
    unfolding enters_at_def using assms by (metis Suc_leD Suc_leI le_neq_implies_less)
qed

lemma sleep_after_step:
  "k < maxRetriesCst \<Longrightarrow> e_slept (backoffSleep k e) + sleep_after (Suc k) = e_slept e + sleep_after k"
proof -
  assume k: "k < maxRetriesCst"
  show ?thesis
  proof (cases k)
    case 0
    then show ?thesis by (simp add: backoffSleep_def sleep_after_def)
  next
    case (Suc m)
    then have "{max 1 k..<maxRetriesCst} = insert k {max 1 (Suc k)..<maxRetriesCst}" using k by auto
    then show ?thesis using Suc k by (simp add: backoffSleep_def sleep_after_def)
  qed
qed

lemma sleep_after_0: "sleep_after 0 = 10220"
proof -
  have "{0..<10 :: nat} = insert 0 {1..<10}" by auto
  then have "(\<Sum>j \<in> {1..<10 :: nat}. 2 ^ j :: nat) = 1022" using sum_power2 [of 10] by simp
  then show ?thesis
    by (simp add: sleep_after_def maxRetriesCst_def backoffFactor_def flip: sum_distrib_right)
qed

lemma backoffSleep_frame [simp]:
  "e_opened (backoffSleep k e) = e_opened e" "e_closed (backoffSleep k e) = e_closed e"
  "e_ns (backoffSleep k e) = e_ns e"
  by (simp_all add: backoffSleep_def)

lemma inc_e_frame [simp]:
  "e_opened (inc_e a b c e) = e_opened e" "e_closed (inc_e a b c e) = e_closed e"
  "e_ns (inc_e a b c e) = e_ns e" "e_slept (inc_e a b c e) = e_slept e"
  by (simp_all add: inc_e_def)

lemma setns_loop_settled:
  "fds_valid as \<Longrightarrow> setns_loop as k e = (e', fd) \<Longrightarrow> settled as k e e' fd"
proof (induction as k e rule: setns_loop.induct)
  case (1 as k e)
  show ?case
  proof (cases "k < maxRetriesCst")
    case False
    then show ?thesis
      using 1(3) by (auto simp: setns_loop.simps [of as k] settled_def enters_at_def)
  next
    case k: True
    show ?thesis
    proof (cases "as k")
      case OpenFails
      then have "\<nexists>f n. enters_at as k f n"
        by (auto simp: enters_at_def setns_failed_def)
          (metis attempt.case(1) attempt.distinct(3) le_neq_implies_less le_refl)
      then show ?thesis
        using 1(3) k OpenFails
        by (auto simp: setns_loop.simps [of as k] attemptOpenAndSetns_def settled_def)
    next
      case (Enters f ns)
      then have "0 \<le> f" using 1(2) by (auto simp: fds_valid_def)
      then show ?thesis
        using 1(3) k Enters enters_at_here [of as k]
        by (auto simp: setns_loop.simps [of as k] attemptOpenAndSetns_def settled_def)
    next
      case (SetnsFails f b)
      obtain e1 where at: "attemptOpenAndSetns (as k) e = (e1, f, False, True)"
          and e1: "e_opened e1 = f # e_opened e" "e_closed e1 = f # e_closed e" "e_ns e1 = e_ns e"
            "e_slept e1 = e_slept e"
        using SetnsFails by (auto simp: attemptOpenAndSetns_def Let_def)
      then have "setns_loop as (Suc k) (backoffSleep k e1) = (e', fd)"
        using 1(3) k by (simp add: setns_loop.simps [of as k])
      then have "settled as (Suc k) (backoffSleep k e1) e' fd"
        using 1(1) [OF k at [symmetric] refl refl] 1(2) by simp
      then show ?thesis
        using e1 sleep_after_step [OF k, of e1] enters_at_next [of as k] SetnsFails
        by (auto simp: settled_def setns_failed_def)
    qed
  qed
qed

section \<open>Properties\<close>

lemma reconcile_parts:
  assumes "distinct (map fst (nsMap (snd p)))"
    and "reconcile (discoverNamespaces scan mounts name) p = (q, dels, stores)"
  obtains r where
    "removed (discoverNamespaces scan mounts name) (map fst (nsMap (snd p))) p r dels"
    "added (discoverNamespaces scan mounts name) r q stores"
proof -
  let ?live = "discoverNamespaces scan mounts name"
  let ?p = "inc_ns ''reconcile'' ''start'' ''count'' p"
  obtain r d where del: "fold (reconcile_delete ?live) (map fst (nsMap (snd p))) (?p, 0) = (r, d)"
    by (metis surj_pair)
  obtain q' n where add: "fold reconcile_add ?live (r, 0) = (q', n)" by (metis surj_pair)
  have eq: "q' = q" "d = dels" "n = stores" using assms(2) del add by (auto simp: reconcile_def Let_def)
  have "removed ?live (map fst (nsMap (snd p))) ?p r (d - 0)"
    using reconcile_delete_fold [OF assms(1) del] .
  then have "removed ?live (map fst (nsMap (snd p))) p r dels"
    using eq by (simp add: removed_def doomed_def cong: if_cong)
  moreover have "added ?live r q stores"
    using reconcile_add_fold [OF _ _ add] discover_named [of scan mounts name] eq
    unfolding named_by_inode_def by simp
  ultimately show thesis using that by blast
qed

lemma doomed_found:
  "doomed (discoverNamespaces scan mounts name) p i \<longleftrightarrow> i \<noteq> selfNsInode (snd p) \<and> i \<notin> found scan mounts"
  unfolding doomed_def map_of_eq_None_iff discover_found ..

text \<open>After a reconcile exactly the namespaces both scans found are tracked, and xtcp's own
  if it was. Namespaces that stay keep their slot, with its socket; exactly the
  contexts of the removed ones are canceled; the two counts are exact; new slots have
  no socket yet.\<close>

definition converged :: "u64 set \<Rightarrow> nsd \<Rightarrow> nsd \<Rightarrow> int \<Rightarrow> int \<Rightarrow> bool" where
  "converged live p q dels stores \<longleftrightarrow>
     dom (tracked q) = live \<union> (dom (tracked p) \<inter> {selfNsInode (snd p)})
     \<and> (\<forall>i it. tracked q i = Some it \<longrightarrow>
          (if i \<in> dom (tracked p) then tracked p i = Some it else it_socketFD it = -1))
     \<and> set (canceled (snd q)) =
          set (canceled (snd p)) \<union> {it_ctx it |i it. tracked p i = Some it \<and> i \<notin> dom (tracked q)}
     \<and> dels = int (card (dom (tracked p) - dom (tracked q)))
     \<and> stores = int (card (dom (tracked q) - dom (tracked p)))"

lemma convergedD:
  assumes "converged live p q dels stores"
  shows "dom (tracked q) = live \<union> (dom (tracked p) \<inter> {selfNsInode (snd p)})"
    "tracked q i = Some it \<Longrightarrow>
       if i \<in> dom (tracked p) then tracked p i = Some it else it_socketFD it = -1"
    "set (canceled (snd q)) =
       set (canceled (snd p)) \<union> {it_ctx it |i it. tracked p i = Some it \<and> i \<notin> dom (tracked q)}"
    "dels = int (card (dom (tracked p) - dom (tracked q)))"
    "stores = int (card (dom (tracked q) - dom (tracked p)))"
  using assms unfolding converged_def by blast+

lemma reconcile_converged:
  assumes dist: "distinct (map fst (nsMap (snd p)))"
    and run: "reconcile (discoverNamespaces scan mounts name) p = (q, dels, stores)"
  shows "converged (found scan mounts) p q dels stores"
    "distinct (map fst (nsMap (snd q)))" "selfNsInode (snd q) = selfNsInode (snd p)"
proof -
  obtain r where rem: "removed (discoverNamespaces scan mounts name) (map fst (nsMap (snd p))) p r dels"
      and add: "added (discoverNamespaces scan mounts name) r q stores"
    using reconcile_parts [OF assms] .
  let ?self = "selfNsInode (snd p)" and ?live = "found scan mounts"
  have keys: "i \<in> set (map fst (nsMap (snd p))) \<longleftrightarrow> i \<in> dom (tracked p)" for i
    by (simp add: dom_map_of_conv_image_fst)
  have tr: "tracked r = (\<lambda>i. if i \<noteq> ?self \<and> i \<notin> ?live then None else tracked p i)"
    using rem unfolding removed_def doomed_found keys by (auto simp: fun_eq_iff)
  have dr: "dom (tracked r) = dom (tracked p) \<inter> (?live \<union> {?self})"
    unfolding tr by (auto split: if_splits)
  have dq: "dom (tracked q) = ?live \<union> (dom (tracked p) \<inter> {?self})"
    using add unfolding added_def discover_found dr by auto
  have "int (card {i \<in> dom (tracked p). i \<noteq> ?self \<and> i \<notin> ?live}) = dels"
    using rem unfolding removed_def doomed_found keys by simp
  moreover have "{i \<in> dom (tracked p). i \<noteq> ?self \<and> i \<notin> ?live} = dom (tracked p) - dom (tracked q)"
    unfolding dq by auto
  moreover have "?live - dom (tracked r) = dom (tracked q) - dom (tracked p)"
    unfolding dq dr by auto
  moreover have "set (canceled (snd q)) =
      set (canceled (snd p)) \<union> {it_ctx it |i it. tracked p i = Some it \<and> i \<notin> dom (tracked q)}"
  proof -
    have "set (canceled (snd q)) = {it_ctx it |i it. i \<in> dom (tracked p) \<and> (i \<noteq> ?self \<and> i \<notin> ?live)
        \<and> tracked p i = Some it} \<union> set (canceled (snd p))"
      using rem add unfolding removed_def added_def doomed_found keys by simp
    then show ?thesis unfolding dq by blast
  qed
  moreover have "if i \<in> dom (tracked p) then tracked p i = Some it else it_socketFD it = -1"
    if q: "tracked q i = Some it" for i it
  proof (cases "i \<in> dom (tracked r)")
    case True
    then have "tracked q i = tracked r i" using add unfolding added_def map_le_def by auto
    then show ?thesis using q True unfolding tr by (auto split: if_splits)
  next
    case False
    moreover have "i \<in> ?live \<union> (dom (tracked p) \<inter> {?self})" using q dq by blast
    ultimately have "i \<notin> dom (tracked p)" unfolding dr by auto
    then show ?thesis using add q False unfolding added_def by auto
  qed
  ultimately show "converged ?live p q dels stores"
    using add dq unfolding converged_def added_def discover_found by auto
  show "distinct (map fst (nsMap (snd q)))" "selfNsInode (snd q) = selfNsInode (snd p)"
    using rem add dist unfolding removed_def added_def by auto
qed

text \<open>C6: a reconcile converges. Whatever the two scans return, the map afterwards holds
  exactly the scanned namespaces (and xtcp's own, when it was there), survivors keep
  their slot, exactly the contexts of removed namespaces are canceled and the returned
  counts are exact. A second reconcile with the same scans changes nothing.\<close>

theorem reconcile_converges:
  assumes "distinct (map fst (nsMap (snd p)))"
    and "reconcile (discoverNamespaces scan mounts name) p = (q, dels, stores)"
    and "reconcile (discoverNamespaces scan mounts name) q = (q', dels', stores')"
  shows "converged (found scan mounts) p q dels stores
    \<and> tracked q' = tracked q \<and> set (canceled (snd q')) = set (canceled (snd q)) \<and> dels' = 0 \<and> stores' = 0"
proof -
  note first = reconcile_converged [OF assms(1,2)]
  note second = reconcile_converged(1) [OF first(2) assms(3)]
  have dom: "dom (tracked q') = dom (tracked q)"
    unfolding convergedD(1) [OF second] first(3) convergedD(1) [OF first(1)] by blast
  have "tracked q' i = tracked q i" for i
  proof (cases "tracked q' i")
    case None
    then have "i \<notin> dom (tracked q)" unfolding dom [symmetric] by (simp add: domIff)
    then show ?thesis using None by (simp add: domIff)
  next
    case (Some it)
    then have "i \<in> dom (tracked q)" using dom by blast
    then show ?thesis using convergedD(2) [OF second Some] Some by simp
  qed
  then have "tracked q' = tracked q" by (rule ext)
  moreover have "set (canceled (snd q')) = set (canceled (snd q))"
    unfolding convergedD(3) [OF second] dom by blast
  moreover note convergedD(4,5) [OF second, unfolded dom Diff_cancel]
  ultimately show ?thesis using first(1) by simp
qed

text \<open>A daemon that tracks its own namespace 1 and the namespace 2, and finds 3 instead of 2.\<close>

definition wit_ns :: Ns where
  "wit_ns = \<lparr>nsMap = [], fdToNsMap = [], storeCount = 0, deleteCount = 0, generation = 0, selfNsInode = 1,
     nextCtx = 0, canceled = [], instances = (\<lambda>_. None)\<rparr>"

definition wit_two :: nsd where
  "wit_two = nsAdd \<lparr>id_inode = 2, id_pid = 20, id_name = ''b'', id_path = []\<rparr>
     (openDefaultNetLinkSocket 7 4 (wit_xtcp, wit_ns))"

theorem reconcile_converges_witness:
  "\<exists>q. map fst (nsMap (snd wit_two)) = [1, 2]
     \<and> reconcile (discoverNamespaces [(3, 30)] [] (\<lambda>_ _. ''c'')) wit_two = (q, 1, 1)
     \<and> converged (found [(3, 30)] []) wit_two q 1 1 \<and> canceled (snd q) = [1]"
proof -
  let ?live = "discoverNamespaces [(3, 30)] [] (\<lambda>_ _. ''c'')"
  have keys: "map fst (nsMap (snd wit_two)) = [1, 2]" by code_simp
  obtain q d st where q: "reconcile ?live wit_two = (q, d, st)" by (metis surj_pair)
  obtain q' d' st' where q': "reconcile ?live q = (q', d', st')" by (metis surj_pair)
  have "snd (reconcile ?live wit_two) = (1, 1)" "canceled (snd (fst (reconcile ?live wit_two))) = [1]"
    by code_simp+
  then have "d = 1" "st = 1" "canceled (snd q) = [1]" using q by auto
  then show ?thesis using reconcile_converges [OF _ q q'] keys q by auto
qed


definition wit_attempts :: "string \<Rightarrow> nat \<Rightarrow> attempt" where
  "wit_attempts h k = (if k < 2 then SetnsFails 8 False else Enters 9 2)"

definition wit_entering :: entering where
  "wit_entering = \<lparr>e_x = wit_xtcp, e_ns = 1, e_opened = [], e_closed = [], e_slept = 0\<rparr>"


end
