(* ===== verification/Namespace_Sockets.thy ===== *)
theory Namespace_Sockets
  imports Namespaces
begin

text \<open>
  The goroutines of the tracked namespaces, interleaved with each other and with the
  additions and deletions of reconciles (\<open>pkg/xtcp/ns_net_namespace.go\<close>,
  \<open>ns_createNetlinkersAndStore.go\<close>). The question is which namespace the socket behind a
  slot of \<open>nsMap\<close> reads, since its rows are labelled with the slot's inode.
\<close>

section \<open>Steps\<close>

datatype ns_action =
    DeleteNs u64
  | AddNs nsIdentity
  | EnterNs nat "string \<Rightarrow> nat \<Rightarrow> attempt"
  | OpenNs nat "(int \<times> bool) option"
  | GuardNs nat
  | PutNs nat
  | RecheckNs nat
  | FinishNs nat

fun holds_socket :: "stage \<Rightarrow> bool" where
  "holds_socket Bound = True"
| "holds_socket Passed = True"
| "holds_socket Stored = True"
| "holds_socket Blocked = True"
| "holds_socket _ = False"

text \<open>The open sockets, and the namespace one was opened in: the one its goroutine's thread
  was in.\<close>

definition holders :: "Ns \<Rightarrow> netInstance list" where
  "holders s = filter (holds_socket \<circ> i_stage) (List.map_filter (instances s) [0..<nextCtx s])"

definition socket_ns :: "Ns \<Rightarrow> int \<Rightarrow> u64 option" where
  "socket_ns s fd = map_option i_ns (List.find (\<lambda>i. i_socket i = fd) (holders s))"

definition at_stage :: "stage \<Rightarrow> nat \<Rightarrow> nsd \<Rightarrow> bool" where
  "at_stage g c p \<longleftrightarrow> (case instances (snd p) c of None \<Rightarrow> False | Some i \<Rightarrow> i_stage i = g)"

text \<open>When a step can be taken: a reconcile never deletes xtcp's own namespace, and the
  kernel hands out a descriptor that no open socket has.\<close>

fun ns_enabled :: "ns_action \<Rightarrow> nsd \<Rightarrow> bool" where
  "ns_enabled (DeleteNs i) p = (i \<noteq> selfNsInode (snd p))"
| "ns_enabled (AddNs idn) p = True"
| "ns_enabled (EnterNs c as) p = at_stage Starting c p"
| "ns_enabled (OpenNs c r) p =
     (at_stage Entered c p \<and>
      (case r of None \<Rightarrow> True | Some (fd, _) \<Rightarrow> 0 \<le> fd \<and> fd \<notin> set (map i_socket (holders (snd p)))))"
| "ns_enabled (GuardNs c) p = at_stage Bound c p"
| "ns_enabled (PutNs c) p = at_stage Passed c p"
| "ns_enabled (RecheckNs c) p = at_stage Stored c p"
| "ns_enabled (FinishNs c) p = (at_stage Blocked c p \<and> ctx_done c p)"

definition with_instance :: "nat \<Rightarrow> (netInstance \<Rightarrow> nsd \<Rightarrow> nsd) \<Rightarrow> nsd \<Rightarrow> nsd" where
  "with_instance c f p = (case instances (snd p) c of None \<Rightarrow> p | Some i \<Rightarrow> f i p)"

fun ns_run :: "ns_action \<Rightarrow> nsd \<Rightarrow> nsd" where
  "ns_run (DeleteNs i) p = nsDelete i p"
| "ns_run (AddNs idn) p = nsAdd idn p"
| "ns_run (EnterNs c as) p = with_instance c (instance_enter as c) p"
| "ns_run (OpenNs c r) p = with_instance c (instance_open r c) p"
| "ns_run (GuardNs c) p = with_instance c (store_guard c) p"
| "ns_run (PutNs c) p = with_instance c (store_put c) p"
| "ns_run (RecheckNs c) p = with_instance c (store_recheck c) p"
| "ns_run (FinishNs c) p = with_instance c (instance_finish c) p"

inductive ns_reach :: "(ns_action \<Rightarrow> nsd \<Rightarrow> bool) \<Rightarrow> nsd \<Rightarrow> nsd \<Rightarrow> bool" for P where
  ns_refl: "ns_reach P p p"
| ns_trans: "ns_reach P p q \<Longrightarrow> ns_enabled a q \<Longrightarrow> P a q \<Longrightarrow> ns_reach P p (ns_run a q)"

fun ns_schedule :: "ns_action list \<Rightarrow> nsd \<Rightarrow> nsd option" where
  "ns_schedule [] p = Some p"
| "ns_schedule (a # as) p = (if ns_enabled a p then ns_schedule as (ns_run a p) else None)"

lemma ns_schedule_reach:
  "ns_reach P p q \<Longrightarrow> ns_schedule as q = Some r \<Longrightarrow> list_all (\<lambda>a. P a = (\<lambda>_. True)) as \<Longrightarrow> ns_reach P p r"
proof (induction as arbitrary: q)
  case (Cons a as)
  then have "ns_enabled a q" "ns_schedule as (ns_run a q) = Some r" "P a q" by (simp_all split: if_splits)
  then show ?case using Cons.IH [OF ns_trans [OF Cons.prems(1)]] Cons.prems(3) by simp
qed simp

text \<open>A step in which the kernel lets the goroutine into the namespace it is for.\<close>

definition enters_own :: "ns_action \<Rightarrow> nsd \<Rightarrow> bool" where
  "enters_own a p \<longleftrightarrow>
     (case a of
        EnterNs c as \<Rightarrow>
          (case instances (snd p) c of
             None \<Rightarrow> True
           | Some i \<Rightarrow> fds_valid (as (inst_handle i))
               \<and> (\<exists>fd. enters_at (as (inst_handle i)) 0 fd (id_inode (i_id i))))
      | _ \<Rightarrow> True)"

section \<open>The invariant\<close>

definition slot_ok :: "Ns \<Rightarrow> u64 \<Rightarrow> netNSitem \<Rightarrow> bool" where
  "slot_ok s i it \<longleftrightarrow>
     (\<exists>ins. instances s (it_ctx it) = Some ins \<and> id_inode (i_id ins) = i
        \<and> (0 \<le> it_socketFD it \<longrightarrow> i_socket ins = it_socketFD it
             \<and> (i_stage ins = Stored \<or> i_stage ins = Blocked \<and> it_ctx it \<notin> set (canceled s))))"

definition inst_ok :: "nat \<Rightarrow> nat \<Rightarrow> netInstance \<Rightarrow> bool" where
  "inst_ok n c ins \<longleftrightarrow>
     c < n
     \<and> (i_stage ins \<noteq> Starting \<longrightarrow> i_stage ins \<noteq> Finished \<longrightarrow> i_ns ins = id_inode (i_id ins))
     \<and> (holds_socket (i_stage ins) \<longrightarrow> 0 \<le> i_socket ins)"

definition sockets_distinct :: "(nat \<Rightarrow> netInstance option) \<Rightarrow> bool" where
  "sockets_distinct m \<longleftrightarrow>
     (\<forall>c c' a b. m c = Some a \<longrightarrow> m c' = Some b \<longrightarrow> holds_socket (i_stage a) \<longrightarrow> holds_socket (i_stage b)
        \<longrightarrow> i_socket a = i_socket b \<longrightarrow> c = c')"

definition ns_inv :: "Ns \<Rightarrow> bool" where
  "ns_inv s \<longleftrightarrow>
     (\<forall>i it. map_of (nsMap s) i = Some it \<longrightarrow> slot_ok s i it)
     \<and> (\<forall>c ins. instances s c = Some ins \<longrightarrow> inst_ok (nextCtx s) c ins)
     \<and> sockets_distinct (instances s)"

lemma ns_invD:
  assumes "ns_inv s"
  shows "map_of (nsMap s) i = Some it \<Longrightarrow> slot_ok s i it"
    "instances s c = Some ins \<Longrightarrow> inst_ok (nextCtx s) c ins"
    "sockets_distinct (instances s)"
  using assms unfolding ns_inv_def by blast+

lemma slot_ok_frame:
  assumes "slot_ok s i it" "map_option i_id (instances s' (it_ctx it)) = map_option i_id (instances s (it_ctx it))"
    and "0 \<le> it_socketFD it \<Longrightarrow> instances s' (it_ctx it) = instances s (it_ctx it)"
    and "0 \<le> it_socketFD it \<Longrightarrow> it_ctx it \<in> set (canceled s') \<Longrightarrow> it_ctx it \<in> set (canceled s)"
  shows "slot_ok s' i it"
  using assms unfolding slot_ok_def by (cases "0 \<le> it_socketFD it") auto

text \<open>The instance of a slot's context is for the slot's inode; a slot with a socket shows
  that instance's.\<close>

lemma slot_inode:
  assumes "slot_ok s i it" "instances s (it_ctx it) = Some ins"
  shows "id_inode (i_id ins) = i" "0 \<le> it_socketFD it \<Longrightarrow> i_socket ins = it_socketFD it"
    "0 \<le> it_socketFD it \<Longrightarrow> i_stage ins = Stored \<or> i_stage ins = Blocked \<and> it_ctx it \<notin> set (canceled s)"
  using assms unfolding slot_ok_def by auto

text \<open>Replacing one instance: every slot must avoid it, and its socket must be its own or
  new.\<close>

lemma sockets_distinct_upd:
  assumes "sockets_distinct m"
    and "holds_socket (i_stage new) \<Longrightarrow>
      (\<exists>old. m c = Some old \<and> holds_socket (i_stage old) \<and> i_socket new = i_socket old)
      \<or> (\<forall>c' b. m c' = Some b \<longrightarrow> holds_socket (i_stage b) \<longrightarrow> i_socket b \<noteq> i_socket new)"
  shows "sockets_distinct (m(c \<mapsto> new))"
  unfolding sockets_distinct_def
proof (intro allI impI)
  fix c1 c2 a b
  assume 1: "(m(c \<mapsto> new)) c1 = Some a" "(m(c \<mapsto> new)) c2 = Some b"
    and h: "holds_socket (i_stage a)" "holds_socket (i_stage b)" "i_socket a = i_socket b"
  show "c1 = c2"
  proof (rule ccontr)
    assume ne: "c1 \<noteq> c2"
    have "\<exists>d x. d \<noteq> c \<and> m d = Some x \<and> holds_socket (i_stage x) \<and> i_socket x = i_socket new
            \<and> holds_socket (i_stage new) \<or> c1 \<noteq> c \<and> c2 \<noteq> c"
      using 1 h ne by (auto split: if_splits)
    then show False
    proof (elim exE disjE conjE)
      fix d x
      assume d: "d \<noteq> c" "m d = Some x" "holds_socket (i_stage x)" "i_socket x = i_socket new"
        "holds_socket (i_stage new)"
      from assms(2) [OF d(5)] show False
        using d assms(1) unfolding sockets_distinct_def by metis
    next
      assume "c1 \<noteq> c" "c2 \<noteq> c"
      then have "m c1 = Some a" "m c2 = Some b" using 1 by simp_all
      then show False using h ne assms(1) unfolding sockets_distinct_def by blast
    qed
  qed
qed

lemma ns_inv_advance:
  assumes inv: "ns_inv s" and old: "instances s c = Some ins"
    and upd: "nsMap s' = nsMap s" "nextCtx s' = nextCtx s" "canceled s' = canceled s"
      "instances s' = (instances s)(c \<mapsto> new)"
    and ok: "inst_ok (nextCtx s) c new" "i_id new = i_id ins"
    and stage: "i_stage ins \<noteq> Stored" "i_stage ins \<noteq> Blocked \<or> c \<in> set (canceled s)"
    and sock: "holds_socket (i_stage new) \<Longrightarrow>
      holds_socket (i_stage ins) \<and> i_socket new = i_socket ins
      \<or> (\<forall>c' b. instances s c' = Some b \<longrightarrow> holds_socket (i_stage b) \<longrightarrow> i_socket b \<noteq> i_socket new)"
  shows "ns_inv s'"
  unfolding ns_inv_def
proof (intro conjI allI impI)
  fix i it assume it: "map_of (nsMap s') i = Some it"
  then have so: "slot_ok s i it" using ns_invD(1) [OF inv] upd(1) by simp
  then have "0 \<le> it_socketFD it \<Longrightarrow> it_ctx it \<noteq> c"
    using slot_inode(3) [OF so] old stage by auto
  then show "slot_ok s' i it" using old ok(2) by (intro slot_ok_frame [OF so]) (auto simp: upd)
next
  fix d x assume "instances s' d = Some x"
  then show "inst_ok (nextCtx s') d x" using ok ns_invD(2) [OF inv] by (auto simp: upd split: if_splits)
next
  show "sockets_distinct (instances s')"
    unfolding upd using sock old by (intro sockets_distinct_upd ns_invD(3) [OF inv]) blast
qed

section \<open>Every step keeps it\<close>

lemma ns_frame [simp]:
  "snd (set_instance c i p) = (snd p)\<lparr>instances := (instances (snd p))(c \<mapsto> i)\<rparr>"
  "snd (closeFD fd p) = snd p" "snd (closeSocket fd p) = snd p"
  by (simp_all add: set_instance_def closeFD_def closeSocket_def)

lemma ctx_done_simp [simp]: "ctx_done c (inc_ns a b d p) = ctx_done c p"
  by (simp add: ctx_done_def)

lemma enters_at_unique:
  assumes "enters_at as k f n" "enters_at as k f' n'"
  shows "n = n'"
proof -
  obtain j where j: "k \<le> j" "as j = Enters f n" "\<forall>i. k \<le> i \<longrightarrow> i < j \<longrightarrow> setns_failed (as i)"
    using assms(1) unfolding enters_at_def by blast
  obtain j' where j': "k \<le> j'" "as j' = Enters f' n'" "\<forall>i. k \<le> i \<longrightarrow> i < j' \<longrightarrow> setns_failed (as i)"
    using assms(2) unfolding enters_at_def by blast
  have "\<not> setns_failed (as j)" "\<not> setns_failed (as j')" using j(2) j'(2) by (simp_all add: setns_failed_def)
  then have "\<not> j < j'" "\<not> j' < j" using j j' by blast+
  then have "j = j'" by simp
  then show ?thesis using j(2) j'(2) by simp
qed

lemma inv_enter:
  assumes inv: "ns_inv (snd p)" and ins: "instances (snd p) c = Some ins" and st: "i_stage ins = Starting"
    and own: "enters_own (EnterNs c as) p"
  shows "ns_inv (snd (instance_enter as c ins p))"
proof -
  obtain e fd where r: "openAndSetNSWithRetries as (\<lambda>_. None) (inst_handle ins) False
      \<lparr>e_x = inc ''netNamespaceInstance'' ''start'' ''counter'' (fst p), e_ns = i_ns ins, e_opened = [],
       e_closed = [], e_slept = 0\<rparr> = (e, fd)"
    by (metis surj_pair)
  obtain f where valid: "fds_valid (as (inst_handle ins))"
      and f: "enters_at (as (inst_handle ins)) 0 f (id_inode (i_id ins))"
    using own ins by (auto simp: enters_own_def)
  have "settled (as (inst_handle ins)) 0 \<lparr>e_x = inc ''netNamespaceInstance'' ''start'' ''counter'' (fst p),
      e_ns = i_ns ins, e_opened = [], e_closed = [], e_slept = 0\<rparr> e fd"
    using setns_loop_settled [OF valid] r by (simp add: openAndSetNSWithRetries_def)
  then have "enters_at (as (inst_handle ins)) 0 fd (e_ns e)"
    using f by (auto simp: settled_def split: if_splits)
  then have ns: "e_ns e = id_inode (i_id ins)" using enters_at_unique [OF f] by simp
  define new where "new = ins\<lparr>i_stage := Entered, i_ns := e_ns e, i_fd := fd\<rparr>"
  have s': "snd (instance_enter as c ins p) = (snd p)\<lparr>instances := (instances (snd p))(c \<mapsto> new)\<rparr>"
    using r by (simp add: instance_enter_def inc_ns_def new_def)
  show ?thesis
    unfolding s' using ns ns_invD(2) [OF inv ins] st
    by (intro ns_inv_advance [OF inv ins, where new = new]) (simp_all add: inst_ok_def new_def)
qed

lemma holders_set:
  assumes "ns_inv s"
  shows "set (holders s) = {b. \<exists>c. instances s c = Some b \<and> holds_socket (i_stage b)}"
proof -
  have "set (List.map_filter (instances s) [0..<nextCtx s]) = {b. \<exists>c. instances s c = Some b}"
    using ns_invD(2) [OF assms] by (force simp: List.map_filter_def inst_ok_def)
  then show ?thesis by (auto simp: holders_def)
qed

lemma inv_open:
  assumes inv: "ns_inv (snd p)" and ins: "instances (snd p) c = Some ins"
    and en: "ns_enabled (OpenNs c r) p"
  shows "ns_inv (snd (instance_open r c ins p))"
proof -
  have st: "i_stage ins = Entered" using en ins by (simp add: at_stage_def)
  note ok = ns_invD(2) [OF inv ins]
  have fin: "ns_inv ((snd p)\<lparr>instances := (instances (snd p))(c \<mapsto> ins\<lparr>i_stage := Finished\<rparr>)\<rparr>)"
    using ok st by (intro ns_inv_advance [OF inv ins, where new = "ins\<lparr>i_stage := Finished\<rparr>"])
      (simp_all add: inst_ok_def)
  have bound: "ns_inv ((snd p)\<lparr>instances := (instances (snd p))(c \<mapsto> ins\<lparr>i_stage := Bound, i_socket := fd\<rparr>)\<rparr>)"
    if r: "r = Some (fd, False)" for fd
  proof (intro ns_inv_advance [OF inv ins, where new = "ins\<lparr>i_stage := Bound, i_socket := fd\<rparr>"])
    have fd: "0 \<le> fd" "fd \<notin> i_socket ` set (holders (snd p))" using en r by auto
    show "inst_ok (nextCtx (snd p)) c (ins\<lparr>i_stage := Bound, i_socket := fd\<rparr>)"
      using ok st fd by (simp add: inst_ok_def)
    show "holds_socket (i_stage ins) \<and> i_socket (ins\<lparr>i_stage := Bound, i_socket := fd\<rparr>) = i_socket ins
      \<or> (\<forall>c' b. instances (snd p) c' = Some b \<longrightarrow> holds_socket (i_stage b)
            \<longrightarrow> i_socket b \<noteq> i_socket (ins\<lparr>i_stage := Bound, i_socket := fd\<rparr>))"
      using fd(2) unfolding holders_set [OF inv] by auto
  qed (simp_all add: st)
  show ?thesis
    unfolding instance_open_def by (auto simp: fin bound split: option.splits)
qed

lemma inv_guard:
  assumes inv: "ns_inv (snd p)" and ins: "instances (snd p) c = Some ins" and st: "i_stage ins = Bound"
  shows "ns_inv (snd (store_guard c ins p))"
proof -
  have "ns_inv ((snd p)\<lparr>instances := (instances (snd p))(c \<mapsto> ins\<lparr>i_stage := g\<rparr>)\<rparr>)" if "g \<in> {Passed, Blocked}" for g
    using ns_invD(2) [OF inv ins] st that
    by (intro ns_inv_advance [OF inv ins, where new = "ins\<lparr>i_stage := g\<rparr>"]) (auto simp: inst_ok_def)
  then show ?thesis by (simp add: store_guard_def Let_def)
qed

lemma inv_finish:
  assumes inv: "ns_inv (snd p)" and ins: "instances (snd p) c = Some ins"
    and st: "i_stage ins = Blocked" "ctx_done c p"
  shows "ns_inv (snd (instance_finish c ins p))"
proof -
  have "ns_inv ((snd p)\<lparr>instances := (instances (snd p))(c \<mapsto> ins\<lparr>i_stage := Finished\<rparr>)\<rparr>)"
    using ns_invD(2) [OF inv ins] st
    by (intro ns_inv_advance [OF inv ins, where new = "ins\<lparr>i_stage := Finished\<rparr>"])
      (simp_all add: inst_ok_def ctx_done_def)
  then show ?thesis using st(2) by (simp add: instance_finish_def)
qed

lemma inv_put:
  assumes inv: "ns_inv (snd p)" and ins: "instances (snd p) c = Some ins" and st: "i_stage ins = Passed"
  shows "ns_inv (snd (store_put c ins p))" (is "ns_inv ?s")
proof -
  let ?new = "ins\<lparr>i_stage := Stored\<rparr>"
  note ok = ns_invD(2) [OF inv ins]
  have s: "instances ?s = (instances (snd p))(c \<mapsto> ?new)" "nextCtx ?s = nextCtx (snd p)"
    "canceled ?s = canceled (snd p)"
    "map_of (nsMap ?s) = (map_of (nsMap (snd p)))(id_inode (i_id ins) \<mapsto>
       \<lparr>it_inode = id_inode (i_id ins), it_pid = id_pid (i_id ins), it_name = id_name (i_id ins), it_ctx = c,
        it_socketFD = i_socket ins\<rparr>)"
    by (simp_all add: store_put_def Let_def split_beta incrementStoreAndGenerationCounts_def AList.update_conv')
  have "slot_ok ?s i it" if it: "map_of (nsMap ?s) i = Some it" for i it
  proof (cases "i = id_inode (i_id ins)")
    case True
    then show ?thesis using it ok by (auto simp: s slot_ok_def inst_ok_def)
  next
    case False
    then have so: "slot_ok (snd p) i it" using it ns_invD(1) [OF inv] by (simp add: s)
    then have "0 \<le> it_socketFD it \<Longrightarrow> it_ctx it \<noteq> c"
      using slot_inode(3) [OF so] ins st by auto
    then show ?thesis using ins by (intro slot_ok_frame [OF so]) (auto simp: s)
  qed
  moreover have "inst_ok (nextCtx ?s) d x" if "instances ?s d = Some x" for d x
    using that ok st ns_invD(2) [OF inv] by (auto simp: s inst_ok_def split: if_splits)
  moreover have "sockets_distinct (instances ?s)"
    unfolding s using ins st by (intro sockets_distinct_upd ns_invD(3) [OF inv]) auto
  ultimately show ?thesis unfolding ns_inv_def by blast
qed

lemma inv_recheck:
  assumes inv: "ns_inv (snd p)" and ins: "instances (snd p) c = Some ins" and st: "i_stage ins = Stored"
  shows "ns_inv (snd (store_recheck c ins p))" (is "ns_inv ?s")
proof -
  let ?new = "ins\<lparr>i_stage := Blocked\<rparr>"
  have s: "instances ?s = (instances (snd p))(c \<mapsto> ?new)" "nextCtx ?s = nextCtx (snd p)"
    "canceled ?s = canceled (snd p)"
    "map_of (nsMap ?s) = (if ctx_done c p then (map_of (nsMap (snd p)))(id_inode (i_id ins) := None)
       else map_of (nsMap (snd p)))"
    by (simp_all add: store_recheck_def Let_def split_beta AList.delete_conv')
  have "slot_ok ?s i it" if it: "map_of (nsMap ?s) i = Some it" for i it
  proof -
    have so: "slot_ok (snd p) i it" using it ns_invD(1) [OF inv] by (auto simp: s split: if_splits)
    show ?thesis
    proof (cases "0 \<le> it_socketFD it \<and> it_ctx it = c")
      case True
      then have "id_inode (i_id ins) = i" "i_socket ins = it_socketFD it" using slot_inode [OF so] ins by auto
      moreover have "\<not> ctx_done c p" using it calculation(1) by (auto simp: s split: if_splits)
      ultimately show ?thesis using True so by (auto simp: s slot_ok_def ctx_done_def)
    next
      case False
      then show ?thesis using ins by (intro slot_ok_frame [OF so]) (auto simp: s)
    qed
  qed
  moreover have "inst_ok (nextCtx ?s) d x" if "instances ?s d = Some x" for d x
    using that st ns_invD(2) [OF inv] ins by (auto simp: s inst_ok_def split: if_splits)
  moreover have "sockets_distinct (instances ?s)"
    unfolding s using ins st by (intro sockets_distinct_upd ns_invD(3) [OF inv]) auto
  ultimately show ?thesis unfolding ns_inv_def by blast
qed

lemma inv_delete:
  assumes inv: "ns_inv (snd p)"
  shows "ns_inv (snd (nsDelete i p))"
proof (cases "tracked p i")
  case None
  then show ?thesis using inv by (simp add: nsDelete_def)
next
  case (Some it)
  let ?s = "snd (nsDelete i p)"
  have s: "instances ?s = instances (snd p)" "nextCtx ?s = nextCtx (snd p)"
    "canceled ?s = it_ctx it # canceled (snd p)" "map_of (nsMap ?s) = (tracked p)(i := None)"
    using Some by (simp_all add: nsDelete_def Let_def split_beta incrementDeleteAndGenerationCounts_def
        AList.delete_conv')
  have "slot_ok ?s j it'" if j: "map_of (nsMap ?s) j = Some it'" for j it'
  proof -
    have ne: "j \<noteq> i" and so: "slot_ok (snd p) j it'"
      using j ns_invD(1) [OF inv] by (auto simp: s split: if_splits)
    have "it_ctx it' \<noteq> it_ctx it"
      using ne so ns_invD(1) [OF inv Some] unfolding slot_ok_def by auto
    then show ?thesis by (intro slot_ok_frame [OF so]) (auto simp: s)
  qed
  then show ?thesis using ns_invD [OF inv] unfolding ns_inv_def s by blast
qed

lemma inv_add:
  assumes inv: "ns_inv (snd p)"
  shows "ns_inv (snd (nsAdd idn p))" (is "ns_inv ?s")
proof -
  let ?c = "nextCtx (snd p)"
  have fresh: "instances (snd p) ?c = None"
    using ns_invD(2) [OF inv] unfolding inst_ok_def by (metis less_irrefl not_Some_eq)
  have old: "it_ctx it \<noteq> ?c" "slot_ok (snd p) i it" if "tracked p i = Some it" for i it
    using ns_invD(1) [OF inv that] fresh by (auto simp: slot_ok_def)
  show ?thesis
  proof (cases "tracked p (id_inode idn)")
    case (Some x)
    then have s: "instances ?s = instances (snd p)" "nextCtx ?s = Suc ?c"
        "canceled ?s = ?c # canceled (snd p)" "map_of (nsMap ?s) = tracked p"
      by (simp_all add: nsAdd_def Let_def inc_ns_def split_beta)
    have "slot_ok ?s i it" if "map_of (nsMap ?s) i = Some it" for i it
    proof -
      have t: "tracked p i = Some it" using that unfolding s .
      show ?thesis using old(1) [OF t] by (intro slot_ok_frame [OF old(2) [OF t]]) (simp_all only: s, simp)
    qed
    moreover have "inst_ok (nextCtx ?s) d x" if "instances ?s d = Some x" for d x
      using that ns_invD(2) [OF inv] unfolding s inst_ok_def by (simp add: less_Suc_eq)
    ultimately show ?thesis using ns_invD(3) [OF inv] unfolding ns_inv_def s(1) by blast
  next
    case None
    let ?new = "new_instance (selfNsInode (snd p)) idn"
    have s: "instances ?s = (instances (snd p))(?c \<mapsto> ?new)" "nextCtx ?s = Suc ?c"
        "canceled ?s = canceled (snd p)" "map_of (nsMap ?s) = (tracked p)(id_inode idn \<mapsto>
          \<lparr>it_inode = id_inode idn, it_pid = id_pid idn, it_name = id_name idn, it_ctx = ?c, it_socketFD = -1\<rparr>)"
      using None by (simp_all add: nsAdd_def Let_def inc_ns_def split_beta AList.update_conv')
    have "slot_ok ?s i it" if it: "map_of (nsMap ?s) i = Some it" for i it
    proof (cases "i = id_inode idn")
      case True
      then show ?thesis using it by (auto simp: s slot_ok_def new_instance_def)
    next
      case False
      then have t: "tracked p i = Some it" using it unfolding s by simp
      show ?thesis using old(1) [OF t] by (intro slot_ok_frame [OF old(2) [OF t]]) (simp_all only: s, simp_all)
    qed
    moreover have "inst_ok (nextCtx ?s) d x" if "instances ?s d = Some x" for d x
      using that ns_invD(2) [OF inv]
      by (auto simp: s inst_ok_def new_instance_def less_Suc_eq split: if_splits)
    moreover have "sockets_distinct (instances ?s)"
      unfolding s by (intro sockets_distinct_upd ns_invD(3) [OF inv]) (simp add: new_instance_def)
    ultimately show ?thesis unfolding ns_inv_def by blast
  qed
qed

lemma at_stage_instance: "at_stage g c p \<Longrightarrow> \<exists>ins. instances (snd p) c = Some ins \<and> i_stage ins = g"
  by (auto simp: at_stage_def split: option.splits)

lemma ns_inv_step:
  assumes inv: "ns_inv (snd p)" and en: "ns_enabled a p" and own: "enters_own a p"
  shows "ns_inv (snd (ns_run a p))"
proof -
  have *: "ns_inv (snd (with_instance c f p))"
    if "at_stage g c p" "\<And>ins. instances (snd p) c = Some ins \<Longrightarrow> i_stage ins = g \<Longrightarrow> ns_inv (snd (f ins p))" for c f g
    using at_stage_instance [OF that(1)] that(2) by (auto simp: with_instance_def)
  show ?thesis
  proof (cases a)
    case (EnterNs c as)
    then show ?thesis using en own by (auto intro!: * [of Starting] inv_enter [OF inv])
  next
    case (OpenNs c r)
    then have "at_stage Entered c p" using en by simp
    then show ?thesis using en OpenNs by (auto simp del: ns_enabled.simps intro!: * [of Entered] inv_open [OF inv])
  next
    case (GuardNs c)
    then show ?thesis using en by (auto intro!: * [of Bound] inv_guard [OF inv])
  next
    case (PutNs c)
    then show ?thesis using en by (auto intro!: * [of Passed] inv_put [OF inv])
  next
    case (RecheckNs c)
    then show ?thesis using en by (auto intro!: * [of Stored] inv_recheck [OF inv])
  next
    case (FinishNs c)
    then show ?thesis using en by (auto intro!: * [of Blocked] inv_finish [OF inv])
  qed (simp_all add: inv_delete [OF inv] inv_add [OF inv])
qed

lemma ns_inv_reach: "ns_reach enters_own p q \<Longrightarrow> ns_inv (snd p) \<Longrightarrow> ns_inv (snd q)"
  by (induction rule: ns_reach.induct) (auto intro: ns_inv_step)

section \<open>Properties\<close>

definition fresh_ns :: "Ns \<Rightarrow> bool" where
  "fresh_ns s \<longleftrightarrow> nsMap s = [] \<and> canceled s = [] \<and> instances s = (\<lambda>_. None)"

lemma start_ns_inv:
  assumes "fresh_ns s" "0 \<le> fd"
  shows "ns_inv (snd (openDefaultNetLinkSocket pid fd (x, s)))"
  using assms
  by (auto simp: openDefaultNetLinkSocket_def inc_ns_def Let_def store_put_def ns_inv_def fresh_ns_def slot_ok_def
      inst_ok_def sockets_distinct_def incrementStoreAndGenerationCounts_def)

lemma socket_ns_instance:
  assumes inv: "ns_inv s" and ins: "instances s c = Some ins" "holds_socket (i_stage ins)"
  shows "socket_ns s (i_socket ins) = Some (i_ns ins)"
proof -
  have "ins \<in> set (holders s)" using ins by (auto simp: holders_set [OF inv])
  then obtain b where b: "List.find (\<lambda>i. i_socket i = i_socket ins) (holders s) = Some b"
    by (cases "List.find (\<lambda>i. i_socket i = i_socket ins) (holders s)") (auto simp: find_None_iff)
  then have "b \<in> set (holders s)" "i_socket b = i_socket ins"
    unfolding find_Some_iff by auto
  then obtain c' where c': "instances s c' = Some b" "holds_socket (i_stage b)" "i_socket b = i_socket ins"
    by (auto simp: holders_set [OF inv])
  then have "c' = c" using ns_invD(3) [OF inv] ins unfolding sockets_distinct_def by blast
  then show ?thesis using b ins(1) c'(1) by (simp add: socket_ns_def)
qed


section \<open>Well-formed maps\<close>

text \<open>Both maps have one entry per key, an item of \<open>nsMap\<close> carries its key as inode, and every
  context number in use has been handed out.\<close>

definition slots_wf :: "nat \<Rightarrow> (u64 \<times> netNSitem) list \<Rightarrow> bool" where
  "slots_wf n al \<longleftrightarrow> distinct (map fst al) \<and> (\<forall>(i, it) \<in> set al. it_inode it = i \<and> it_ctx it < n)"

definition ns_wf :: "Ns \<Rightarrow> bool" where
  "ns_wf s \<longleftrightarrow>
     slots_wf (nextCtx s) (nsMap s) \<and> distinct (map fst (fdToNsMap s))
     \<and> dom (instances s) \<subseteq> {..<nextCtx s} \<and> set (canceled s) \<subseteq> {..<nextCtx s}"

lemma set_alist_update: "set (AList.update k v al) \<subseteq> insert (k, v) (set al)"
  by (induction al) auto

lemma slots_wf_update:
  "slots_wf n al \<Longrightarrow> it_inode it = i \<Longrightarrow> it_ctx it < n \<Longrightarrow> slots_wf n (AList.update i it al)"
  using set_alist_update [of i it al] by (auto simp: slots_wf_def AList.distinct_update)

lemma slots_wf_delete: "slots_wf n al \<Longrightarrow> slots_wf n (AList.delete i al)"
  unfolding slots_wf_def using AList.distinct_delete [of al i] by (auto simp: AList.delete_eq)

lemma slots_wf_Suc: "slots_wf n al \<Longrightarrow> slots_wf (Suc n) al"
  by (auto simp: slots_wf_def less_Suc_eq)

lemma slots_wf_ctx: "slots_wf n al \<Longrightarrow> map_of al i = Some it \<Longrightarrow> it_ctx it < n"
  unfolding slots_wf_def using map_of_SomeD by fastforce

lemma wf_set_instance:
  "ns_wf (snd p) \<Longrightarrow> c < nextCtx (snd p) \<Longrightarrow> ns_wf (snd (set_instance c i p))"
  by (simp add: ns_wf_def)

lemma wf_delete: "ns_wf (snd p) \<Longrightarrow> ns_wf (snd (nsDelete i p))"
  using slots_wf_ctx [of "nextCtx (snd p)" "nsMap (snd p)" i]
  by (cases "tracked p i")
    (simp_all add: ns_wf_def nsDelete_def Let_def split_beta incrementDeleteAndGenerationCounts_def
      slots_wf_delete AList.distinct_delete)

lemma wf_add: "ns_wf (snd p) \<Longrightarrow> ns_wf (snd (nsAdd idn p))"
  by (cases "tracked p (id_inode idn)")
    (auto simp: ns_wf_def nsAdd_def Let_def inc_ns_def split_beta slots_wf_Suc less_Suc_eq
      intro!: slots_wf_update)

lemma wf_put: "ns_wf (snd p) \<Longrightarrow> c < nextCtx (snd p) \<Longrightarrow> ns_wf (snd (store_put c ins p))"
  by (simp add: ns_wf_def store_put_def Let_def split_beta incrementStoreAndGenerationCounts_def
      slots_wf_update AList.distinct_update)

lemma wf_recheck: "ns_wf (snd p) \<Longrightarrow> c < nextCtx (snd p) \<Longrightarrow> ns_wf (snd (store_recheck c ins p))"
  by (simp add: ns_wf_def store_recheck_def Let_def slots_wf_delete AList.distinct_delete)

lemma wf_step: "ns_wf (snd p) \<Longrightarrow> ns_wf (snd (ns_run a p))"
proof -
  assume wf: "ns_wf (snd p)"
  have *: "ns_wf (snd (with_instance c f p))"
    if "\<And>ins. c < nextCtx (snd p) \<Longrightarrow> ns_wf (snd (f ins p))" for c f
    using that wf by (auto simp: with_instance_def ns_wf_def dom_def split: option.splits)
  show ?thesis
  proof (cases a)
    case (EnterNs c as)
    then show ?thesis
      using wf by (auto intro!: * wf_set_instance simp: instance_enter_def inc_ns_def Let_def split_beta
          simp del: ns_frame(1))
  next
    case (OpenNs c r)
    then show ?thesis
      using wf by (auto intro!: * wf_set_instance simp: instance_open_def simp del: ns_frame(1) split: option.splits)
  next
    case (GuardNs c)
    then show ?thesis
      using wf by (auto intro!: * wf_set_instance simp: store_guard_def Let_def simp del: ns_frame(1))
  next
    case (FinishNs c)
    then show ?thesis
      using wf by (auto intro!: * wf_set_instance simp: instance_finish_def simp del: ns_frame(1))
  qed (use wf in \<open>auto intro!: * wf_put wf_recheck wf_add wf_delete\<close>)
qed


definition wit_id :: nsIdentity where
  "wit_id = \<lparr>id_inode = 2, id_pid = 20, id_name = ''b'', id_path = []\<rparr>"

definition wit_start :: nsd where
  "wit_start = openDefaultNetLinkSocket 7 4 (wit_xtcp, wit_ns)"

definition wit_added :: nsd where
  "wit_added = nsAdd wit_id wit_start"

lemma wit_ns_fresh: "fresh_ns wit_ns"
  by (simp add: fresh_ns_def wit_ns_def)

lemma wit_added_reach: "ns_reach enters_own wit_start wit_added"
  using ns_trans [OF ns_refl, of "AddNs wit_id" wit_start enters_own]
  by (simp add: wit_added_def enters_own_def)





end
