(* ===== verification/Sha256.thy ===== *)
theory Sha256
  imports Prelude
begin

text \<open>
  The part of Go's standard library that signs listener tokens: SHA-256
  (\<open>crypto/sha256\<close>), HMAC (\<open>crypto/hmac\<close>), the padding-free URL alphabet of
  \<open>encoding/base64\<close>, and the constant-time comparison of \<open>crypto/subtle\<close>. A Go string is a
  list of 8-bit characters.
\<close>

unbundle bit_operations_syntax

section \<open>SHA-256\<close>

definition sha_k :: "u32 list" where
  "sha_k = [
     0x428a2f98, 0x71374491, 0xb5c0fbcf, 0xe9b5dba5, 0x3956c25b, 0x59f111f1, 0x923f82a4, 0xab1c5ed5,
     0xd807aa98, 0x12835b01, 0x243185be, 0x550c7dc3, 0x72be5d74, 0x80deb1fe, 0x9bdc06a7, 0xc19bf174,
     0xe49b69c1, 0xefbe4786, 0x0fc19dc6, 0x240ca1cc, 0x2de92c6f, 0x4a7484aa, 0x5cb0a9dc, 0x76f988da,
     0x983e5152, 0xa831c66d, 0xb00327c8, 0xbf597fc7, 0xc6e00bf3, 0xd5a79147, 0x06ca6351, 0x14292967,
     0x27b70a85, 0x2e1b2138, 0x4d2c6dfc, 0x53380d13, 0x650a7354, 0x766a0abb, 0x81c2c92e, 0x92722c85,
     0xa2bfe8a1, 0xa81a664b, 0xc24b8b70, 0xc76c51a3, 0xd192e819, 0xd6990624, 0xf40e3585, 0x106aa070,
     0x19a4c116, 0x1e376c08, 0x2748774c, 0x34b0bcb5, 0x391c0cb3, 0x4ed8aa4a, 0x5b9cca4f, 0x682e6ff3,
     0x748f82ee, 0x78a5636f, 0x84c87814, 0x8cc70208, 0x90befffa, 0xa4506ceb, 0xbef9a3f7, 0xc67178f2]"

definition rotr :: "nat \<Rightarrow> u32 \<Rightarrow> u32" where
  "rotr n w = drop_bit n w OR push_bit (32 - n) w"

record sha_state =
  sa :: u32
  sb :: u32
  sc :: u32
  sd :: u32
  se :: u32
  sf :: u32
  sg :: u32
  sh :: u32

definition sha_init :: sha_state where
  "sha_init = \<lparr>sa = 0x6a09e667, sb = 0xbb67ae85, sc = 0x3c6ef372, sd = 0xa54ff53a,
     se = 0x510e527f, sf = 0x9b05688c, sg = 0x1f83d9ab, sh = 0x5be0cd19\<rparr>"

text \<open>The message schedule of a block of sixteen words, latest word first while it is built.\<close>

fun sha_extend :: "nat \<Rightarrow> u32 list \<Rightarrow> u32 list" where
  "sha_extend 0 ws = rev ws"
| "sha_extend (Suc n) ws =
     (let w2 = ws ! 1; w15 = ws ! 14;
          s0 = rotr 7 w15 XOR rotr 18 w15 XOR drop_bit 3 w15;
          s1 = rotr 17 w2 XOR rotr 19 w2 XOR drop_bit 10 w2
      in sha_extend n ((ws ! 15 + s0 + ws ! 6 + s1) # ws))"

definition sha_round :: "u32 \<times> u32 \<Rightarrow> sha_state \<Rightarrow> sha_state" where
  "sha_round kw s =
     (let s1 = rotr 6 (se s) XOR rotr 11 (se s) XOR rotr 25 (se s);
          ch = (se s AND sf s) XOR (NOT (se s) AND sg s);
          t1 = sh s + s1 + ch + fst kw + snd kw;
          s0 = rotr 2 (sa s) XOR rotr 13 (sa s) XOR rotr 22 (sa s);
          maj = (sa s AND sb s) XOR (sa s AND sc s) XOR (sb s AND sc s)
      in \<lparr>sa = t1 + s0 + maj, sb = sa s, sc = sb s, sd = sc s, se = sd s + t1, sf = se s, sg = sf s, sh = sg s\<rparr>)"

fun be_words :: "bytes \<Rightarrow> u32 list" where
  "be_words (a # b # c # d # r) = be_word [a, b, c, d] # be_words r"
| "be_words _ = []"

definition sha_block :: "bytes \<Rightarrow> sha_state \<Rightarrow> sha_state" where
  "sha_block blk s =
     (let t = fold sha_round (zip sha_k (sha_extend 48 (rev (be_words blk)))) s
      in \<lparr>sa = sa s + sa t, sb = sb s + sb t, sc = sc s + sc t, sd = sd s + sd t,
          se = se s + se t, sf = sf s + sf t, sg = sg s + sg t, sh = sh s + sh t\<rparr>)"

definition sha_pad :: "bytes \<Rightarrow> bytes" where
  "sha_pad msg = msg @ [0x80] @ replicate ((119 - length msg mod 64) mod 64) 0
     @ be_bytes 8 (of_nat (8 * length msg) :: u64)"

function sha_blocks :: "bytes \<Rightarrow> sha_state \<Rightarrow> sha_state" where
  "sha_blocks m s = (if m = [] then s else sha_blocks (drop 64 m) (sha_block (take 64 m) s))"
  by pat_completeness auto
termination by (relation "measure (\<lambda>(m, s). length m)") auto

declare sha_blocks.simps [simp del]

definition sha_out :: "sha_state \<Rightarrow> bytes" where
  "sha_out s = concat (map (be_bytes 4) [sa s, sb s, sc s, sd s, se s, sf s, sg s, sh s])"

definition sha256 :: "bytes \<Rightarrow> bytes" where
  "sha256 msg = sha_out (sha_blocks (sha_pad msg) sha_init)"

lemma length_sha256 [simp]: "length (sha256 msg) = 32"
  by (simp add: sha256_def sha_out_def)

section \<open>HMAC\<close>

definition hmac_key :: "bytes \<Rightarrow> bytes" where
  "hmac_key key = (let k = (if length key > 64 then sha256 key else key) in k @ replicate (64 - length k) 0)"

definition hmac_sha256 :: "bytes \<Rightarrow> bytes \<Rightarrow> bytes" where
  "hmac_sha256 key msg =
     (let k = hmac_key key
      in sha256 (map (\<lambda>b. b XOR 0x5c) k @ sha256 (map (\<lambda>b. b XOR 0x36) k @ msg)))"

section \<open>Base64\<close>

definition b64_alphabet :: string where
  "b64_alphabet = ''ABCDEFGHIJKLMNOPQRSTUVWXYZabcdefghijklmnopqrstuvwxyz0123456789-_''"

definition b64_char :: "u32 \<Rightarrow> char" where
  "b64_char w = b64_alphabet ! unat (w AND 0x3F)"

text \<open>\<open>base64.RawURLEncoding.EncodeToString\<close>\<close>

fun b64_encode :: "bytes \<Rightarrow> string" where
  "b64_encode (a # b # c # r) =
     (let v = push_bit 16 (ucast a) OR push_bit 8 (ucast b) OR ucast c :: u32
      in b64_char (drop_bit 18 v) # b64_char (drop_bit 12 v) # b64_char (drop_bit 6 v) # b64_char v
         # b64_encode r)"
| "b64_encode [a, b] =
     (let v = push_bit 16 (ucast a) OR push_bit 8 (ucast b) :: u32
      in [b64_char (drop_bit 18 v), b64_char (drop_bit 12 v), b64_char (drop_bit 6 v)])"
| "b64_encode [a] =
     (let v = push_bit 16 (ucast a) :: u32 in [b64_char (drop_bit 18 v), b64_char (drop_bit 12 v)])"
| "b64_encode [] = []"

lemma b64_char_alphabet: "b64_char w \<in> set b64_alphabet"
proof -
  have "unat (w AND 0x3F) \<le> unat (0x3F :: u32)"
    unfolding word_le_nat_alt [symmetric] by (rule word_and_le1)
  then have "unat (w AND 0x3F) < length b64_alphabet" by (simp add: b64_alphabet_def)
  then show ?thesis unfolding b64_char_def by (rule nth_mem)
qed

lemma b64_encode_alphabet: "set (b64_encode bs) \<subseteq> set b64_alphabet"
  by (induction bs rule: b64_encode.induct) (auto simp: Let_def b64_char_alphabet)

lemma b64_encode_empty: "b64_encode bs = [] \<longleftrightarrow> bs = []"
  by (cases bs rule: b64_encode.cases) (auto simp: Let_def)

section \<open>Constant-time comparison\<close>

text \<open>\<open>subtle.ConstantTimeCompare\<close>: zero for different lengths; otherwise the differences of
  all bytes are accumulated and compared with zero once.\<close>

definition ConstantTimeByteEq :: "u8 \<Rightarrow> u8 \<Rightarrow> int" where
  "ConstantTimeByteEq x y = uint (drop_bit 31 ((ucast (x XOR y) :: u32) - 1))"

definition ConstantTimeCompare :: "bytes \<Rightarrow> bytes \<Rightarrow> int" where
  "ConstantTimeCompare x y =
     (if length x \<noteq> length y then 0
      else ConstantTimeByteEq (fold (\<lambda>(a, b) v. v OR (a XOR b)) (zip x y) 0) 0)"

lemma word_xor_0_iff: "(x :: 'a::len word) XOR y = 0 \<longleftrightarrow> x = y"
  by (metis word_bw_same(3) xor.assoc xor.left_neutral xor.right_neutral)

lemma word_or_0_iff: "(x :: 'a::len word) OR y = 0 \<longleftrightarrow> x = 0 \<and> y = 0"
  by (auto simp: bit_eq_iff bit_or_iff)

lemma fold_diff_zero:
  "fold (\<lambda>(a, b) v. v OR (a XOR b)) ps (v :: u8) = 0 \<longleftrightarrow> v = 0 \<and> (\<forall>(a, b) \<in> set ps. a = b)"
  by (induction ps arbitrary: v) (auto simp: word_or_0_iff word_xor_0_iff)

lemma ConstantTimeByteEq_0: "ConstantTimeByteEq v 0 = (if v = 0 then 1 else 0)"
proof (cases "v = 0")
  case True
  have "drop_bit 31 (- 1 :: u32) = 1" by (simp add: drop_bit_eq_div)
  then show ?thesis using True by (simp add: ConstantTimeByteEq_def)
next
  case False
  let ?w = "ucast v :: u32"
  have lt: "unat v < 256" using unsigned_less [of v, where ?'a = nat] by simp
  then have w: "unat ?w = unat v" by (simp add: unsigned_ucast_eq take_bit_eq_mod)
  have "0 < unat v" "unat v < 256" using False lt by (simp_all add: unat_gt_0)
  moreover from this have "?w \<noteq> 0" using w by (metis unat_0 less_irrefl)
  ultimately have "unat (?w - 1) < 2 ^ 31" using w by (simp add: unat_minus_one)
  then have "unat (drop_bit 31 (?w - 1)) = 0"
    unfolding unat_drop_bit_eq by (simp add: drop_bit_eq_div)
  then have "drop_bit 31 (?w - 1) = 0" by (simp add: unat_eq_0)
  then show ?thesis using False by (simp add: ConstantTimeByteEq_def)
qed

lemma ConstantTimeCompare_eq: "ConstantTimeCompare x y = 1 \<longleftrightarrow> x = y"
proof (cases "length x = length y")
  case True
  then have "(\<forall>(a, b) \<in> set (zip x y). a = b) \<longleftrightarrow> x = y"
    by (induction x y rule: list_induct2) auto
  then show ?thesis using True by (simp add: ConstantTimeCompare_def ConstantTimeByteEq_0 fold_diff_zero)
qed (auto simp: ConstantTimeCompare_def)

end
