(* ===== verification/Timing.thy ===== *)
theory Timing
  imports Prelude
begin

text \<open>
  Durations, jitter and backoff (\<open>pkg/misc/timing.go\<close>; the interval functions of
  \<open>pkg/xtcp/poller.go\<close>, \<open>pkg/xtcp/destinations_s3parquet.go\<close> and
  \<open>pkg/xtcp/enrich_locality.go\<close>). A \<open>time.Duration\<close> is a number of nanoseconds between
  \<open>-2^63\<close> and \<open>2^63 - 1\<close>, modelled by \<open>int\<close> with the wrap-around of 64-bit arithmetic written
  out by \<open>wrap64\<close>. A random draw is an argument.
\<close>

section \<open>64-bit arithmetic\<close>

definition wrap64 :: "int \<Rightarrow> int" where
  "wrap64 x = (x + 2 ^ 63) mod 2 ^ 64 - 2 ^ 63"

definition go_quot :: "int \<Rightarrow> int \<Rightarrow> int" where
  "go_quot x y = sgn x * sgn y * (\<bar>x\<bar> div \<bar>y\<bar>)"

definition int64 :: "int \<Rightarrow> bool" where
  "int64 x \<longleftrightarrow> - (2 ^ 63) \<le> x \<and> x < 2 ^ 63"

lemma wrap64_id [simp]: "int64 x \<Longrightarrow> wrap64 x = x"
  unfolding wrap64_def int64_def by (subst mod_pos_pos_trivial) auto

lemma wrap64_int64 [simp]: "int64 (wrap64 x)"
  unfolding wrap64_def int64_def using pos_mod_bound [of "2 ^ 64" "x + 2 ^ 63"] pos_mod_sign [of "2 ^ 64" "x + 2 ^ 63"]
  by simp

lemma go_quot_pos [simp]: "0 \<le> x \<Longrightarrow> 0 < y \<Longrightarrow> go_quot x y = x div y"
  by (auto simp: go_quot_def sgn_if)

section \<open>Jitter\<close>

text \<open>\<open>r\<close> is what \<open>randUint64\<close> drew.\<close>

definition JitterDuration :: "u64 \<Rightarrow> int \<Rightarrow> int" where
  "JitterDuration r limit = (if limit \<le> 0 then 0 else uint r mod limit)"

definition JitterIntN :: "u64 \<Rightarrow> int \<Rightarrow> int" where
  "JitterIntN r limit = (if limit \<le> 0 then 0 else uint r mod limit)"

definition ScalePct :: "int \<Rightarrow> u32 \<Rightarrow> int" where
  "ScalePct d pct = (if d \<le> 0 \<or> pct = 0 then 0 else go_quot (wrap64 (d * uint pct)) 100)"

definition ScaleIntPct :: "int \<Rightarrow> u32 \<Rightarrow> int" where
  "ScaleIntPct n pct = (if n \<le> 0 \<or> pct = 0 then 0 else go_quot (wrap64 (n * uint pct)) 100)"

definition computeStartupDelay :: "int \<Rightarrow> u32 \<Rightarrow> (int \<Rightarrow> int) \<Rightarrow> int" where
  "computeStartupDelay freq pct jitter = jitter (ScalePct freq pct)"

definition computePollInterval :: "int \<Rightarrow> u32 \<Rightarrow> (int \<Rightarrow> int) \<Rightarrow> int" where
  "computePollInterval freq pct jitter =
     (let limit = ScalePct freq pct
      in if limit \<le> 0 then freq else wrap64 (wrap64 (freq - go_quot limit 2) + jitter limit))"

definition nextFlushDelay :: "int \<Rightarrow> u32 \<Rightarrow> (int \<Rightarrow> int) \<Rightarrow> int" where
  "nextFlushDelay interval pct jitter =
     (let limit = ScalePct interval pct
      in if limit \<le> 0 then interval else wrap64 (wrap64 (interval - go_quot limit 2) + jitter limit))"

definition jitteredThreshold :: "int \<Rightarrow> u32 \<Rightarrow> (int \<Rightarrow> int) \<Rightarrow> int" where
  "jitteredThreshold threshold pct jitterInt = wrap64 (threshold - jitterInt (ScaleIntPct threshold pct))"

section \<open>Backoff\<close>

definition second :: int where
  "second = 1000000000"

definition s3UploadBackoffBaseCst :: int where
  "s3UploadBackoffBaseCst = 1 * second"

definition s3UploadBackoffCapMinCst :: int where
  "s3UploadBackoffCapMinCst = 1 * second"

definition s3UploadBackoffCapMaxCst :: int where
  "s3UploadBackoffCapMaxCst = 3600 * second"

definition s3FlushIntervalFloorCst :: int where
  "s3FlushIntervalFloorCst = 30 * 60 * second"

definition resolveFlushInterval :: "int \<Rightarrow> int \<Rightarrow> int" where
  "resolveFlushInterval S3FlushInterval PollFrequency =
     (if S3FlushInterval > 0 then S3FlushInterval
      else if PollFrequency > s3FlushIntervalFloorCst then PollFrequency
      else s3FlushIntervalFloorCst)"

definition resolveBackoffCap :: "int \<Rightarrow> int \<Rightarrow> int" where
  "resolveBackoffCap S3UploadBackoffCap PollFrequency =
     (if S3UploadBackoffCap > 0 then S3UploadBackoffCap
      else let capDur = go_quot PollFrequency 10;
               capDur = (if capDur < s3UploadBackoffCapMinCst then s3UploadBackoffCapMinCst else capDur)
           in if capDur > s3UploadBackoffCapMaxCst then s3UploadBackoffCapMaxCst else capDur)"

definition backoffWindow :: "int \<Rightarrow> int \<Rightarrow> int \<Rightarrow> int" where
  "backoffWindow base capDur attempt =
     (let shift = attempt - 1;
          shift = (if shift < 0 then 0 else shift)
      in if shift \<ge> 33 then capDur
         else let w = wrap64 (base * 2 ^ nat shift)
              in if w \<le> 0 \<or> w > capDur then capDur else w)"

definition localityRetryMinCst :: int where
  "localityRetryMinCst = 30 * second"

definition localityRetryMaxCst :: int where
  "localityRetryMaxCst = 5 * 60 * second"

record localityRetryState =
  nextRetry :: int
  backoff :: int

definition nextLocalityRetry :: "localityRetryState \<Rightarrow> bool \<Rightarrow> int \<Rightarrow> bool \<Rightarrow> localityRetryState" where
  "nextLocalityRetry prev retrying now hard =
     (let b = (if \<not> retrying \<and> \<not> hard then 0
               else if \<not> retrying \<or> backoff prev = 0 then localityRetryMinCst
               else let b = wrap64 (backoff prev * 2)
                    in if b > localityRetryMaxCst then localityRetryMaxCst else b)
      in \<lparr>nextRetry = now + b, backoff = b\<rparr>)"

lemmas timing_consts =
  second_def s3UploadBackoffBaseCst_def s3UploadBackoffCapMinCst_def s3UploadBackoffCapMaxCst_def
  s3FlushIntervalFloorCst_def localityRetryMinCst_def localityRetryMaxCst_def

section \<open>Bounds\<close>

lemma ScalePct_exact:
  assumes "0 \<le> d" "d * uint pct < 2 ^ 63"
  shows "ScalePct d pct = d * uint pct div 100"
proof (cases "d \<le> 0 \<or> pct = 0")
  case True
  then show ?thesis using assms(1) by (auto simp: ScalePct_def)
next
  case False
  then have "0 \<le> d * uint pct" using assms(1) by simp
  moreover from this have "int64 (d * uint pct)" using assms(2) by (simp add: int64_def)
  ultimately show ?thesis using False by (simp add: ScalePct_def)
qed

lemma ScalePct_le:
  assumes "0 \<le> d" "d * uint pct < 2 ^ 63" "uint pct \<le> 100"
  shows "0 \<le> ScalePct d pct" "ScalePct d pct \<le> d"
proof -
  have "0 \<le> d * uint pct" using assms(1) by simp
  moreover have "d * uint pct \<le> d * 100" using assms(1,3) by (simp add: mult_left_mono)
  ultimately show "0 \<le> ScalePct d pct" "ScalePct d pct \<le> d"
    unfolding ScalePct_exact [OF assms(1,2)] by linarith+
qed

lemma JitterDuration_range: "0 < limit \<Longrightarrow> 0 \<le> JitterDuration r limit \<and> JitterDuration r limit < limit"
  by (simp add: JitterDuration_def)

lemma nextFlushDelay_eq: "nextFlushDelay = computePollInterval"
  by (simp add: fun_eq_iff nextFlushDelay_def computePollInterval_def)

text \<open>The jittered interval, for the poll ticker and for the S3 flush timer: within half
  the jitter window on either side of the configured one, the lower end included and the
  upper end excluded, never below half of it, and positive, with no 64-bit overflow. The
  configured percentage is at most 100 and its product with the interval fits 64 bits.\<close>

theorem jittered_interval_bounds:
  assumes "0 < freq" "uint pct \<le> 100" "freq * uint pct < 2 ^ 63" "freq < 2 ^ 62"
  defines "limit \<equiv> freq * uint pct div 100"
  shows "let i = computePollInterval freq pct (JitterDuration r)
     in freq - limit div 2 \<le> i \<and> (if limit = 0 then i = freq else i < freq + (limit - limit div 2))
        \<and> 0 < i \<and> freq \<le> 2 * i \<and> nextFlushDelay freq pct (JitterDuration r) = i"
proof -
  have lim: "ScalePct freq pct = limit" "0 \<le> limit" "limit \<le> freq"
    using ScalePct_exact [of freq pct] ScalePct_le [of freq pct] assms by auto
  show ?thesis
  proof (cases "limit = 0")
    case True
    then show ?thesis using assms(1) lim(1) by (simp add: computePollInterval_def nextFlushDelay_eq)
  next
    case False
    then have pos: "0 < limit" using lim by simp
    define j where "j = JitterDuration r limit"
    have j: "0 \<le> j" "j < limit" using JitterDuration_range [OF pos] by (auto simp: j_def)
    have half: "2 * (limit div 2) \<le> limit" "0 \<le> limit div 2" using pos by simp_all
    have range: "0 \<le> freq - limit div 2" "freq - limit div 2 < 2 ^ 62" "0 \<le> freq - limit div 2 + j"
        "freq - limit div 2 + j < 2 ^ 62 + 2 ^ 62"
      using j lim half assms(1,4) by linarith+
    then have "int64 (freq - limit div 2)" "int64 (freq - limit div 2 + j)" by (simp_all add: int64_def)
    then have "computePollInterval freq pct (JitterDuration r) = freq - limit div 2 + j"
      using pos by (simp add: computePollInterval_def lim(1) j_def)
    moreover have "freq - limit div 2 \<le> freq - limit div 2 + j" using j by linarith
    moreover have "freq \<le> 2 * (freq - limit div 2 + j)"
      using j(1) lim(3) half(1) by (simp add: algebra_simps)
    moreover have "0 < freq - limit div 2 + j" using range(3) calculation(3) assms(1) by (cases "freq - limit div 2 + j = 0") auto
    moreover have "freq - limit div 2 + j < freq + (limit - limit div 2)" using j(2) by simp
    ultimately show ?thesis using False by (simp add: Let_def nextFlushDelay_eq)
  qed
qed

theorem jittered_interval_bounds_witness:
  "let i = computePollInterval (10 * second) 20 (JitterDuration 123456789012)
   in 9 * second \<le> i \<and> i < 11 * second"
  using jittered_interval_bounds [of "10 * second" 20 123456789012] by (simp add: second_def Let_def)

text \<open>The upload backoff is the capped doubling it documents, with no overflow at any
  attempt: the window of attempt \<open>n\<close> is one second times \<open>2^(n-1)\<close>, or the cap if that is
  smaller. The cap that the daemon derives, when none is configured, is between a second
  and an hour.\<close>

theorem backoff_window_exact:
  assumes "1 \<le> attempt" "0 < capDur" "capDur \<le> second * 2 ^ 33"
  shows "backoffWindow s3UploadBackoffBaseCst capDur attempt = min capDur (second * 2 ^ nat (attempt - 1))
    \<and> (c \<le> 0 \<longrightarrow> second \<le> resolveBackoffCap c freq \<and> resolveBackoffCap c freq \<le> 3600 * second)"
proof -
  have "backoffWindow s3UploadBackoffBaseCst capDur attempt = min capDur (second * 2 ^ nat (attempt - 1))"
  proof (cases "attempt - 1 \<ge> 33")
    case True
    then have "33 \<le> nat (attempt - 1)" by simp
    then have "(2 :: int) ^ 33 \<le> 2 ^ nat (attempt - 1)" by (rule power_increasing) simp
    then have "second * 2 ^ 33 \<le> second * 2 ^ nat (attempt - 1)" by (simp add: second_def)
    then have "capDur \<le> second * 2 ^ nat (attempt - 1)" by (rule order_trans [OF assms(3)])
    then show ?thesis using True by (simp add: backoffWindow_def min_def)
  next
    case False
    then have "nat (attempt - 1) \<le> 32" by simp
    then have "(2 :: int) ^ nat (attempt - 1) \<le> 2 ^ 32" by (rule power_increasing) simp
    moreover have "0 < (2 :: int) ^ nat (attempt - 1)" by simp
    ultimately have "0 < second * 2 ^ nat (attempt - 1)" "second * 2 ^ nat (attempt - 1) < 2 ^ 63"
      unfolding second_def by simp_all
    moreover from this have "int64 (second * 2 ^ nat (attempt - 1))" by (auto simp: int64_def)
    ultimately show ?thesis
      using False assms(1) by (simp add: backoffWindow_def s3UploadBackoffBaseCst_def Let_def min_def)
  qed
  then show ?thesis by (simp add: resolveBackoffCap_def timing_consts Let_def)
qed

theorem backoff_window_exact_witness:
  "backoffWindow s3UploadBackoffBaseCst (3600 * second) 5 = 16 * second"
  using backoff_window_exact [of 5 "3600 * second"] by (simp add: second_def)

text \<open>The backoff of a failing namespace: 30 seconds, doubled on each failure up to five
  minutes.\<close>

fun retry_after :: "nat \<Rightarrow> localityRetryState" where
  "retry_after 0 = nextLocalityRetry \<lparr>nextRetry = 0, backoff = 0\<rparr> False 0 True"
| "retry_after (Suc n) = nextLocalityRetry (retry_after n) True (nextRetry (retry_after n)) True"

lemma retry_schedule: "backoff (retry_after n) = min localityRetryMaxCst (localityRetryMinCst * 2 ^ n)"
proof (induction n)
  case 0
  then show ?case by (simp add: nextLocalityRetry_def timing_consts)
next
  case (Suc n)
  have "0 < localityRetryMinCst * 2 ^ n" by (simp add: timing_consts)
  then have b: "0 < backoff (retry_after n)" "backoff (retry_after n) \<le> localityRetryMaxCst"
    unfolding Suc.IH by (auto simp: timing_consts)
  then have "int64 (backoff (retry_after n) * 2)" by (simp add: int64_def timing_consts)
  then have "backoff (retry_after (Suc n)) = min localityRetryMaxCst (backoff (retry_after n) * 2)"
    using b(1) by (simp add: nextLocalityRetry_def Let_def min_def)
  then show ?case unfolding Suc.IH by (simp add: timing_consts min_def)
qed

end
