(* ===== verification/Listener_Auth.thy ===== *)
theory Listener_Auth
  imports Sha256 Timing
begin

text \<open>
  Authentication and authorisation of the listener endpoints (\<open>pkg/listenerauth/listenerauth.go\<close>
  and \<open>policy.go\<close>): the bearer credential, the two modes that check one, the read and admin
  policy over it, its gRPC and HTTP front ends, and the client side. A time is a number of
  seconds since 1970; the code drops what is below a minute. The delay after a failure is
  modelled by its length.
\<close>

section \<open>White space\<close>

text \<open>The UTF-8 sequences of the characters \<open>unicode.IsSpace\<close> accepts.\<close>

definition space_runes :: "string list" where
  "space_runes = [
     [CHR 0x09], [CHR 0x0A], [CHR 0x0B], [CHR 0x0C], [CHR 0x0D], [CHR 0x20], [CHR 0xC2, CHR 0x85],
     [CHR 0xC2, CHR 0xA0], [CHR 0xE1, CHR 0x9A, CHR 0x80], [CHR 0xE2, CHR 0x80, CHR 0x80],
     [CHR 0xE2, CHR 0x80, CHR 0x81], [CHR 0xE2, CHR 0x80, CHR 0x82], [CHR 0xE2, CHR 0x80, CHR 0x83],
     [CHR 0xE2, CHR 0x80, CHR 0x84], [CHR 0xE2, CHR 0x80, CHR 0x85], [CHR 0xE2, CHR 0x80, CHR 0x86],
     [CHR 0xE2, CHR 0x80, CHR 0x87], [CHR 0xE2, CHR 0x80, CHR 0x88], [CHR 0xE2, CHR 0x80, CHR 0x89],
     [CHR 0xE2, CHR 0x80, CHR 0x8A], [CHR 0xE2, CHR 0x80, CHR 0xA8], [CHR 0xE2, CHR 0x80, CHR 0xA9],
     [CHR 0xE2, CHR 0x80, CHR 0xAF], [CHR 0xE2, CHR 0x81, CHR 0x9F], [CHR 0xE3, CHR 0x80, CHR 0x80]]"

definition starts_with :: "string \<Rightarrow> string \<Rightarrow> bool" where
  "starts_with s p \<longleftrightarrow> take (length p) s = p"

function trim_runes :: "string list \<Rightarrow> string \<Rightarrow> string" where
  "trim_runes rs s =
     (case List.find (\<lambda>r. r \<noteq> [] \<and> starts_with s r) rs of
        None \<Rightarrow> s
      | Some r \<Rightarrow> trim_runes rs (drop (length r) s))"
  by pat_completeness auto
termination
proof (relation "measure (length \<circ> snd)")
  fix rs s r
  assume "List.find (\<lambda>r. r \<noteq> [] \<and> starts_with s r) rs = Some r"
  then have "r \<noteq> []" "take (length r) s = r" by (auto simp: find_Some_iff starts_with_def)
  then have "0 < length r" "0 < length s" by auto
  then show "((rs, drop (length r) s), (rs, s)) \<in> measure (length \<circ> snd)" by simp
qed simp

declare trim_runes.simps [simp del]

definition go_TrimSpace :: "string \<Rightarrow> string" where
  "go_TrimSpace s = rev (trim_runes (map rev space_runes) (rev (trim_runes space_runes s)))"

text \<open>Text without any character of a space sequence is left alone.\<close>

lemma trim_runes_id:
  assumes "\<forall>r \<in> set rs. r \<noteq> [] \<longrightarrow> hd r \<notin> set s"
  shows "trim_runes rs s = s"
proof -
  have "\<not> (r \<noteq> [] \<and> starts_with s r)" if "r \<in> set rs" for r
    using assms that by (cases r; cases s) (auto simp: starts_with_def)
  then have "List.find (\<lambda>r. r \<noteq> [] \<and> starts_with s r) rs = None" by (auto simp: find_None_iff)
  then show ?thesis by (simp add: trim_runes.simps [of rs])
qed

definition space_free :: "string \<Rightarrow> bool" where
  "space_free s \<longleftrightarrow> (\<forall>r \<in> set space_runes. hd r \<notin> set s \<and> last r \<notin> set s)"

lemma TrimSpace_id: "space_free s \<Longrightarrow> go_TrimSpace s = s"
  unfolding go_TrimSpace_def space_free_def
  by (subst trim_runes_id, force, subst trim_runes_id) (auto simp: hd_rev)

section \<open>Authenticator\<close>

datatype ListenerAuthMode =
    LISTENER_AUTH_MODE_UNSPECIFIED
  | LISTENER_AUTH_MODE_DISABLED
  | LISTENER_AUTH_MODE_RAW_TOKEN
  | LISTENER_AUTH_MODE_HMAC_UTC_MINUTE
  | LISTENER_AUTH_MODE_OTHER int

record ListenerAuth =
  la_Mode :: ListenerAuthMode
  la_RawToken :: string
  la_HmacSharedKey :: string
  la_SignedTokenSkewMinutes :: "u32 option"
  la_FailureJitterMin :: "int option"
  la_FailureJitterMax :: "int option"

datatype auth_error =
    ErrMissingCredentials
  | ErrDuplicateCredentials
  | ErrMalformedCredentials
  | ErrInvalidCredentials
  | ErrInsufficientAccess
  | ErrSkewTooLarge u32
  | ErrJitterRange
  | ErrJitterNegative
  | ErrRawNeedsToken
  | ErrHmacNeedsKey
  | ErrUnsupportedMode
  | ErrBothCredentials
  | ErrRand

definition bearerPrefix :: string where
  "bearerPrefix = ''Bearer ''"

definition DefaultSignedTokenSkewMinutes :: u32 where
  "DefaultSignedTokenSkewMinutes = 1"

definition MaxSignedTokenSkewMinutes :: u32 where
  "MaxSignedTokenSkewMinutes = 5"

definition DefaultFailureJitterMin :: int where
  "DefaultFailureJitterMin = 20 * 1000000"

definition DefaultFailureJitterMax :: int where
  "DefaultFailureJitterMax = 200 * 1000000"

record Authenticator =
  a_mode :: ListenerAuthMode
  a_rawToken :: string
  a_hmacKey :: string
  a_skew :: u32
  a_jitterMin :: int
  a_jitterMax :: int

definition durationOrDefault :: "int option \<Rightarrow> int \<Rightarrow> int" where
  "durationOrDefault d def = (case d of None \<Rightarrow> def | Some v \<Rightarrow> v)"

definition GetSignedTokenSkewMinutes :: "ListenerAuth \<Rightarrow> u32" where
  "GetSignedTokenSkewMinutes cfg = (case la_SignedTokenSkewMinutes cfg of Some v \<Rightarrow> v | None \<Rightarrow> 0)"

definition disabled_auth :: Authenticator where
  "disabled_auth = \<lparr>a_mode = LISTENER_AUTH_MODE_DISABLED, a_rawToken = [], a_hmacKey = [], a_skew = 0,
     a_jitterMin = 0, a_jitterMax = 0\<rparr>"

definition newWithClock :: "ListenerAuth option \<Rightarrow> auth_error + Authenticator" where
  "newWithClock cfg =
     (case cfg of
        None \<Rightarrow> Inr disabled_auth
      | Some cfg \<Rightarrow>
          if la_Mode cfg = LISTENER_AUTH_MODE_UNSPECIFIED \<or> la_Mode cfg = LISTENER_AUTH_MODE_DISABLED
          then Inr disabled_auth
          else
            let a = \<lparr>a_mode = la_Mode cfg, a_rawToken = la_RawToken cfg, a_hmacKey = la_HmacSharedKey cfg,
                     a_skew = DefaultSignedTokenSkewMinutes,
                     a_jitterMin = durationOrDefault (la_FailureJitterMin cfg) DefaultFailureJitterMin,
                     a_jitterMax = durationOrDefault (la_FailureJitterMax cfg) DefaultFailureJitterMax\<rparr>;
                a = a\<lparr>a_skew := GetSignedTokenSkewMinutes cfg\<rparr>
            in if a_skew a > MaxSignedTokenSkewMinutes then Inl (ErrSkewTooLarge (a_skew a))
               else if a_jitterMax a < a_jitterMin a then Inl ErrJitterRange
               else case a_mode a of
                      LISTENER_AUTH_MODE_RAW_TOKEN \<Rightarrow> if a_rawToken a = [] then Inl ErrRawNeedsToken else Inr a
                    | LISTENER_AUTH_MODE_HMAC_UTC_MINUTE \<Rightarrow> if a_hmacKey a = [] then Inl ErrHmacNeedsKey else Inr a
                    | _ \<Rightarrow> Inl ErrUnsupportedMode)"

definition auth_Enabled :: "Authenticator \<Rightarrow> bool" where
  "auth_Enabled a \<longleftrightarrow> a_mode a \<noteq> LISTENER_AUTH_MODE_UNSPECIFIED \<and> a_mode a \<noteq> LISTENER_AUTH_MODE_DISABLED"

definition bearerToken :: "string list \<Rightarrow> auth_error + string" where
  "bearerToken values =
     (if length values = 0 then Inl ErrMissingCredentials
      else if length values \<noteq> 1 then Inl ErrDuplicateCredentials
      else
        let value = hd values
        in if \<not> starts_with value bearerPrefix then Inl ErrMalformedCredentials
           else
             let token = drop (length bearerPrefix) value
             in if token = [] \<or> token \<noteq> go_TrimSpace token \<or> list_ex (\<lambda>c. c \<in> {CHR '' '', CHR 0x09, CHR 0x0D, CHR 0x0A}) token
                then Inl ErrMalformedCredentials
                else Inr token)"

definition str_of_bytes :: "string \<Rightarrow> bytes" where
  "str_of_bytes s = map of_char s"

definition constantTimeStringEqual :: "string \<Rightarrow> string \<Rightarrow> bool" where
  "constantTimeStringEqual a b =
     (if length a \<noteq> length b then False else ConstantTimeCompare (str_of_bytes a) (str_of_bytes b) = 1)"

text \<open>\<open>strconv.FormatInt(n, 10)\<close>\<close>

fun format_digits :: "nat \<Rightarrow> string" where
  "format_digits n =
     (if n < 10 then [char_of (48 + n)] else format_digits (n div 10) @ [char_of (48 + n mod 10)])"

declare format_digits.simps [simp del]

definition FormatInt :: "int \<Rightarrow> string" where
  "FormatInt n = (if n < 0 then ''-'' @ format_digits (nat (- n)) else format_digits (nat n))"

definition SignedToken :: "string \<Rightarrow> int \<Rightarrow> string" where
  "SignedToken sharedKey t =
     (let minute = FormatInt (go_quot t 60)
      in b64_encode (hmac_sha256 (str_of_bytes sharedKey) (str_of_bytes minute)))"

definition validToken :: "int \<Rightarrow> Authenticator \<Rightarrow> string \<Rightarrow> bool" where
  "validToken clock a token =
     (case a_mode a of
        LISTENER_AUTH_MODE_RAW_TOKEN \<Rightarrow> constantTimeStringEqual token (a_rawToken a)
      | LISTENER_AUTH_MODE_HMAC_UTC_MINUTE \<Rightarrow>
          let now = clock - clock mod 60
          in list_ex (\<lambda>delta. constantTimeStringEqual token (SignedToken (a_hmacKey a) (now + delta * 60)))
               [- uint (a_skew a)..uint (a_skew a)]
      | _ \<Rightarrow> False)"

text \<open>\<open>None\<close> is a nil error.\<close>

definition AuthenticateValues :: "int \<Rightarrow> Authenticator \<Rightarrow> string list \<Rightarrow> auth_error option" where
  "AuthenticateValues clock a values =
     (if \<not> auth_Enabled a then None
      else case bearerToken values of
             Inl err \<Rightarrow> Some err
           | Inr token \<Rightarrow> if validToken clock a token then None else Some ErrInvalidCredentials)"

text \<open>\<open>draw n\<close> is what \<open>rand.Int\<close> returns for the bound \<open>n\<close>, an \<open>Inl\<close> its error; a bound that is
  not positive makes it panic, \<open>None\<close>. The bound is computed in 64 bits.\<close>

definition rand_Int :: "(int \<Rightarrow> auth_error + int) \<Rightarrow> int \<Rightarrow> (auth_error + int) option" where
  "rand_Int draw n = (if n \<le> 0 then None else Some (draw n))"

definition CryptoJitterDuration :: "(int \<Rightarrow> auth_error + int) \<Rightarrow> int \<Rightarrow> int \<Rightarrow> (auth_error + int) option" where
  "CryptoJitterDuration draw lo hi =
     (if lo < 0 \<or> hi < 0 then Some (Inl ErrJitterNegative)
      else if hi < lo then Some (Inl ErrJitterRange)
      else if hi = lo then Some (Inr lo)
      else do {
        n \<leftarrow> rand_Int draw (wrap64 (hi - lo + 1));
        Some (case n of Inl err \<Rightarrow> Inl err | Inr n \<Rightarrow> Inr (lo + n)) })"

definition auth_Jitter :: "(int \<Rightarrow> auth_error + int) \<Rightarrow> Authenticator \<Rightarrow> int option" where
  "auth_Jitter draw a =
     (if \<not> auth_Enabled a then Some 0
      else do {
        r \<leftarrow> CryptoJitterDuration draw (a_jitterMin a) (a_jitterMax a);
        Some (case r of Inl _ \<Rightarrow> a_jitterMin a | Inr d \<Rightarrow> d) })"

text \<open>The front ends of a lone authenticator: the answer and the delay before it.\<close>

datatype grpc_code = OK | PermissionDenied | Unauthenticated

datatype http_result = Serve | Forbidden | Unauthorized

definition auth_WrapHTTP ::
  "(int \<Rightarrow> auth_error + int) \<Rightarrow> int \<Rightarrow> Authenticator \<Rightarrow> string list \<Rightarrow> (http_result \<times> int) option" where
  "auth_WrapHTTP draw clock a values =
     (if \<not> auth_Enabled a then Some (Serve, 0)
      else case AuthenticateValues clock a values of
             None \<Rightarrow> Some (Serve, 0)
           | Some _ \<Rightarrow> map_option (Pair Unauthorized) (auth_Jitter draw a))"

text \<open>\<open>md\<close> is the authorization values of the incoming metadata, \<open>None\<close> without metadata.\<close>

definition authenticateGRPC ::
  "(int \<Rightarrow> auth_error + int) \<Rightarrow> int \<Rightarrow> Authenticator \<Rightarrow> string list option \<Rightarrow> (grpc_code \<times> int) option" where
  "authenticateGRPC draw clock a md =
     (if \<not> auth_Enabled a then Some (OK, 0)
      else case md of
             None \<Rightarrow> map_option (Pair Unauthenticated) (auth_Jitter draw a)
           | Some values \<Rightarrow>
               (case AuthenticateValues clock a values of
                  None \<Rightarrow> Some (OK, 0)
                | Some _ \<Rightarrow> map_option (Pair Unauthenticated) (auth_Jitter draw a)))"

section \<open>Policy\<close>

datatype Access = ACCESS_UNSPECIFIED | ACCESS_READ | ACCESS_ADMIN

type_synonym Methods = "string \<rightharpoonup> Access"

definition StandardMethods :: Methods where
  "StandardMethods = map_of (map (\<lambda>k. (k, ACCESS_READ))
     [''/grpc.health.v1.Health/Check'', ''/grpc.health.v1.Health/List'', ''/grpc.health.v1.Health/Watch'',
      ''/grpc.reflection.v1.ServerReflection/ServerReflectionInfo'',
      ''/grpc.reflection.v1alpha.ServerReflection/ServerReflectionInfo''])"

text \<open>A service descriptor, with the access option of each method.\<close>

record ServiceDescriptor =
  sd_FullName :: string
  sd_Methods :: "(string \<times> Access option) list"

definition ServiceMethods :: "ServiceDescriptor \<Rightarrow> Methods" where
  "ServiceMethods desc = fold (\<lambda>(name, opt) out.
     out(''/'' @ sd_FullName desc @ ''/'' @ name \<mapsto> (case opt of None \<Rightarrow> ACCESS_UNSPECIFIED | Some a \<Rightarrow> a)))
     (sd_Methods desc) Map.empty"

definition Merge :: "Methods \<Rightarrow> Methods \<Rightarrow> Methods" where
  "Merge m other = m ++ other"

record Policy =
  p_read :: Authenticator
  p_admin :: Authenticator
  p_methods :: Methods

definition NewPolicy :: "ListenerAuth option \<Rightarrow> ListenerAuth option \<Rightarrow> Methods \<Rightarrow> auth_error + Policy" where
  "NewPolicy read admin methods =
     (case newWithClock read of
        Inl err \<Rightarrow> Inl err
      | Inr r \<Rightarrow>
          case newWithClock admin of
            Inl err \<Rightarrow> Inl err
          | Inr a \<Rightarrow> Inr \<lparr>p_read = r, p_admin = a, p_methods = Merge Map.empty methods\<rparr>)"

definition split_policy :: "Policy \<Rightarrow> bool" where
  "split_policy p = auth_Enabled (p_admin p)"

definition policy_Enabled :: "Policy \<Rightarrow> bool" where
  "policy_Enabled p \<longleftrightarrow> auth_Enabled (p_read p) \<or> split_policy p"

definition effective :: "Access \<Rightarrow> Access" where
  "effective a = (if a = ACCESS_READ then a else ACCESS_ADMIN)"

text \<open>A missing key of a Go map reads as the zero value.\<close>

definition MethodAccess :: "Policy \<Rightarrow> string \<Rightarrow> Access" where
  "MethodAccess p fullMethod =
     effective (case p_methods p fullMethod of None \<Rightarrow> ACCESS_UNSPECIFIED | Some a \<Rightarrow> a)"

definition Authorize :: "int \<Rightarrow> Policy \<Rightarrow> string list \<Rightarrow> Access \<Rightarrow> auth_error option" where
  "Authorize clock p values need =
     (if \<not> split_policy p then AuthenticateValues clock (p_read p) values
      else if effective need = ACCESS_READ
      then if \<not> auth_Enabled (p_read p) then None
           else if AuthenticateValues clock (p_read p) values = None then None
           else AuthenticateValues clock (p_admin p) values
      else
        let err = AuthenticateValues clock (p_admin p) values
        in if err = None then None
           else if auth_Enabled (p_read p) \<and> AuthenticateValues clock (p_read p) values = None
           then Some ErrInsufficientAccess
           else err)"

definition policy_jitter :: "(int \<Rightarrow> auth_error + int) \<Rightarrow> Policy \<Rightarrow> int option" where
  "policy_jitter draw p =
     (if auth_Enabled (p_read p) then auth_Jitter draw (p_read p) else auth_Jitter draw (p_admin p))"

text \<open>Metadata that is missing reads as no values at all.\<close>

definition authorizeGRPC ::
  "(int \<Rightarrow> auth_error + int) \<Rightarrow> int \<Rightarrow> Policy \<Rightarrow> string list option \<Rightarrow> string \<Rightarrow> (grpc_code \<times> int) option" where
  "authorizeGRPC draw clock p md fullMethod =
     (if \<not> policy_Enabled p then Some (OK, 0)
      else case Authorize clock p (case md of None \<Rightarrow> [] | Some values \<Rightarrow> values) (MethodAccess p fullMethod) of
             None \<Rightarrow> Some (OK, 0)
           | Some err \<Rightarrow>
               map_option (Pair (if err = ErrInsufficientAccess then PermissionDenied else Unauthenticated))
                 (policy_jitter draw p))"

text \<open>The interceptor of a unary call: a refused call does not reach its handler.\<close>

definition UnaryServerInterceptor ::
  "(int \<Rightarrow> auth_error + int) \<Rightarrow> int \<Rightarrow> Policy \<Rightarrow> string list option \<Rightarrow> string \<Rightarrow> ('s \<Rightarrow> 's \<times> 'r) \<Rightarrow> 's
    \<Rightarrow> ('s \<times> (grpc_code + 'r)) option" where
  "UnaryServerInterceptor draw clock p md fullMethod handler s = do {
     (code, delay) \<leftarrow> authorizeGRPC draw clock p md fullMethod;
     Some (if code \<noteq> OK then (s, Inl code) else map_prod id Inr (handler s)) }"

definition PathAccess :: "string list \<Rightarrow> string \<Rightarrow> Access" where
  "PathAccess prefixes path = (if list_ex (starts_with path) prefixes then ACCESS_ADMIN else ACCESS_READ)"

definition WrapHTTP ::
  "(int \<Rightarrow> auth_error + int) \<Rightarrow> int \<Rightarrow> Policy \<Rightarrow> string list \<Rightarrow> Access \<Rightarrow> (http_result \<times> int) option" where
  "WrapHTTP draw clock p values access =
     (if \<not> policy_Enabled p then Some (Serve, 0)
      else case Authorize clock p values access of
             None \<Rightarrow> Some (Serve, 0)
           | Some err \<Rightarrow>
               map_option (Pair (if err = ErrInsufficientAccess then Forbidden else Unauthorized))
                 (policy_jitter draw p))"

section \<open>Client side\<close>

record ClientAuth =
  ca_RawToken :: string
  ca_HMACSharedKey :: string

definition no_client_auth :: ClientAuth where
  "no_client_auth = \<lparr>ca_RawToken = [], ca_HMACSharedKey = []\<rparr>"

text \<open>\<open>files path\<close> is what reading the file gives, \<open>None\<close> its error.\<close>

definition readSecretFile :: "(string \<Rightarrow> string option) \<Rightarrow> string \<Rightarrow> string option" where
  "readSecretFile files path = map_option go_TrimSpace (files path)"

text \<open>The outer \<open>None\<close> is the error of an unreadable file.\<close>

definition ClientAuthFromValues ::
  "(string \<Rightarrow> string option) \<Rightarrow> string \<Rightarrow> string \<Rightarrow> string \<Rightarrow> string \<Rightarrow> (auth_error + ClientAuth) option" where
  "ClientAuthFromValues files rawToken rawTokenFile hmacKey hmacKeyFile = do {
     raw \<leftarrow> (if rawTokenFile \<noteq> [] then readSecretFile files rawTokenFile else Some rawToken);
     key \<leftarrow> (if hmacKeyFile \<noteq> [] then readSecretFile files hmacKeyFile else Some hmacKey);
     Some (if raw \<noteq> [] \<and> key \<noteq> [] then Inl ErrBothCredentials
           else Inr \<lparr>ca_RawToken = raw, ca_HMACSharedKey = key\<rparr>) }"

text \<open>An environment variable that is set wins over its flag.\<close>

definition ClientAuthFromEnvAndFlags ::
  "(string \<Rightarrow> string option) \<Rightarrow> (string \<Rightarrow> string option) \<Rightarrow> string \<Rightarrow> string \<Rightarrow> string \<Rightarrow> string
    \<Rightarrow> string \<Rightarrow> string \<Rightarrow> string \<Rightarrow> string \<Rightarrow> (auth_error + ClientAuth) option" where
  "ClientAuthFromEnvAndFlags files env rawFlag rawFileFlag hmacFlag hmacFileFlag rawEnv rawFileEnv hmacEnv hmacFileEnv =
     (let pick = (\<lambda>e flag. case env e of Some v \<Rightarrow> v | None \<Rightarrow> flag)
      in ClientAuthFromValues files (pick rawEnv rawFlag) (pick rawFileEnv rawFileFlag)
           (pick hmacEnv hmacFlag) (pick hmacFileEnv hmacFileFlag))"

definition BearerToken :: "ClientAuth \<Rightarrow> int \<Rightarrow> string option" where
  "BearerToken a now =
     (if ca_RawToken a \<noteq> [] then Some (ca_RawToken a)
      else if ca_HMACSharedKey a \<noteq> [] then Some (SignedToken (ca_HMACSharedKey a) now)
      else None)"

text \<open>The authorization values a request carries after \<open>ContextWithClientAuth\<close>, which appends
  one, and \<open>HTTPRequestWithClientAuth\<close>, which replaces them.\<close>

definition ContextWithClientAuth :: "string list \<Rightarrow> ClientAuth \<Rightarrow> int \<Rightarrow> string list" where
  "ContextWithClientAuth values auth now =
     (case BearerToken auth now of None \<Rightarrow> values | Some token \<Rightarrow> values @ [bearerPrefix @ token])"

definition HTTPRequestWithClientAuth :: "string list \<Rightarrow> ClientAuth \<Rightarrow> int \<Rightarrow> string list" where
  "HTTPRequestWithClientAuth values auth now =
     (case BearerToken auth now of None \<Rightarrow> values | Some token \<Rightarrow> [bearerPrefix @ token])"

definition ForAccess :: "ClientAuth \<Rightarrow> ClientAuth \<Rightarrow> Access \<Rightarrow> ClientAuth" where
  "ForAccess shared admin access =
     (let haveAdmin = ca_RawToken admin \<noteq> [] \<or> ca_HMACSharedKey admin \<noteq> [];
          haveShared = ca_RawToken shared \<noteq> [] \<or> ca_HMACSharedKey shared \<noteq> []
      in if haveAdmin \<and> (effective access = ACCESS_ADMIN \<or> \<not> haveShared) then admin else shared)"

section \<open>What a credential must be\<close>

lemma of_char_u8: "(of_char c :: u8) = of_nat (of_char c)"
  by (simp add: of_char_def)

lemma of_char_u8_inj: "(of_char c :: u8) = of_char d \<longleftrightarrow> c = d"
proof -
  have "(of_char c :: nat) < 256" "(of_char d :: nat) < 256" by (rule nat_of_char_less_256)+
  then show ?thesis
    by (simp add: of_char_u8 of_nat_eq_iff unsigned_of_nat take_bit_eq_mod word_eq_iff_unsigned [where ?'a = nat])
qed

lemma constantTimeStringEqual_eq [simp]: "constantTimeStringEqual a b \<longleftrightarrow> a = b"
proof -
  have "map (of_char :: char \<Rightarrow> u8) a = map of_char b \<longleftrightarrow> a = b"
    by (rule inj_map_eq_map) (simp add: inj_def of_char_u8_inj)
  then show ?thesis by (auto simp: constantTimeStringEqual_def ConstantTimeCompare_eq str_of_bytes_def)
qed

text \<open>A token the header parser passes on, and a credential that is the server's secret.\<close>

definition presentable :: "string \<Rightarrow> bool" where
  "presentable token \<longleftrightarrow> token \<noteq> [] \<and> go_TrimSpace token = token \<and> set token \<inter> {CHR '' '', CHR 0x09, CHR 0x0D, CHR 0x0A} = {}"

definition is_secret :: "int \<Rightarrow> Authenticator \<Rightarrow> string \<Rightarrow> bool" where
  "is_secret clock a token \<longleftrightarrow>
     a_mode a = LISTENER_AUTH_MODE_RAW_TOKEN \<and> token = a_rawToken a
     \<or> a_mode a = LISTENER_AUTH_MODE_HMAC_UTC_MINUTE
       \<and> (\<exists>delta. \<bar>delta\<bar> \<le> uint (a_skew a) \<and> token = SignedToken (a_hmacKey a) (clock - clock mod 60 + delta * 60))"

definition accepted :: "int \<Rightarrow> Authenticator \<Rightarrow> string list \<Rightarrow> bool" where
  "accepted clock a values \<longleftrightarrow>
     (\<exists>token. values = [bearerPrefix @ token] \<and> presentable token \<and> is_secret clock a token)"

lemma validToken_iff: "validToken clock a token \<longleftrightarrow> is_secret clock a token"
proof -
  have "delta \<in> set [- k..k] \<longleftrightarrow> \<bar>delta\<bar> \<le> k" for delta k :: int by auto
  then show ?thesis
    by (cases "a_mode a") (auto simp: validToken_def is_secret_def Let_def list_ex_iff Bex_def)
qed

lemma starts_with_iff: "starts_with s p \<longleftrightarrow> (\<exists>r. s = p @ r)"
  unfolding starts_with_def by (metis append_eq_conv_conj append_take_drop_id)

lemma bearerToken_one:
  "bearerToken [bearerPrefix @ r] = (if presentable r then Inr r else Inl ErrMalformedCredentials)"
proof -
  have "r = [] \<or> r \<noteq> go_TrimSpace r \<or> list_ex (\<lambda>c. c \<in> {CHR '' '', CHR 0x09, CHR 0x0D, CHR 0x0A}) r \<longleftrightarrow> \<not> presentable r"
    unfolding presentable_def list_ex_iff by (metis disjoint_iff)
  moreover have "starts_with (bearerPrefix @ r) bearerPrefix" "drop (length bearerPrefix) (bearerPrefix @ r) = r"
    by (simp_all add: starts_with_def)
  ultimately show ?thesis unfolding bearerToken_def Let_def by simp
qed

lemma bearerToken_ok: "bearerToken vs = Inr token \<longleftrightarrow> vs = [bearerPrefix @ token] \<and> presentable token"
proof (cases "\<exists>r. vs = [bearerPrefix @ r]")
  case True
  then show ?thesis by (auto simp: bearerToken_one split: if_splits)
next
  case False
  then have "length vs = 1 \<Longrightarrow> \<not> starts_with (hd vs) bearerPrefix"
    by (cases vs) (auto simp: starts_with_iff)
  then show ?thesis using False by (auto simp: bearerToken_def)
qed

lemma AuthenticateValues_iff:
  "AuthenticateValues clock a values = None \<longleftrightarrow> \<not> auth_Enabled a \<or> accepted clock a values"
proof (cases "bearerToken values")
  case (Inl e)
  then have "\<not> accepted clock a values" using bearerToken_ok [of "values"] by (auto simp: accepted_def)
  then show ?thesis using Inl by (simp add: AuthenticateValues_def)
next
  case (Inr token)
  then have "values = [bearerPrefix @ token]" "presentable token" by (simp_all add: bearerToken_ok)
  then show ?thesis using Inr by (auto simp: AuthenticateValues_def accepted_def validToken_iff)
qed

lemma AuthenticateValues_err: "AuthenticateValues clock a values \<noteq> Some ErrInsufficientAccess"
  by (auto simp: AuthenticateValues_def bearerToken_def Let_def split: sum.splits if_splits)

section \<open>Who reaches what\<close>

text \<open>The promise of the policy, over the secrets alone.\<close>

definition may_call :: "int \<Rightarrow> Policy \<Rightarrow> string list \<Rightarrow> bool \<Rightarrow> bool" where
  "may_call clock p values reads =
     (let readOk = (\<not> auth_Enabled (p_read p) \<or> accepted clock (p_read p) values)
      in if auth_Enabled (p_admin p) then accepted clock (p_admin p) values \<or> reads \<and> readOk else readOk)"

lemma Authorize_None: "Authorize clock p values need = None \<longleftrightarrow> may_call clock p values (effective need = ACCESS_READ)"
  unfolding Authorize_def may_call_def split_policy_def Let_def
  by (auto simp: AuthenticateValues_iff simp del: not_None_eq)

lemma Authorize_denied:
  "Authorize clock p values need = Some ErrInsufficientAccess \<longleftrightarrow>
     auth_Enabled (p_admin p) \<and> auth_Enabled (p_read p) \<and> effective need = ACCESS_ADMIN
     \<and> \<not> accepted clock (p_admin p) values \<and> accepted clock (p_read p) values"
  unfolding Authorize_def split_policy_def Let_def
  using AuthenticateValues_err [of clock "p_admin p" "values"] AuthenticateValues_err [of clock "p_read p" "values"]
  by (auto simp: AuthenticateValues_iff effective_def simp del: not_None_eq)

lemma not_enabled_may_call: "\<not> policy_Enabled p \<Longrightarrow> may_call clock p values r"
  by (simp add: policy_Enabled_def split_policy_def may_call_def)

lemma effective_effective [simp]: "effective (effective a) = effective a"
  by (simp add: effective_def)

abbreviation md_values :: "string list option \<Rightarrow> string list" where
  "md_values md \<equiv> case md of None \<Rightarrow> [] | Some vs \<Rightarrow> vs"

lemma effective_MethodAccess: "effective (MethodAccess p m) = (if p_methods p m = Some ACCESS_READ then ACCESS_READ else ACCESS_ADMIN)"
  by (auto simp: MethodAccess_def effective_def split: option.splits)

lemma authorizeGRPC_code:
  assumes "authorizeGRPC draw clock p md m = Some (code, delay)" and "policy_Enabled p"
  shows "code = (case Authorize clock p (md_values md) (MethodAccess p m) of
      None \<Rightarrow> OK | Some err \<Rightarrow> if err = ErrInsufficientAccess then PermissionDenied else Unauthenticated)"
  using assms unfolding authorizeGRPC_def
  by (cases "Authorize clock p (md_values md) (MethodAccess p m)") (auto split: if_splits)

lemma authorize_ok:
  assumes "authorizeGRPC draw clock p md m = Some (code, delay)"
  shows "code = OK \<longleftrightarrow> may_call clock p (md_values md) (p_methods p m = Some ACCESS_READ)"
proof (cases "policy_Enabled p")
  case False
  then have "code = OK" using assms by (simp add: authorizeGRPC_def)
  then show ?thesis using not_enabled_may_call [OF False] by simp
next
  case True
  let ?A = "Authorize clock p (md_values md) (MethodAccess p m)"
  have "code = OK \<longleftrightarrow> ?A = None" using authorizeGRPC_code [OF assms True] by (cases ?A) simp_all
  then show ?thesis unfolding Authorize_None effective_MethodAccess by simp
qed

text \<open>C10: the method table decides who reaches a gRPC method. A call passes exactly when the
  policy allows it: with an admin secret configured, only that secret reaches a method that is
  not in the table as a read method, a method missing from it included, and read methods are
  open to either secret, or to everyone when no read secret is configured; without an admin
  secret the read secret, if any, is enough for all of them. The refusal is
  \<open>PermissionDenied\<close> exactly when the caller holds the read secret and needs the admin one, and
  \<open>Unauthenticated\<close> otherwise. Holding a secret means presenting one header whose token is the
  configured one or is signed for a minute within the skew, and nothing else.\<close>

theorem authorize_exact:
  assumes "authorizeGRPC draw clock p md m = Some (code, delay)"
  shows "(code = OK \<longleftrightarrow> may_call clock p (md_values md) (p_methods p m = Some ACCESS_READ)) \<and>
    (code = PermissionDenied \<longleftrightarrow>
      auth_Enabled (p_admin p) \<and> auth_Enabled (p_read p) \<and> p_methods p m \<noteq> Some ACCESS_READ
      \<and> \<not> accepted clock (p_admin p) (md_values md) \<and> accepted clock (p_read p) (md_values md))"
proof (cases "policy_Enabled p")
  case False
  then have "code = OK" using assms by (simp add: authorizeGRPC_def)
  then show ?thesis using False authorize_ok [OF assms] by (simp add: policy_Enabled_def split_policy_def)
next
  case True
  let ?A = "Authorize clock p (md_values md) (MethodAccess p m)"
  have "code = PermissionDenied \<longleftrightarrow> ?A = Some ErrInsufficientAccess"
    using authorizeGRPC_code [OF assms True] by (cases ?A) simp_all
  then show ?thesis using authorize_ok [OF assms] unfolding Authorize_denied effective_MethodAccess by simp
qed

definition wit_listener :: "string \<Rightarrow> ListenerAuth" where
  "wit_listener token = \<lparr>la_Mode = LISTENER_AUTH_MODE_RAW_TOKEN, la_RawToken = token, la_HmacSharedKey = [],
     la_SignedTokenSkewMinutes = None, la_FailureJitterMin = None, la_FailureJitterMax = None\<rparr>"

definition wit_policy :: Policy where
  "wit_policy = projr (NewPolicy (Some (wit_listener ''r'')) (Some (wit_listener ''a'')) StandardMethods)"

theorem authorize_exact_witness:
  "authorizeGRPC (\<lambda>n. Inr 7) 0 wit_policy (Some [''Bearer r'']) ''/xtcp.Config/Set'' = Some (PermissionDenied, 20000007)
   \<and> accepted 0 (p_read wit_policy) [''Bearer r''] \<and> \<not> accepted 0 (p_admin wit_policy) [''Bearer r'']"
proof -
  have run: "authorizeGRPC (\<lambda>n. Inr 7) 0 wit_policy (Some [''Bearer r'']) ''/xtcp.Config/Set''
      = Some (PermissionDenied, 20000007)" by code_simp
  then show ?thesis using authorize_exact [OF run] by simp
qed

section \<open>Client and server\<close>

text \<open>The alphabet lies strictly between the white space and the bytes of other characters.\<close>

lemma b64_range: "c \<in> set b64_alphabet \<Longrightarrow> 45 \<le> (of_char c :: nat) \<and> (of_char c :: nat) < 123"
  unfolding b64_alphabet_def by auto

lemma space_range:
  assumes "r \<in> set space_runes"
  shows "\<not> (45 \<le> (of_char (hd r) :: nat) \<and> (of_char (hd r) :: nat) < 123)"
    and "\<not> (45 \<le> (of_char (last r) :: nat) \<and> (of_char (last r) :: nat) < 123)"
  using assms unfolding space_runes_def by auto

lemma space_first_bytes:
  "r \<in> set space_runes \<Longrightarrow> hd r \<notin> set b64_alphabet \<and> last r \<notin> set b64_alphabet"
  using space_range b64_range by blast

lemma SignedToken_presentable: "presentable (SignedToken key t)"
proof -
  have alpha: "set (SignedToken key t) \<subseteq> set b64_alphabet"
    by (simp add: SignedToken_def Let_def b64_encode_alphabet)
  then have "space_free (SignedToken key t)" using space_first_bytes by (fastforce simp: space_free_def)
  moreover have "SignedToken key t \<noteq> []"
  proof
    assume "SignedToken key t = []"
    then have "hmac_sha256 (str_of_bytes key) (str_of_bytes (FormatInt (go_quot t 60))) = []"
      by (simp add: SignedToken_def Let_def b64_encode_empty)
    then show False by (metis hmac_sha256_def length_sha256 list.size(3) zero_neq_numeral)
  qed
  moreover have "set b64_alphabet \<inter> {CHR '' '', CHR 0x09, CHR 0x0D, CHR 0x0A} = {}"
    using b64_range by fastforce
  ultimately show ?thesis using alpha by (auto simp: presentable_def TrimSpace_id)
qed

lemma SignedToken_minute:
  assumes "0 \<le> t" "0 \<le> c"
  shows "SignedToken key (c - c mod 60 + (t div 60 - c div 60) * 60) = SignedToken key t"
proof -
  have eq: "c - c mod 60 + (t div 60 - c div 60) * 60 = t div 60 * 60" by (simp add: algebra_simps minus_mod_eq_mult_div)
  have "go_quot u 60 = u div 60" if "0 \<le> u" for u
    using that by (cases "u = 0") (simp_all add: go_quot_def)
  then have "go_quot (t div 60 * 60) 60 = go_quot t 60" using assms by simp
  then show ?thesis unfolding SignedToken_def eq by simp
qed

text \<open>The client holds the server's credential, and its clock is within the skew; with no
  credential on the server it holds none.\<close>

definition credential_agrees :: "int \<Rightarrow> int \<Rightarrow> ClientAuth \<Rightarrow> Authenticator \<Rightarrow> bool" where
  "credential_agrees t clock auth a =
     (case a_mode a of
        LISTENER_AUTH_MODE_RAW_TOKEN \<Rightarrow> ca_RawToken auth = a_rawToken a \<and> presentable (a_rawToken a)
      | LISTENER_AUTH_MODE_HMAC_UTC_MINUTE \<Rightarrow> ca_RawToken auth = [] \<and> ca_HMACSharedKey auth = a_hmacKey a
          \<and> a_hmacKey a \<noteq> [] \<and> \<bar>t div 60 - clock div 60\<bar> \<le> uint (a_skew a)
      | _ \<Rightarrow> auth = no_client_auth \<and> \<not> auth_Enabled a)"

lemma client_accepted:
  assumes "credential_agrees t clock auth a" "0 \<le> t" "0 \<le> clock" "auth_Enabled a"
  shows "accepted clock a (ContextWithClientAuth [] auth t)" "auth \<noteq> no_client_auth"
proof -
  show "accepted clock a (ContextWithClientAuth [] auth t)"
  proof (cases "a_mode a = LISTENER_AUTH_MODE_RAW_TOKEN")
    case True
    then show ?thesis using assms(1)
      by (auto simp: credential_agrees_def accepted_def is_secret_def ContextWithClientAuth_def BearerToken_def presentable_def)
  next
    case False
    then have hm: "a_mode a = LISTENER_AUTH_MODE_HMAC_UTC_MINUTE"
      using assms(1,4) by (cases "a_mode a") (auto simp: credential_agrees_def)
    then have "is_secret clock a (SignedToken (a_hmacKey a) t)"
      using assms(1) SignedToken_minute [OF assms(2,3), of "a_hmacKey a"]
      by (auto simp: credential_agrees_def is_secret_def intro: exI [of _ "t div 60 - clock div 60"])
    then show ?thesis using hm assms(1)
      by (auto simp: credential_agrees_def accepted_def ContextWithClientAuth_def BearerToken_def SignedToken_presentable)
  qed
  show "auth \<noteq> no_client_auth" using assms(1,4)
    by (cases "a_mode a") (auto simp: credential_agrees_def no_client_auth_def presentable_def)
qed



definition wit_signed :: Policy where
  "wit_signed = \<lparr>p_read = \<lparr>a_mode = LISTENER_AUTH_MODE_HMAC_UTC_MINUTE, a_rawToken = [], a_hmacKey = ''key'', a_skew = 1,
     a_jitterMin = 0, a_jitterMax = 0\<rparr>, p_admin = p_admin wit_policy, p_methods = StandardMethods\<rparr>"


text \<open>The delay of a refusal lies in the configured window, and computing it does not panic, as
  long as the window is shorter than the largest duration.\<close>

lemma jitter_within:
  assumes "0 \<le> a_jitterMin a" "a_jitterMin a \<le> a_jitterMax a" "a_jitterMax a < 2 ^ 63 - 1"
    and "\<And>n r. draw n = Inr r \<Longrightarrow> 0 \<le> r \<and> r < n" and "auth_Enabled a"
  shows "\<exists>d. auth_Jitter draw a = Some d \<and> a_jitterMin a \<le> d \<and> d \<le> a_jitterMax a"
proof (cases "a_jitterMin a = a_jitterMax a")
  case True
  then show ?thesis using assms by (simp add: auth_Jitter_def CryptoJitterDuration_def)
next
  case False
  let ?n = "a_jitterMax a - a_jitterMin a + 1"
  have n: "wrap64 ?n = ?n" "0 < ?n" using assms by (simp_all add: int64_def)
  then have "rand_Int draw (wrap64 ?n) = Some (draw ?n)" by (simp add: rand_Int_def)
  then show ?thesis using False assms(1,2,5) assms(4) [of ?n]
    by (cases "draw ?n") (auto simp: auth_Jitter_def CryptoJitterDuration_def)
qed

end
