(* ===== verification/Diag_Request.thy ===== *)
theory Diag_Request
  imports Deserialize
begin

text \<open>
  The sock_diag dump request that every poll sends (\<open>pkg/xtcp/init.go\<close>, \<open>CreateNetLinkRequest\<close>;
  \<open>pkg/xtcpnl/xtcpnl_serialize_netlink_request.go\<close>; \<open>pkg/xtcpnl/xtcpnl_inet_diag_reqv2.go\<close>;
  \<open>pkg/xtcp/poller.go\<close>, \<open>updateNetlinkRequestSequenceNumber\<close>). The buffer is built once and
  only its sequence number changes from poll to poll.
\<close>

section \<open>Building the request\<close>

record InetDiagReqV2 =
  rq_SDiagFamily :: u8
  rq_SDiagProtocol :: u8
  rq_IDiagExt :: u8
  rq_Pad :: u8
  rq_IDiagStates :: u32
  rq_SocketID :: InetDiagSockID

definition InetDiagRequestSizeCst :: nat where
  "InetDiagRequestSizeCst = 72"

definition SocketDiagByFamilyCst :: u16 where
  "SocketDiagByFamilyCst = 20"

definition TCPAllStatesCst :: u32 where
  "TCPAllStatesCst = 4282318848"

text \<open>\<open>syscall.NLM_F_DUMP | NLM_F_REQUEST | NLM_F_REPLACE | NLM_F_EXCL\<close>\<close>

definition diag_flags :: u16 where
  "diag_flags = 0x300 OR 1 OR 0x100 OR 0x200"

definition SerializeNetlinkDiagRequest :: "NlMsgHdr \<Rightarrow> InetDiagReqV2 \<Rightarrow> bytes \<Rightarrow> bytes option" where
  "SerializeNetlinkDiagRequest nlh req b = do {
     b \<leftarrow> go_put b 0 (le_bytes 4 (nlh_Len nlh));
     b \<leftarrow> go_put b 4 (le_bytes 2 (nlh_Type nlh));
     b \<leftarrow> go_put b 6 (le_bytes 2 (nlh_Flags nlh));
     b \<leftarrow> go_put b 8 (le_bytes 4 (nlh_Seq nlh));
     b \<leftarrow> go_put b 16 [rq_SDiagFamily req];
     b \<leftarrow> go_put b 17 [rq_SDiagProtocol req];
     b \<leftarrow> go_put b 18 [rq_IDiagExt req];
     go_put b 20 (be_bytes 4 (rq_IDiagStates req)) }"

definition zero_sockid :: InetDiagSockID where
  "zero_sockid = \<lparr>sid_SPort = 0, sid_DPort = 0, sid_SrcIP = replicate 16 0, sid_DstIP = replicate 16 0,
     sid_Interface = 0, sid_Cookie = 0\<rparr>"

text \<open>\<open>seq\<close> is \<open>NlmsgSeq\<close> of the configuration and \<open>en\<close> its deserializer map.\<close>

definition diag_header :: "u32 \<Rightarrow> NlMsgHdr" where
  "diag_header seq = \<lparr>nlh_Len = of_nat InetDiagRequestSizeCst, nlh_Type = SocketDiagByFamilyCst,
     nlh_Flags = diag_flags, nlh_Seq = seq, nlh_Pid = 0\<rparr>"

definition diag_req :: "(string \<rightharpoonup> bool) \<Rightarrow> InetDiagReqV2" where
  "diag_req en = \<lparr>rq_SDiagFamily = 2, rq_SDiagProtocol = 6, rq_IDiagExt = IDiagExtFromEnabled en,
     rq_Pad = 0, rq_IDiagStates = TCPAllStatesCst, rq_SocketID = zero_sockid\<rparr>"

definition CreateNetLinkRequest :: "u32 \<Rightarrow> (string \<rightharpoonup> bool) \<Rightarrow> bytes option" where
  "CreateNetLinkRequest seq en =
     SerializeNetlinkDiagRequest (diag_header seq) (diag_req en) (replicate InetDiagRequestSizeCst 0)"

definition updateNetlinkRequestSequenceNumber :: "u32 \<Rightarrow> u64 \<Rightarrow> bytes \<Rightarrow> bytes option" where
  "updateNetlinkRequestSequenceNumber seq pollingLoops b = go_put b 8 (le_bytes 4 (seq + ucast pollingLoops))"

section \<open>Reading it back\<close>

definition InetDiagReqV2SizeCst :: nat where
  "InetDiagReqV2SizeCst = 56"

definition InetDiagReqV2ReadCst :: nat where
  "InetDiagReqV2ReadCst = 55"

definition DeserializeInetDiagReqV2 ::
  "bytes \<Rightarrow> InetDiagReqV2 \<Rightarrow> InetDiagSockID \<Rightarrow> (InetDiagReqV2 \<times> InetDiagSockID \<times> (nl_error + nat)) option" where
  "DeserializeInetDiagReqV2 data r s =
     (if length data < InetDiagReqV2SizeCst then Some (r, s, Inl ErrInetDiagReqV2Small)
      else do {
        f \<leftarrow> go_index data 0;
        p \<leftarrow> go_index data 1;
        e \<leftarrow> go_index data 2;
        st \<leftarrow> BE_Uint32 data 4 8;
        r \<leftarrow> Some (r\<lparr>rq_SDiagFamily := f, rq_SDiagProtocol := p, rq_IDiagExt := e, rq_IDiagStates := st\<rparr>);
        sd \<leftarrow> go_slice data 8 (8 + InetDiagSockIDSizeCst);
        (s, n) \<leftarrow> DeserializeInetDiagSockID sd s;
        (case n of
           Inl err \<Rightarrow> Some (r, s, Inl err)
         | Inr _ \<Rightarrow> Some (r\<lparr>rq_SocketID := s\<rparr>, s, Inr InetDiagReqV2ReadCst)) })"

section \<open>Properties\<close>

text \<open>The bytes of the request with sequence number \<open>seq\<close>.\<close>

definition diag_bytes :: "u32 \<Rightarrow> (string \<rightharpoonup> bool) \<Rightarrow> bytes" where
  "diag_bytes seq en = nlmsghdr_bytes (diag_header seq)
     @ [2, 6, IDiagExtFromEnabled en, 0] @ be_bytes 4 TCPAllStatesCst @ replicate 48 0"

lemma le_bytes_2: "le_bytes 2 w = [ucast w, ucast (drop_bit 8 w)]"
  by (simp add: eval_nat_numeral)

lemma le_bytes_4: "le_bytes 4 w = [ucast w, ucast (drop_bit 8 w), ucast (drop_bit 16 w), ucast (drop_bit 24 w)]"
  by (simp add: eval_nat_numeral)

lemma CreateNetLinkRequest_bytes: "CreateNetLinkRequest seq en = Some (diag_bytes seq en)"
  by (simp add: CreateNetLinkRequest_def SerializeNetlinkDiagRequest_def diag_bytes_def diag_header_def
      diag_req_def nlmsghdr_bytes_def InetDiagRequestSizeCst_def go_put_def be_bytes_def le_bytes_2 le_bytes_4
      numeral_eq_Suc)

lemma update_bytes:
  "updateNetlinkRequestSequenceNumber seq n (diag_bytes seq' en) = Some (diag_bytes (seq + ucast n) en)"
  by (simp add: updateNetlinkRequestSequenceNumber_def diag_bytes_def diag_header_def
      nlmsghdr_bytes_def go_put_def be_bytes_def le_bytes_2 le_bytes_4)

lemma length_diag_bytes [simp]: "length (diag_bytes seq en) = 72"
  by (simp add: diag_bytes_def)

text \<open>The buffer after polls with loop numbers \<open>ns\<close>.\<close>

definition request_after :: "u32 \<Rightarrow> (string \<rightharpoonup> bool) \<Rightarrow> u64 list \<Rightarrow> bytes option" where
  "request_after seq en ns =
     fold (\<lambda>n b. Option.bind b (updateNetlinkRequestSequenceNumber seq n)) ns (CreateNetLinkRequest seq en)"

lemma request_after_bytes:
  "\<exists>seq'. request_after seq en ns = Some (diag_bytes seq' en) \<and> (ns \<noteq> [] \<longrightarrow> seq' = seq + ucast (last ns))"
  by (induction ns rule: rev_induct) (auto simp: request_after_def CreateNetLinkRequest_bytes update_bytes)

lemma read_header: "DeserializeNlMsgHdr (diag_bytes seq en) h = Some (diag_header seq, Inr 16)"
  by (simp add: codec_simps) (simp add: diag_bytes_def)

lemma read_sockid: "DeserializeInetDiagSockID (replicate 48 0) s = Some (zero_sockid, Inr 48)"
  by (simp add: DeserializeInetDiagSockID_def InetDiagSockIDSizeCst_def slice_simps array16_def zero_sockid_def
      be_word_def eval_nat_numeral)

lemma read_request:
  "DeserializeInetDiagReqV2 (drop 16 (diag_bytes seq en)) r s =
     Some ((diag_req en)\<lparr>rq_Pad := rq_Pad r\<rparr>, zero_sockid, Inr 55)"
proof -
  have d: "drop 16 (diag_bytes seq en) =
      [2, 6, IDiagExtFromEnabled en, 0] @ be_bytes 4 TCPAllStatesCst @ replicate 48 0"
    by (simp add: diag_bytes_def)
  show ?thesis
    unfolding d
    by (simp add: DeserializeInetDiagReqV2_def InetDiagReqV2SizeCst_def InetDiagReqV2ReadCst_def
        InetDiagSockIDSizeCst_def slice_simps read_sockid diag_req_def)
qed

text \<open>C31: the request a poll sends is well formed. After any polls, the last one with loop
  number \<open>n\<close>, the buffer has the length its header states, the decoders of the package read
  back the header with sequence number \<open>NlmsgSeq + n\<close> modulo \<open>2^32\<close>, and the TCP request with
  the extension bits of the enabled deserializers and no socket filter. The state mask,
  written big-endian, is in the kernel's byte order the set of the states 0 to 13: all of
  them.\<close>

theorem poll_request_reads_back:
  "\<exists>b. request_after seq en (ns @ [n]) = Some b
     \<and> length b = unat (nlh_Len (diag_header seq))
     \<and> DeserializeNlMsgHdr b h = Some ((diag_header seq)\<lparr>nlh_Seq := seq + ucast n\<rparr>, Inr 16)
     \<and> DeserializeInetDiagReqV2 (drop 16 b) r s = Some ((diag_req en)\<lparr>rq_Pad := rq_Pad r\<rparr>, zero_sockid, Inr 55)
     \<and> (le_word (take 4 (drop 20 b)) :: u32) = mask 14"
proof -
  have "request_after seq en (ns @ [n]) = Some (diag_bytes (seq + ucast n) en)"
    using request_after_bytes [of seq en "ns @ [n]"] by auto
  moreover have "take 4 (drop 20 (diag_bytes (seq + ucast n) en)) = [0xFF, 0x3F, 0, 0]"
    by (simp add: diag_bytes_def be_bytes_def le_bytes_4 TCPAllStatesCst_def drop_bit_eq_div)
  moreover have "(le_word [0xFF, 0x3F, 0, 0] :: u32) = mask 14" by (simp add: mask_eq_exp_minus_1)
  ultimately show ?thesis
    by (simp add: read_header read_request diag_header_def InetDiagRequestSizeCst_def)
qed

end
