(* ===== verification/Poller.thy ===== *)
theory Poller
  imports Diag_Request Namespaces Timing
begin

text \<open>
  The poll loop (\<open>pkg/xtcp/poller.go\<close>; \<open>MaxLoopsOrForEver\<close> of \<open>pkg/misc/misc.go\<close>): its
  handlers, and the loop interleaved with the decoders of the sockets it polls. The
  envelope is that of theory Envelope, with the poller as thread 0; the namespaces are
  those of theory Namespaces. Log output, histograms and the ticker's period, which no
  handler reads, are left out.
\<close>

section \<open>State\<close>

text \<open>The configuration the loop reads.\<close>

record PollerCfg =
  pf_NlmsgSeq :: u32
  pf_MaxLoops :: u64
  pf_ReconcileBeforePoll :: bool

text \<open>\<open>netlinkerDoneCh\<close> holds the sockets whose dump is reported done, oldest first. \<open>inflight\<close>
  lists the sockets with a dump that was requested and whose last packet is not decoded yet;
  \<open>lost\<close> counts the requests of this cycle that could not be sent. These two are history
  variables: the loop does not read them.\<close>

record Poller =
  sys :: system
  ns :: Ns
  nlRequest :: bytes
  pcount :: int
  pollingLoops :: u64
  pollRequestCh :: nat
  netlinkerDoneCh :: "int list"
  stopped :: bool
  inflight :: "int list"
  lost :: nat

definition pollRequestChSize :: nat where
  "pollRequestChSize = 2"

definition on_shared :: "(XTCP \<Rightarrow> XTCP) \<Rightarrow> Poller \<Rightarrow> Poller" where
  "on_shared f s = s\<lparr>sys := (sys s)\<lparr>shared := f (shared (sys s))\<rparr>\<rparr>"

definition inc_p :: "string \<Rightarrow> string \<Rightarrow> string \<Rightarrow> Poller \<Rightarrow> Poller" where
  "inc_p a b c = on_shared (inc a b c)"

definition MaxLoopsOrForEver :: "u64 \<Rightarrow> u64 \<Rightarrow> bool" where
  "MaxLoopsOrForEver loops maxLoops = (if maxLoops \<noteq> 0 then (if loops > maxLoops then False else True) else True)"

section \<open>Handlers\<close>

text \<open>A non-blocking send of a poll request, as the tick handler, the gRPC handlers and the
  burst runner do it.\<close>

definition poke :: "Poller \<Rightarrow> Poller" where
  "poke s = (if pollRequestCh s < pollRequestChSize then s\<lparr>pollRequestCh := Suc (pollRequestCh s)\<rparr> else s)"

definition handlePollerTick :: "Poller \<Rightarrow> Poller" where
  "handlePollerTick s = poke (inc_p ''Poller'' ''ticker'' ''count'' s)"

definition handleChangePollFrequency :: "Poller \<Rightarrow> Poller" where
  "handleChangePollFrequency s = inc_p ''Poller'' ''ticker.Reset'' ''count'' s"

text \<open>\<open>err\<close> is whether \<open>Sendto\<close> fails.\<close>

definition sendNetlinkDumpRequest :: "bool \<Rightarrow> int \<Rightarrow> Poller \<Rightarrow> Poller" where
  "sendNetlinkDumpRequest err fd s =
     (if err then (inc_p ''SendNetlinkDumpRequest'' ''Sendto'' ''error'' s)\<lparr>lost := Suc (lost s)\<rparr>
      else s\<lparr>inflight := inflight s @ [fd]\<rparr>)"

definition poll :: "u64 \<Rightarrow> bool \<Rightarrow> int \<Rightarrow> Poller \<Rightarrow> Poller" where
  "poll now err fd s =
     (let s = on_shared (\<lambda>x. x\<lparr>pollTime := (pollTime x)(fd \<mapsto> now)\<rparr>) s;
          s = sendNetlinkDumpRequest err fd s
      in inc_p ''poller'' ''poll'' ''count'' s)"

definition poll_slot :: "u64 \<Rightarrow> (int \<Rightarrow> bool) \<Rightarrow> int \<Rightarrow> Poller \<times> int \<Rightarrow> Poller \<times> int" where
  "poll_slot now errs socketFD st =
     (case st of (s, polled) \<Rightarrow> if socketFD < 0 then st else (poll now (errs socketFD) socketFD s, polled + 1))"

text \<open>\<open>None\<close> is the panic of a request buffer that is too short.\<close>

definition pollAllNetlinkSockets ::
  "Daemon \<Rightarrow> PollerCfg \<Rightarrow> u64 \<Rightarrow> (int \<Rightarrow> bool) \<Rightarrow> u64 \<Rightarrow> Poller \<Rightarrow> (Poller \<times> int) option" where
  "pollAllNetlinkSockets d cfg now errs loops s = do {
     s \<leftarrow> Some (s\<lparr>sys := run_action d StartPoll (sys s)\<rparr>);
     b \<leftarrow> updateNetlinkRequestSequenceNumber (pf_NlmsgSeq cfg) loops (nlRequest s);
     (case GetNetlinkSocketFDs (shared (sys s), ns s) of
        ((x, m), socketFDs) \<Rightarrow>
          Some (fold (poll_slot now errs) socketFDs
            (s\<lparr>nlRequest := b, sys := (sys s)\<lparr>shared := x\<rparr>, ns := m\<rparr>, 0))) }"

definition reconcileThenPoll ::
  "Daemon \<Rightarrow> PollerCfg \<Rightarrow> (u64 \<times> nsIdentity) list \<Rightarrow> u64 \<Rightarrow> (int \<Rightarrow> bool) \<Rightarrow> u64 \<Rightarrow> Poller
    \<Rightarrow> (Poller \<times> int) option" where
  "reconcileThenPoll d cfg live now errs loops s =
     (let s = (if pf_ReconcileBeforePoll cfg
               then case reconcile live (shared (sys s), ns s) of
                      ((x, m), _, _) \<Rightarrow> s\<lparr>sys := (sys s)\<lparr>shared := x\<rparr>, ns := m\<rparr>
               else s)
      in pollAllNetlinkSockets d cfg now errs loops s)"

text \<open>The result is the new count and whether a dump was issued.\<close>

definition handlePollRequest ::
  "Daemon \<Rightarrow> PollerCfg \<Rightarrow> (u64 \<times> nsIdentity) list \<Rightarrow> u64 \<Rightarrow> (int \<Rightarrow> bool) \<Rightarrow> u64 \<Rightarrow> int \<Rightarrow> Poller
    \<Rightarrow> (Poller \<times> int \<times> bool) option" where
  "handlePollRequest d cfg live now errs loops cnt s =
     (let s = inc_p ''Poller'' ''pollRequestCh'' ''count'' s
      in if cnt > 0 then Some (inc_p ''Poller'' ''alreadyPolling'' ''count'' s, cnt, False)
         else do { (s, c) \<leftarrow> reconcileThenPoll d cfg live now errs loops s; Some (s, c, True) })"

definition handleNetlinkerDone :: "int \<Rightarrow> Poller \<Rightarrow> Poller \<times> int" where
  "handleNetlinkerDone cnt s = (inc_p ''Poller'' ''done'' ''count'' s, cnt - 1)"

definition handlePollTimeout :: "Poller \<Rightarrow> Poller \<times> int" where
  "handlePollTimeout s = (inc_p ''Poller'' ''PollTimeout'' ''count'' s, 0)"

text \<open>The first half of a flush by the poller; it delivers before it handles another event.\<close>

definition flush_p :: "Daemon \<Rightarrow> string \<Rightarrow> Poller \<Rightarrow> Poller" where
  "flush_p d reason s = s\<lparr>sys := run_action d (Terminal reason) (sys s)\<rparr>"

section \<open>The loop and its environment\<close>

datatype event =
    Tick
  | PollReq "(u64 \<times> nsIdentity) list" u64 "int \<Rightarrow> bool"
  | FreqChange
  | DoneRecv
  | Timeout
  | Stop

text \<open>One iteration of the loop of \<open>Poller\<close>, for the case of its select that \<open>ev\<close> names. \<open>Stop\<close>
  is the return, with the deferred flush.\<close>

definition handle_event :: "Daemon \<Rightarrow> PollerCfg \<Rightarrow> event \<Rightarrow> Poller \<Rightarrow> Poller option" where
  "handle_event d cfg ev s =
     (case ev of
        Tick \<Rightarrow> Some (handlePollerTick s)
      | PollReq live now errs \<Rightarrow> do {
          (s, c, polled) \<leftarrow> handlePollRequest d cfg live now errs (pollingLoops s) (pcount s)
             (s\<lparr>pollRequestCh := pollRequestCh s - 1\<rparr>);
          Some (if polled then s\<lparr>pcount := c\<rparr> else s) }
      | FreqChange \<Rightarrow> Some (handleChangePollFrequency s)
      | DoneRecv \<Rightarrow>
          (case handleNetlinkerDone (pcount s) (s\<lparr>netlinkerDoneCh := tl (netlinkerDoneCh s)\<rparr>) of
             (s, c) \<Rightarrow>
               let s = s\<lparr>pcount := c\<rparr>
               in Some (if pcount s = 0 then flush_p d ''poll_end'' s else s))
      | Timeout \<Rightarrow>
          (case handlePollTimeout s of (s, c) \<Rightarrow> Some (flush_p d ''poll_timeout'' (s\<lparr>pcount := c\<rparr>)))
      | Stop \<Rightarrow>
          Some (flush_p d ''shutdown'' ((inc_p ''Poller'' ''complete'' ''count'' s)\<lparr>stopped := True\<rparr>)))"

definition loop_once :: "Daemon \<Rightarrow> PollerCfg \<Rightarrow> event \<Rightarrow> Poller \<Rightarrow> Poller option" where
  "loop_once d cfg ev s =
     map_option (\<lambda>s. s\<lparr>pollingLoops := pollingLoops s + 1\<rparr>)
       (handle_event d cfg ev (inc_p ''Poller'' ''pollingLoops'' ''count'' s))"

text \<open>What happens beside the loop: a decoder acts on the envelope, a dump's last packet is
  decoded and its done signal sent, a poll is requested, the namespaces move.\<close>

datatype plabel =
    Loop event
  | Work action
  | DumpDone int
  | Poke
  | NsMove Ns

fun decoder_action :: "nat \<Rightarrow> (nat \<Rightarrow> int) \<Rightarrow> action \<Rightarrow> Poller \<Rightarrow> bool" where
  "decoder_action n owner (Append i r) s = (enabled n (Append i r) (sys s) \<and> owner i \<in> set (inflight s))"
| "decoder_action n owner (Take i) s = enabled n (Take i) (sys s)"
| "decoder_action n owner (Deliver i) s = enabled n (Deliver i) (sys s)"
| "decoder_action n owner _ s = False"

fun loop_enabled :: "PollerCfg \<Rightarrow> event \<Rightarrow> Poller \<Rightarrow> bool" where
  "loop_enabled cfg Stop s = True"
| "loop_enabled cfg DoneRecv s = (netlinkerDoneCh s \<noteq> [] \<and> MaxLoopsOrForEver (pollingLoops s) (pf_MaxLoops cfg))"
| "loop_enabled cfg (PollReq l t e) s = (0 < pollRequestCh s \<and> MaxLoopsOrForEver (pollingLoops s) (pf_MaxLoops cfg))"
| "loop_enabled cfg ev s = MaxLoopsOrForEver (pollingLoops s) (pf_MaxLoops cfg)"

text \<open>\<open>owner i\<close> is the socket decoder \<open>i\<close> works for; there are \<open>n\<close> decoders. A decoder appends
  only rows of a dump in flight. A dump is reported done once all its packets are decoded,
  so no decoder of its socket is busy with it then (\<open>done_signal_exact\<close> of theory
  Dump_Tracker).\<close>

fun p_enabled :: "PollerCfg \<Rightarrow> nat \<Rightarrow> (nat \<Rightarrow> int) \<Rightarrow> plabel \<Rightarrow> Poller \<Rightarrow> bool" where
  "p_enabled cfg n owner (Loop ev) s = (\<not> stopped s \<and> thread (sys s) 0 = Idle \<and> loop_enabled cfg ev s)"
| "p_enabled cfg n owner (Work a) s = decoder_action n owner a s"
| "p_enabled cfg n owner (DumpDone fd) s =
     (fd \<in> set (inflight s)
      \<and> (list_all (\<lambda>i. owner i = fd \<longrightarrow> thread (sys s) i = Idle) [1..<Suc n] \<or> fd \<in> set (remove1 fd (inflight s))))"
| "p_enabled cfg n owner Poke s = True"
| "p_enabled cfg n owner (NsMove m) s = True"

fun p_run :: "Daemon \<Rightarrow> PollerCfg \<Rightarrow> plabel \<Rightarrow> Poller \<Rightarrow> Poller option" where
  "p_run d cfg (Loop ev) s = loop_once d cfg ev s"
| "p_run d cfg (Work a) s = Some (s\<lparr>sys := run_action d a (sys s)\<rparr>)"
| "p_run d cfg (DumpDone fd) s =
     Some (s\<lparr>inflight := remove1 fd (inflight s), netlinkerDoneCh := netlinkerDoneCh s @ [fd]\<rparr>)"
| "p_run d cfg Poke s = Some (poke s)"
| "p_run d cfg (NsMove m) s = Some (s\<lparr>ns := m\<rparr>)"

inductive poll_reach :: "Daemon \<Rightarrow> PollerCfg \<Rightarrow> nat \<Rightarrow> (nat \<Rightarrow> int) \<Rightarrow> (plabel \<Rightarrow> Poller \<Rightarrow> bool) \<Rightarrow> Poller \<Rightarrow> Poller \<Rightarrow> bool"
  for d cfg n owner P where
  poll_refl: "poll_reach d cfg n owner P s s"
| poll_trans: "poll_reach d cfg n owner P s t \<Longrightarrow> p_enabled cfg n owner l t \<Longrightarrow> P l t
    \<Longrightarrow> p_run d cfg l t = Some u \<Longrightarrow> poll_reach d cfg n owner P s u"

fun poll_schedule ::
  "Daemon \<Rightarrow> PollerCfg \<Rightarrow> nat \<Rightarrow> (nat \<Rightarrow> int) \<Rightarrow> (plabel \<Rightarrow> Poller \<Rightarrow> bool) \<Rightarrow> plabel list \<Rightarrow> Poller \<Rightarrow> Poller option" where
  "poll_schedule d cfg n owner P [] s = Some s"
| "poll_schedule d cfg n owner P (l # ls) s =
     (if p_enabled cfg n owner l s \<and> P l s
      then Option.bind (p_run d cfg l s) (poll_schedule d cfg n owner P ls) else None)"

lemma poll_schedule_reach:
  "poll_reach d cfg n owner P s t \<Longrightarrow> poll_schedule d cfg n owner P ls t = Some u
    \<Longrightarrow> poll_reach d cfg n owner P s u"
proof (induction ls arbitrary: t)
  case (Cons l ls)
  then obtain t' where "p_enabled cfg n owner l t" "p_run d cfg l t = Some t'"
      "poll_schedule d cfg n owner P ls t' = Some u" "P l t"
    by (auto split: if_splits bind_splits)
  then show ?case using Cons.IH [OF poll_trans [OF Cons.prems(1)]] by blast
qed simp

text \<open>The state the loop starts from: the first poll is issued before it, with loop number 0.\<close>

definition poller_init ::
  "Daemon \<Rightarrow> PollerCfg \<Rightarrow> (u64 \<times> nsIdentity) list \<Rightarrow> u64 \<Rightarrow> (int \<Rightarrow> bool) \<Rightarrow> XTCP \<Rightarrow> Ns \<Rightarrow> bytes \<Rightarrow> Poller option" where
  "poller_init d cfg live now errs x m b = do {
     (s, c) \<leftarrow> reconcileThenPoll d cfg live now errs 0
       \<lparr>sys = start_system x, ns = m, nlRequest = b, pcount = 0, pollingLoops = 1, pollRequestCh = 0,
        netlinkerDoneCh = [], stopped = False, inflight = [], lost = 0\<rparr>;
     Some (s\<lparr>pcount := c\<rparr>) }"

section \<open>What leaves the envelope alone\<close>

definition same_env :: "XTCP \<Rightarrow> XTCP \<Rightarrow> bool" where
  "same_env x y \<longleftrightarrow>
     currentEnvelope y = currentEnvelope x \<and> currentEnvelopeBytes y = currentEnvelopeBytes x
     \<and> xtcpEnvelopePool y = xtcpEnvelopePool x \<and> sent y = sent x"

lemma same_env_refl [simp]: "same_env x x"
  by (simp add: same_env_def)

lemma same_env_trans [trans]: "same_env x y \<Longrightarrow> same_env y z \<Longrightarrow> same_env x z"
  by (simp add: same_env_def)

lemma same_env_inc [simp]: "same_env x (inc a b c y) = same_env x y"
  by (simp add: same_env_def inc_def)

lemma same_env_pollTime [simp]: "same_env x (y\<lparr>pollTime := f\<rparr>) = same_env x y"
  by (simp add: same_env_def)

lemma same_env_inc_ns [simp]: "same_env x (fst (inc_ns a b c p)) = same_env x (fst p)"
  by (simp add: inc_ns_def)

lemma same_env_nsDelete: "same_env (fst p) (fst (nsDelete i p))"
  by (cases p) (auto simp: nsDelete_def Let_def split: option.splits)

lemma same_env_nsAdd: "same_env (fst p) (fst (nsAdd idn p))"
  by (cases p) (auto simp: nsAdd_def Let_def inc_ns_def split: option.splits)

lemma fold_same_env:
  assumes "\<And>e st. same_env (fst (fst st)) (fst (fst (f e st)))"
  shows "same_env (fst (fst st)) (fst (fst (fold f es st)))"
proof (induction es arbitrary: st)
  case (Cons e es)
  then show ?case using same_env_trans [OF assms [of st e] Cons.IH [of "f e st"]] by simp
qed simp

lemma same_env_reconcile:
  assumes "reconcile live p = (q, dels, stores)"
  shows "same_env (fst p) (fst q)"
proof -
  let ?p = "inc_ns ''reconcile'' ''start'' ''count'' p"
  let ?r = "fold (reconcile_delete live) (map fst (nsMap (snd ?p))) (?p, 0 :: int)"
  let ?q = "fold reconcile_add live (fst ?r, 0 :: int)"
  have q: "q = fst ?q" using assms by (simp add: reconcile_def Let_def split_beta)
  have "same_env (fst p) (fst ?p)" by simp
  also have "same_env (fst ?p) (fst (fst ?r))"
    by (rule fold_same_env [where st = "(?p, 0)", unfolded fst_conv]) (simp add: reconcile_delete_def same_env_nsDelete split_beta)
  also have "same_env (fst (fst ?r)) (fst (fst ?q))"
    by (rule fold_same_env [where st = "(fst ?r, 0)", unfolded fst_conv]) (simp add: reconcile_add_def same_env_nsAdd split_beta)
  finally show ?thesis unfolding q .
qed

text \<open>\<open>t\<close> is \<open>s\<close> with other counters, poll times, namespaces and request.\<close>

definition env_frame :: "system \<Rightarrow> system \<Rightarrow> bool" where
  "env_frame s t \<longleftrightarrow> t = s\<lparr>shared := shared t\<rparr> \<and> same_env (shared s) (shared t)"

lemma env_frame_refl [simp]: "env_frame s s"
  by (simp add: env_frame_def)

lemma env_frame_trans: "env_frame s t \<Longrightarrow> env_frame t u \<Longrightarrow> env_frame s u"
  unfolding env_frame_def using same_env_trans
  by (metis system.surjective system.update_convs(1))

lemma env_frame_shared [simp]: "env_frame s (s\<lparr>shared := x\<rparr>) = same_env (shared s) x"
  by (simp add: env_frame_def)

lemma env_frame_fields:
  assumes "env_frame s t"
  shows "thread t = thread s" "offered t = offered s" "dropped t = dropped s" "replaced t = replaced s"
    "currentEnvelope (shared t) = currentEnvelope (shared s)"
    "currentEnvelopeBytes (shared t) = currentEnvelopeBytes (shared s)"
    "xtcpEnvelopePool (shared t) = xtcpEnvelopePool (shared s)" "sent (shared t) = sent (shared s)"
proof -
  have t: "t = s\<lparr>shared := shared t\<rparr>" and e: "same_env (shared s) (shared t)"
    using assms by (auto simp: env_frame_def)
  show "thread t = thread s" "offered t = offered s" "dropped t = dropped s" "replaced t = replaced s"
    by (subst t, simp)+
  show "currentEnvelope (shared t) = currentEnvelope (shared s)"
    "currentEnvelopeBytes (shared t) = currentEnvelopeBytes (shared s)"
    "xtcpEnvelopePool (shared t) = xtcpEnvelopePool (shared s)" "sent (shared t) = sent (shared s)"
    using e by (simp_all add: same_env_def)
qed

lemma env_frame_inv:
  assumes "env_frame s t"
  shows "env_inv d n t = env_inv d n s" "conserved n t = conserved n s"
proof -
  have "wanting n t = wanting n s" by (rule wanting_cong) (rule env_frame_fields(1) [OF assms])
  then show "env_inv d n t = env_inv d n s"
    unfolding env_inv_def bytes_exact_def by (simp add: env_frame_fields [OF assms])
  show "conserved n t = conserved n s"
    unfolding conserved_def delivered_def by (simp add: env_frame_fields [OF assms])
qed

section \<open>The count and the envelope\<close>

text \<open>The count is exactly the number of done signals that are still to be handled: dumps in
  flight, signals queued, requests lost. While it is positive there is an envelope; when
  it is zero the envelope has no rows.\<close>

definition counted :: "Poller \<Rightarrow> bool" where
  "counted s \<longleftrightarrow> pcount s = int (length (inflight s) + length (netlinkerDoneCh s) + lost s)"

definition poll_inv :: "Daemon \<Rightarrow> nat \<Rightarrow> (nat \<Rightarrow> int) \<Rightarrow> Poller \<Rightarrow> bool" where
  "poll_inv d n owner s \<longleftrightarrow>
     env_inv d n (sys s) \<and> conserved n (sys s) \<and> dropped (sys s) = [] \<and> replaced (sys s) = []
     \<and> counted s
     \<and> (0 < pcount s \<longrightarrow> currentEnvelope (shared (sys s)) \<noteq> None)
     \<and> (pcount s = 0 \<longrightarrow> rowsOf (currentEnvelope (shared (sys s))) = [])
     \<and> (\<forall>i. 1 \<le> i \<longrightarrow> thread (sys s) i \<noteq> Idle \<longrightarrow> i \<le> n \<and> owner i \<in> set (inflight s))"

lemma poll_invI:
  assumes "env_inv d n (sys s)" "conserved n (sys s)" "dropped (sys s) = []" "replaced (sys s) = []" "counted s"
    "0 < pcount s \<Longrightarrow> currentEnvelope (shared (sys s)) \<noteq> None"
    "pcount s = 0 \<Longrightarrow> rowsOf (currentEnvelope (shared (sys s))) = []"
    "\<And>i. 1 \<le> i \<Longrightarrow> thread (sys s) i \<noteq> Idle \<Longrightarrow> i \<le> n \<and> owner i \<in> set (inflight s)"
  shows "poll_inv d n owner s"
  using assms unfolding poll_inv_def by blast

lemma poll_invD:
  assumes "poll_inv d n owner s"
  shows "env_inv d n (sys s)" "conserved n (sys s)" "dropped (sys s) = []" "replaced (sys s) = []" "counted s"
    "0 < pcount s \<Longrightarrow> currentEnvelope (shared (sys s)) \<noteq> None"
    "pcount s = 0 \<Longrightarrow> rowsOf (currentEnvelope (shared (sys s))) = []"
    "1 \<le> i \<Longrightarrow> thread (sys s) i \<noteq> Idle \<Longrightarrow> i \<le> n \<and> owner i \<in> set (inflight s)"
  using assms unfolding poll_inv_def by blast+

lemma poll_inv_frame:
  assumes "poll_inv d n owner s" "env_frame (sys s) (sys t)" "pcount t = pcount s" "inflight t = inflight s"
    "netlinkerDoneCh t = netlinkerDoneCh s" "lost t = lost s"
  shows "poll_inv d n owner t"
  using assms poll_invD [OF assms(1)] unfolding poll_inv_def counted_def
  by (simp add: env_frame_inv [OF assms(2)] env_frame_fields [OF assms(2)])

lemma on_shared_simps [simp]:
  "inflight (inc_p a b c s) = inflight s" "netlinkerDoneCh (inc_p a b c s) = netlinkerDoneCh s"
  "lost (inc_p a b c s) = lost s" "pcount (inc_p a b c s) = pcount s" "ns (inc_p a b c s) = ns s"
  "nlRequest (inc_p a b c s) = nlRequest s" "pollRequestCh (inc_p a b c s) = pollRequestCh s"
  "pollingLoops (inc_p a b c s) = pollingLoops s" "stopped (inc_p a b c s) = stopped s"
  "env_frame (sys s) (sys (inc_p a b c s))" "thread (sys (inc_p a b c s)) = thread (sys s)"
  by (simp_all add: inc_p_def on_shared_def)

lemma poll_inv_inc [simp]: "poll_inv d n owner (inc_p a b c s) = poll_inv d n owner s"
proof
  show "poll_inv d n owner (inc_p a b c s) \<Longrightarrow> poll_inv d n owner s"
    by (erule poll_inv_frame) (simp_all add: inc_p_def on_shared_def env_frame_def same_env_def inc_def)
qed (erule poll_inv_frame, simp_all)

subsection \<open>A poll\<close>

lemma poll_effect:
  "env_frame (sys s) (sys (poll now err fd s))"
  "length (inflight (poll now err fd s)) + lost (poll now err fd s) = Suc (length (inflight s) + lost s)"
  "netlinkerDoneCh (poll now err fd s) = netlinkerDoneCh s"
  by (auto simp: poll_def sendNetlinkDumpRequest_def inc_p_def on_shared_def Let_def env_frame_def)

lemma poll_slot_simps [simp]:
  "fd < 0 \<Longrightarrow> poll_slot now errs fd (s, k) = (s, k)"
  "\<not> fd < 0 \<Longrightarrow> poll_slot now errs fd (s, k) = (poll now (errs fd) fd s, k + 1)"
  by (simp_all add: poll_slot_def)

lemma poll_slots_effect:
  "fold (poll_slot now errs) fds (s, k) = (t, k') \<Longrightarrow>
     env_frame (sys s) (sys t) \<and> netlinkerDoneCh t = netlinkerDoneCh s
     \<and> k' + int (length (inflight s) + lost s) = k + int (length (inflight t) + lost t)"
proof (induction fds arbitrary: s k)
  case (Cons fd fds)
  show ?case
  proof (cases "fd < 0")
    case True
    then show ?thesis using Cons by simp
  next
    case False
    let ?s = "poll now (errs fd) fd s"
    have "fold (poll_slot now errs) fds (?s, k + 1) = (t, k')"
      using False Cons.prems by simp
    note ih = Cons.IH [OF this]
    note eff = poll_effect [where s = s and now = now and err = "errs fd" and fd = fd]
    have "env_frame (sys s) (sys t)" using ih eff(1) by (blast intro: env_frame_trans)
    moreover have "netlinkerDoneCh t = netlinkerDoneCh s" using ih eff(3) by simp
    moreover have "k' + int (length (inflight s) + lost s) = k + int (length (inflight t) + lost t)"
      using ih eff(2) by linarith
    ultimately show ?thesis by blast
  qed
qed simp

lemma pollAll_effect:
  assumes "pollAllNetlinkSockets d cfg now errs loops s = Some (t, k)"
  shows "env_frame (run_action d StartPoll (sys s)) (sys t)"
    "netlinkerDoneCh t = netlinkerDoneCh s"
    "k + int (length (inflight s) + lost s) = int (length (inflight t) + lost t)"
proof -
  define y where "y = run_action d StartPoll (sys s)"
  obtain b where fold: "fold (poll_slot now errs) (getNetlinkSocketFDs (nsMap (ns s)))
      (s\<lparr>sys := y, nlRequest := b, sys := y\<lparr>shared := inc ''GetNetlinkSocketFDs'' ''start'' ''counter'' (shared y)\<rparr>,
         ns := ns s\<rparr>, 0) = (t, k)"
    using assms
    by (auto simp: pollAllNetlinkSockets_def GetNetlinkSocketFDs_def inc_ns_def Let_def y_def
        simp del: run_action.simps split: bind_splits)
  note eff = poll_slots_effect [OF fold]
  show "env_frame (run_action d StartPoll (sys s)) (sys t)"
    using eff by (auto simp: y_def [symmetric] simp del: run_action.simps intro: env_frame_trans [rotated])
  show "netlinkerDoneCh t = netlinkerDoneCh s"
    "k + int (length (inflight s) + lost s) = int (length (inflight t) + lost t)"
    using eff by simp_all
qed

lemma quiet_when_zero:
  assumes "poll_inv d n owner s" "pcount s = 0"
  shows "inflight s = []" "netlinkerDoneCh s = []" "lost s = 0" "1 \<le> i \<Longrightarrow> thread (sys s) i = Idle"
proof -
  show fl: "inflight s = []" and "netlinkerDoneCh s = []" "lost s = 0"
    using poll_invD(5) [OF assms(1)] assms(2) by (auto simp: counted_def simp del: of_nat_add)
  show "1 \<le> i \<Longrightarrow> thread (sys s) i = Idle" using poll_invD(8) [OF assms(1), of i] fl by auto
qed

lemma reconcile_frame:
  assumes "poll_inv d n owner s"
  shows "\<exists>s1. poll_inv d n owner s1 \<and> pcount s1 = pcount s \<and> thread (sys s1) = thread (sys s)
    \<and> reconcileThenPoll d cfg live now errs loops s = pollAllNetlinkSockets d cfg now errs loops s1"
proof (cases "pf_ReconcileBeforePoll cfg")
  case True
  obtain x m e st where r: "reconcile live (shared (sys s), ns s) = ((x, m), e, st)" by (metis surj_pair)
  then have fr: "same_env (shared (sys s)) x" using same_env_reconcile [OF r] by simp
  let ?s = "s\<lparr>sys := (sys s)\<lparr>shared := x\<rparr>, ns := m\<rparr>"
  have "poll_inv d n owner ?s" using fr by (intro poll_inv_frame [OF assms]) simp_all
  then show ?thesis
    using True r by (intro exI [of _ ?s]) (simp add: reconcileThenPoll_def)
next
  case False
  then show ?thesis using assms by (intro exI [of _ s]) (simp add: reconcileThenPoll_def)
qed

lemma inv_poll:
  assumes inv: "poll_inv d n owner s" and zero: "pcount s = 0" and idle: "thread (sys s) 0 = Idle"
    and run: "reconcileThenPoll d cfg live now errs loops s = Some (t, k)"
  shows "poll_inv d n owner (t\<lparr>pcount := k\<rparr>)"
proof -
  obtain s1 where inv1: "poll_inv d n owner s1" and s1: "pcount s1 = 0" "thread (sys s1) = thread (sys s)"
      and run1: "pollAllNetlinkSockets d cfg now errs loops s1 = Some (t, k)"
    using reconcile_frame [OF inv, of cfg live now errs loops] zero run by metis
  note quiet = quiet_when_zero [OF inv1 s1(1)]
  note eff = pollAll_effect [OF run1]
  let ?y = "run_action d StartPoll (sys s1)"
  have en: "enabled n StartPoll (sys s1)" using idle s1(2) by simp
  have pool: "\<forall>v \<in> set (xtcpEnvelopePool (shared (sys s1))). v = []"
    using poll_invD(1) [OF inv1] by (simp add: env_inv_def)
  have y: "env_inv d n ?y" "conserved n ?y"
    using env_inv_step [OF poll_invD(1) [OF inv1] en] conserved_step [OF poll_invD(2,1) [OF inv1] en] by auto
  have "dropped ?y = []" "replaced ?y = []" "currentEnvelope (shared ?y) = Some []" "thread ?y = thread (sys s1)"
    using poll_invD(3,4) [OF inv1] poll_invD(7) [OF inv1 s1(1)] startEnvelope_inv [OF pool] by simp_all
  moreover note f = env_frame_fields [OF eff(1)]
  moreover have "counted (t\<lparr>pcount := k\<rparr>)" using eff(2,3) quiet(1-3) by (simp add: counted_def)
  ultimately show ?thesis
    using y quiet(4) by (intro poll_invI) (simp_all add: env_frame_inv [OF eff(1)] rowsOf_def del: run_action.simps)
qed

text \<open>A terminal flush when nothing is outstanding. The envelope may still hold rows.\<close>

lemma inv_flush:
  assumes base: "env_inv d n (sys s)" "conserved n (sys s)" "dropped (sys s) = []" "replaced (sys s) = []"
      "counted s"
    and quiet: "\<And>i. 1 \<le> i \<Longrightarrow> thread (sys s) i = Idle"
    and zero: "pcount s = 0" and idle: "thread (sys s) 0 = Idle"
    and reason: "f = ''poll_end'' \<or> f = ''poll_timeout'' \<or> f = ''shutdown''"
  shows "poll_inv d n owner (flush_p d f s)"
proof -
  let ?y = "run_action d (Terminal f) (sys s)"
  have en: "enabled n (Terminal f) (sys s)" using idle reason by simp
  obtain x e where take: "flushTake f (shared (sys s)) = (x, e)" by force
  have pool: "\<forall>v \<in> set (xtcpEnvelopePool (shared (sys s))). v = []"
    using base(1) by (simp add: env_inv_def)
  have "env_inv d n ?y" "conserved n ?y"
    using env_inv_step [OF base(1) en] conserved_step [OF base(2,1) en] by auto
  moreover have "dropped ?y = []" "replaced ?y = []" "rowsOf (currentEnvelope (shared ?y)) = []"
      "thread ?y = (thread (sys s))(0 := Delivering f e)"
    using base(3,4) flushTake_inv [OF take pool] by (simp_all add: take)
  moreover have "counted (flush_p d f s)" using base(5) by (simp add: counted_def flush_p_def)
  ultimately show ?thesis
    using quiet zero by (intro poll_invI) (simp_all add: flush_p_def del: run_action.simps)
qed

lemma inv_flush_zero:
  assumes inv: "poll_inv d n owner s" and zero: "pcount s = 0" and idle: "thread (sys s) 0 = Idle"
    and reason: "f = ''poll_end'' \<or> f = ''poll_timeout'' \<or> f = ''shutdown''"
  shows "poll_inv d n owner (flush_p d f s)"
  using inv_flush [OF poll_invD(1-5) [OF inv] quiet_when_zero(4) [OF inv zero] zero idle reason] .

lemma inv_done:
  assumes inv: "poll_inv d n owner s" and idle: "thread (sys s) 0 = Idle" and ne: "netlinkerDoneCh s \<noteq> []"
    and run: "handle_event d cfg DoneRecv s = Some t"
  shows "poll_inv d n owner t"
proof -
  let ?s = "(inc_p ''Poller'' ''done'' ''count'' (s\<lparr>netlinkerDoneCh := tl (netlinkerDoneCh s)\<rparr>))\<lparr>pcount := pcount s - 1\<rparr>"
  have pos: "0 < pcount s" using poll_invD(5) [OF inv] ne by (simp add: counted_def del: of_nat_add)
  have fr: "env_frame (sys s) (sys ?s)" by (simp add: inc_p_def on_shared_def)
  have cnt: "counted ?s" using poll_invD(5) [OF inv] ne by (cases "netlinkerDoneCh s") (simp_all add: counted_def)
  have t: "t = (if pcount s = 1 then flush_p d ''poll_end'' ?s else ?s)"
    using run by (auto simp: handle_event_def handleNetlinkerDone_def Let_def split: if_splits)
  note f = env_frame_fields [OF fr] and i = env_frame_inv [OF fr]
  show ?thesis
  proof (cases "pcount s = 1")
    case False
    have "poll_inv d n owner ?s"
    proof (rule poll_invI)
      show "0 < pcount ?s \<Longrightarrow> currentEnvelope (shared (sys ?s)) \<noteq> None"
        using poll_invD(6) [OF inv pos] f(5) by metis
      show "pcount ?s = 0 \<Longrightarrow> rowsOf (currentEnvelope (shared (sys ?s))) = []" using False by simp
      show "\<And>i. 1 \<le> i \<Longrightarrow> thread (sys ?s) i \<noteq> Idle \<Longrightarrow> i \<le> n \<and> owner i \<in> set (inflight ?s)"
        using poll_invD(8) [OF inv] by simp
    qed (use cnt poll_invD(1-4) [OF inv] f i in simp_all)
    then show ?thesis using False by (simp add: t)
  next
    case True
    then have "length (inflight s) + length (netlinkerDoneCh s) + lost s = 1"
      using poll_invD(5) [OF inv] by (simp add: counted_def del: of_nat_add)
    then have "inflight s = []" using ne by (cases "netlinkerDoneCh s") auto
    then have q: "\<And>i. 1 \<le> i \<Longrightarrow> thread (sys ?s) i = Idle" using poll_invD(8) [OF inv] f(1) by auto
    have "poll_inv d n owner (flush_p d ''poll_end'' ?s)"
      using cnt poll_invD(1-4) [OF inv] f i q True idle by (intro inv_flush) simp_all
    then show ?thesis using True by (simp add: t)
  qed
qed

text \<open>A timer that fires, or a stop that comes, between two cycles.\<close>

fun calm :: "plabel \<Rightarrow> Poller \<Rightarrow> bool" where
  "calm (Loop Timeout) s = (pcount s = 0)"
| "calm (Loop Stop) s = (pcount s = 0)"
| "calm _ s = True"

lemma inv_request:
  assumes inv: "poll_inv d n owner s" and idle: "thread (sys s) 0 = Idle"
    and run: "handle_event d cfg (PollReq live now errs) s = Some t"
  shows "poll_inv d n owner t"
proof -
  let ?s = "inc_p ''Poller'' ''pollRequestCh'' ''count'' (s\<lparr>pollRequestCh := pollRequestCh s - 1\<rparr>)"
  have inv1: "poll_inv d n owner ?s" by (rule poll_inv_frame [OF inv]) (simp_all add: inc_p_def on_shared_def)
  show ?thesis
  proof (cases "0 < pcount s")
    case True
    then have "t = inc_p ''Poller'' ''alreadyPolling'' ''count'' ?s"
      using run by (simp add: handle_event_def handlePollRequest_def)
    then show ?thesis using inv1 by simp
  next
    case False
    then have zero: "pcount ?s = 0" using poll_invD(5) [OF inv] by (simp add: counted_def)
    obtain u k where u: "reconcileThenPoll d cfg live now errs (pollingLoops s) ?s = Some (u, k)"
        "t = u\<lparr>pcount := k\<rparr>"
      using False run by (auto simp: handle_event_def handlePollRequest_def split: bind_splits)
    show ?thesis unfolding u(2) using inv_poll [OF inv1 zero _ u(1)] idle by simp
  qed
qed

lemma inv_event:
  assumes inv: "poll_inv d n owner s" and idle: "thread (sys s) 0 = Idle" and en: "loop_enabled cfg ev s"
    and calm: "calm (Loop ev) s" and run: "handle_event d cfg ev s = Some t"
  shows "poll_inv d n owner t"
proof (cases ev)
  case Tick
  then have "t = poke (inc_p ''Poller'' ''ticker'' ''count'' s)"
    using run by (simp add: handle_event_def handlePollerTick_def)
  then show ?thesis by (intro poll_inv_frame [OF inv]) (simp_all add: poke_def)
next
  case FreqChange
  then show ?thesis using run inv by (auto simp: handle_event_def handleChangePollFrequency_def)
next
  case (PollReq live now errs)
  then show ?thesis using inv_request [OF inv idle] run by simp
next
  case DoneRecv
  then show ?thesis using inv_done [OF inv idle] run en by simp
next
  case Timeout
  let ?s = "(inc_p ''Poller'' ''PollTimeout'' ''count'' s)\<lparr>pcount := 0\<rparr>"
  have zero: "pcount s = 0" using calm Timeout by simp
  have "poll_inv d n owner ?s" by (rule poll_inv_frame [OF inv]) (simp_all add: zero)
  then have "poll_inv d n owner (flush_p d ''poll_timeout'' ?s)" by (rule inv_flush_zero) (simp_all add: idle)
  then show ?thesis using run Timeout by (simp add: handle_event_def handlePollTimeout_def)
next
  case Stop
  let ?s = "(inc_p ''Poller'' ''complete'' ''count'' s)\<lparr>stopped := True\<rparr>"
  have "poll_inv d n owner ?s" by (rule poll_inv_frame [OF inv]) simp_all
  then have "poll_inv d n owner (flush_p d ''shutdown'' ?s)"
    by (rule inv_flush_zero) (use idle calm Stop in simp_all)
  then show ?thesis using run Stop by (simp add: handle_event_def)
qed

lemma inv_loop:
  assumes "poll_inv d n owner s" "thread (sys s) 0 = Idle" "loop_enabled cfg ev s" "calm (Loop ev) s"
    "loop_once d cfg ev s = Some t"
  shows "poll_inv d n owner t"
proof -
  let ?s = "inc_p ''Poller'' ''pollingLoops'' ''count'' s"
  obtain u where u: "handle_event d cfg ev ?s = Some u" "t = u\<lparr>pollingLoops := pollingLoops u + 1\<rparr>"
    using assms(5) by (auto simp: loop_once_def)
  have "loop_enabled cfg ev ?s" "calm (Loop ev) ?s" using assms(3,4) by (cases ev; simp)+
  then have "poll_inv d n owner u" using inv_event [OF _ _ _ _ u(1)] assms(1,2) by simp
  then show ?thesis unfolding u(2) by (rule poll_inv_frame) simp_all
qed

subsection \<open>The decoders\<close>

lemma inflight_pos:
  assumes "poll_inv d n owner s" "fd \<in> set (inflight s)"
  shows "0 < pcount s" "currentEnvelope (shared (sys s)) \<noteq> None"
proof -
  show pos: "0 < pcount s" using poll_invD(5) [OF assms(1)] assms(2)
    by (cases "inflight s") (auto simp: counted_def)
  show "currentEnvelope (shared (sys s)) \<noteq> None" by (rule poll_invD(6) [OF assms(1) pos])
qed

text \<open>What an action of a decoder keeps, beside the invariants of the envelope.\<close>

lemma inv_work_frame:
  assumes inv: "poll_inv d n owner s" and en: "enabled n a (sys s)"
    and y: "y = run_action d a (sys s)" "dropped y = []" "replaced y = []"
    and env: "0 < pcount s \<Longrightarrow> currentEnvelope (shared y) \<noteq> None"
      "pcount s = 0 \<Longrightarrow> rowsOf (currentEnvelope (shared y)) = []"
    and busy: "\<And>j. 1 \<le> j \<Longrightarrow> thread y j \<noteq> Idle \<Longrightarrow> j \<le> n \<and> owner j \<in> set (inflight s)"
  shows "poll_inv d n owner (s\<lparr>sys := y\<rparr>)"
proof (rule poll_invI)
  show "env_inv d n (sys (s\<lparr>sys := y\<rparr>))" "conserved n (sys (s\<lparr>sys := y\<rparr>))"
    using env_inv_step [OF poll_invD(1) [OF inv] en] conserved_step [OF poll_invD(2,1) [OF inv] en] y(1) by auto
qed (use y(2,3) env busy poll_invD(5) [OF inv] in \<open>auto simp: counted_def\<close>)

lemma inv_append:
  assumes inv: "poll_inv d n owner s" and en: "decoder_action n owner (Append i r) s"
  shows "poll_inv d n owner (s\<lparr>sys := run_action d (Append i r) (sys s)\<rparr>)"
proof -
  have i: "enabled n (Append i r) (sys s)" "1 \<le> i" "i \<le> n" "owner i \<in> set (inflight s)" using en by auto
  note pos = inflight_pos [OF inv i(4)]
  obtain rows where rows: "currentEnvelope (shared (sys s)) = Some rows" using pos(2) by auto
  obtain x reason where ap: "appendRow d r (shared (sys s)) = (x, reason)" by force
  show ?thesis
  proof (rule inv_work_frame [OF inv i(1) refl])
    show "\<And>j. 1 \<le> j \<Longrightarrow> thread (run_action d (Append i r) (sys s)) j \<noteq> Idle \<Longrightarrow> j \<le> n \<and> owner j \<in> set (inflight s)"
      using poll_invD(8) [OF inv] i(3,4) by (auto simp: ap split: if_splits)
  qed (use pos(1) rows poll_invD(3,4) [OF inv] appendRow_some(1) [OF rows ap] in \<open>auto simp: ap\<close>)
qed

lemma inv_take:
  assumes inv: "poll_inv d n owner s" and en: "decoder_action n owner (Take i) s"
  shows "poll_inv d n owner (s\<lparr>sys := run_action d (Take i) (sys s)\<rparr>)"
proof -
  have i: "enabled n (Take i) (sys s)" "1 \<le> i" "i \<le> n" using en by auto
  obtain f where f: "thread (sys s) i = WantFlush f" using i(1) by (auto split: pc.splits)
  have own: "owner i \<in> set (inflight s)" using poll_invD(8) [OF inv i(2)] f by simp
  have re: "reAcquire f" using poll_invD(1) [OF inv] f unfolding env_inv_def by blast
  obtain x e where take: "flushTake f (shared (sys s)) = (x, e)" by force
  have pool: "\<forall>v \<in> set (xtcpEnvelopePool (shared (sys s))). v = []"
    using poll_invD(1) [OF inv] by (simp add: env_inv_def)
  have env: "currentEnvelope x \<noteq> None" "rowsOf (currentEnvelope x) = []"
    using flushTake_inv(1,7) [OF take pool] re by auto
  show ?thesis
  proof (rule inv_work_frame [OF inv i(1) refl])
    show "\<And>j. 1 \<le> j \<Longrightarrow> thread (run_action d (Take i) (sys s)) j \<noteq> Idle \<Longrightarrow> j \<le> n \<and> owner j \<in> set (inflight s)"
      using poll_invD(8) [OF inv] i(3) own by (auto simp: f take split: if_splits)
  qed (use env poll_invD(3,4) [OF inv] in \<open>auto simp: f take\<close>)
qed

lemma inv_deliver:
  assumes inv: "poll_inv d n owner s" and en: "decoder_action n owner (Deliver i) s"
  shows "poll_inv d n owner (s\<lparr>sys := run_action d (Deliver i) (sys s)\<rparr>)"
proof -
  have i: "enabled n (Deliver i) (sys s)" using en by simp
  obtain f e where f: "thread (sys s) i = Delivering f e" using i by (auto split: pc.splits)
  have pool: "\<forall>v \<in> set (xtcpEnvelopePool (shared (sys s))). v = []"
    using poll_invD(1) [OF inv] by (simp add: env_inv_def)
  note same = flushDeliver_inv(1) [OF pool, of d f e]
  show ?thesis
  proof (rule inv_work_frame [OF inv i refl])
    show "\<And>j. 1 \<le> j \<Longrightarrow> thread (run_action d (Deliver i) (sys s)) j \<noteq> Idle \<Longrightarrow> j \<le> n \<and> owner j \<in> set (inflight s)"
      using poll_invD(8) [OF inv] by (auto simp: f split: if_splits)
  qed (use same poll_invD(3,4,6,7) [OF inv] in \<open>auto simp: f\<close>)
qed

lemma inv_dump_done:
  assumes inv: "poll_inv d n owner s" and en: "p_enabled cfg n owner (DumpDone fd) s"
  shows "poll_inv d n owner (s\<lparr>inflight := remove1 fd (inflight s), netlinkerDoneCh := netlinkerDoneCh s @ [fd]\<rparr>)"
    (is "poll_inv d n owner ?t")
proof (rule poll_invI)
  have fd: "fd \<in> set (inflight s)" using en by simp
  then have "length (inflight s) = Suc (length (remove1 fd (inflight s)))"
    by (simp add: length_remove1) (cases "inflight s", auto)
  then show "counted ?t" using poll_invD(5) [OF inv] by (simp add: counted_def)
  fix j assume j: "1 \<le> j" "thread (sys ?t) j \<noteq> Idle"
  then have own: "j \<le> n" "owner j \<in> set (inflight s)" using poll_invD(8) [OF inv, of j] by auto
  have "owner j = fd \<Longrightarrow> fd \<in> set (remove1 fd (inflight s))"
    using en j own(1) by (auto simp: list_all_iff)
  then have "owner j \<in> set (remove1 fd (inflight s))"
    using own(2) by (cases "owner j = fd") (auto simp: in_set_remove1)
  then show "j \<le> n \<and> owner j \<in> set (inflight ?t)" using own(1) by simp
qed (use poll_invD(1-4,6,7) [OF inv] in simp_all)

lemma poll_inv_step:
  assumes inv: "poll_inv d n owner s" and en: "p_enabled cfg n owner l s" and calm: "calm l s"
    and run: "p_run d cfg l s = Some t"
  shows "poll_inv d n owner t"
proof (cases l)
  case (Loop ev)
  then show ?thesis using inv_loop [OF inv, of cfg ev t] en calm run by auto
next
  case (Work a)
  then have t: "t = s\<lparr>sys := run_action d a (sys s)\<rparr>" and a: "decoder_action n owner a s" using run en by auto
  show ?thesis
    unfolding t by (cases a) (use a inv_append [OF inv] inv_take [OF inv] inv_deliver [OF inv] in auto)
next
  case (DumpDone fd)
  then show ?thesis using inv_dump_done [OF inv] en run by auto
next
  case Poke
  then have "t = poke s" using run by simp
  then show ?thesis by (intro poll_inv_frame [OF inv]) (simp_all add: poke_def)
next
  case (NsMove m)
  then have "t = s\<lparr>ns := m\<rparr>" using run by simp
  then show ?thesis by (intro poll_inv_frame [OF inv]) simp_all
qed

lemma poll_inv_reach: "poll_reach d cfg n owner calm s t \<Longrightarrow> poll_inv d n owner s \<Longrightarrow> poll_inv d n owner t"
  by (induction rule: poll_reach.induct) (auto intro: poll_inv_step)

lemma poll_inv_init:
  assumes "fresh_daemon x" "poller_init d cfg live now errs x m b = Some s"
  shows "poll_inv d n owner s"
proof -
  let ?s = "\<lparr>sys = start_system x, ns = m, nlRequest = b, pcount = 0, pollingLoops = 1, pollRequestCh = 0,
        netlinkerDoneCh = [], stopped = False, inflight = [], lost = 0\<rparr>"
  have inv: "poll_inv d n owner ?s"
    using start_inv [OF assms(1)] start_conserved [OF assms(1)] assms(1)
    by (simp add: poll_inv_def counted_def start_system_def fresh_daemon_def rowsOf_def)
  obtain t k where t: "reconcileThenPoll d cfg live now errs 0 ?s = Some (t, k)" "s = t\<lparr>pcount := k\<rparr>"
    using assms(2) by (auto simp: poller_init_def split: bind_splits)
  show ?thesis unfolding t(2) by (rule inv_poll [OF inv _ _ t(1)]) (simp_all add: start_system_def)
qed

section \<open>Properties\<close>

lemma conserved_idle:
  assumes "conserved n s" "\<And>i. i \<le> n \<Longrightarrow> thread s i = Idle" "dropped s = []" "replaced s = []"
    "rowsOf (currentEnvelope (shared s)) = []"
  shows "mset (offered s) = delivered (shared s)"
proof -
  have "(\<Sum>i\<in>{..n}. held (thread s i)) = {#}" using assms(2) by (intro sum.neutral) simp
  then show ?thesis using assms unfolding conserved_def by simp
qed

text \<open>C3: a poll cycle loses no row. From the first poll of a fresh daemon, through any
  interleaving of the loop's events with the decoders, done signals, poll requests,
  failing sends and namespace changes, as long as the timeout and the stop come between
  two cycles: the loop's count is exactly the number of dumps whose done signal is still
  to come or to be handled, no decoded row is ever dropped or overwritten, and whenever
  the count is zero and the loop has finished its flush, the rows sent to the destination
  are exactly the decoded ones.\<close>

theorem poll_cycle_loses_nothing:
  assumes "fresh_daemon x" "poller_init d cfg live now errs x m b = Some s"
    and "poll_reach d cfg n owner calm s t"
  shows "pcount t = int (length (inflight t) + length (netlinkerDoneCh t) + lost t)
    \<and> dropped (sys t) = [] \<and> replaced (sys t) = []
    \<and> (pcount t = 0 \<and> thread (sys t) 0 = Idle \<longrightarrow> mset (offered (sys t)) = delivered (shared (sys t)))"
proof -
  have inv: "poll_inv d n owner t"
    using poll_inv_reach [OF assms(3)] poll_inv_init [OF assms(1,2)] by blast
  have "mset (offered (sys t)) = delivered (shared (sys t))" if z: "pcount t = 0" "thread (sys t) 0 = Idle"
  proof (rule conserved_idle [OF poll_invD(2) [OF inv] _ poll_invD(3,4) [OF inv] poll_invD(7) [OF inv z(1)]])
    show "thread (sys t) i = Idle" for i
      using quiet_when_zero(4) [OF inv z(1), of i] z(2) by (cases i) auto
  qed
  then show ?thesis using poll_invD(3-5) [OF inv] by (simp add: counted_def)
qed

definition wit_cfg :: PollerCfg where
  "wit_cfg = \<lparr>pf_NlmsgSeq = 1, pf_MaxLoops = 0, pf_ReconcileBeforePoll = True\<rparr>"

definition wit_poller :: "Poller option" where
  "wit_poller = poller_init wit_daemon wit_cfg [] 7 (\<lambda>_. False) wit_xtcp
     (snd (openDefaultNetLinkSocket 7 4 (wit_xtcp, wit_ns))) (replicate 72 0)"

text \<open>One cycle: a row is decoded, the dump is done, the envelope is flushed.\<close>

definition wit_cycle :: "plabel list" where
  "wit_cycle = [Work (Append 1 zero_record), DumpDone 4, Loop DoneRecv, Work (Deliver 0), Loop Timeout,
     Work (Deliver 0)]"

theorem poll_cycle_loses_nothing_witness:
  "\<exists>s t. wit_poller = Some s \<and> poll_reach wit_daemon wit_cfg 1 (\<lambda>_. 4) calm s t \<and> pcount t = 0
     \<and> offered (sys t) = [zero_record] \<and> delivered (shared (sys t)) = {#zero_record#}"
proof -
  have "map_option (\<lambda>t. (pcount t, offered (sys t), thread (sys t) 0))
      (Option.bind wit_poller (poll_schedule wit_daemon wit_cfg 1 (\<lambda>_. 4) calm wit_cycle))
        = Some (0, [zero_record], Idle)"
    by code_simp
  then obtain s t where st: "wit_poller = Some s"
      "poll_schedule wit_daemon wit_cfg 1 (\<lambda>_. 4) calm wit_cycle s = Some t"
      "pcount t = 0" "offered (sys t) = [zero_record]" "thread (sys t) 0 = Idle"
    by (auto split: bind_splits)
  note r = poll_schedule_reach [OF poll_refl st(2)]
  have "delivered (shared (sys t)) = {#zero_record#}"
    using poll_cycle_loses_nothing [OF wit_fresh st(1) [unfolded wit_poller_def] r] st(3-5) by simp
  then show ?thesis using st r by blast
qed

text \<open>A timeout with the dump in flight and a poll request after it; then a poll in which that
  dump's done signal comes before a row of the new dump.\<close>

definition wit_late :: "plabel list" where
  "wit_late = [Loop Timeout, Work (Deliver 0), Poke]"

definition wit_next :: "plabel list" where
  "wit_next = [Loop (PollReq [] 8 (\<lambda>_. False)), DumpDone 4, Loop DoneRecv, Work (Deliver 0),
     Work (Append 1 zero_record)]"


end
