(* ===== verification/Config_Service.thy ===== *)
theory Config_Service
  imports Listener_Auth Poller
begin

text \<open>
  The gRPC configuration service (\<open>pkg/xtcp/grpc_configService.go\<close>), with the check of the
  compiled-in enrichers it makes (\<open>pkg/xtcp/enrich_core.go\<close>) and the runner of poll bursts
  (\<open>pkg/xtcp/poller.go\<close>). The fields of the configuration the service reads or writes are
  spelled out; all others are one field of a type of their own. Request validation
  (\<open>protovalidate\<close>) is a function; cloning a message is copying a value. A duration is a
  number of nanoseconds, and a missing one counts as zero.
\<close>

section \<open>State\<close>

record 'o XtcpConfig =
  c_PollFrequency :: "int option"
  c_PollTimeout :: "int option"
  c_Dest :: string
  c_EnvelopeFlushThresholdBytes :: u32
  c_EnvelopeFlushThresholdRows :: u32
  c_S3AccessKey :: string
  c_S3SecretKey :: string
  c_S3ParquetFlushThresholdBytes :: u32
  c_S3FlushInterval :: "int option"
  c_ListenerAuth :: "ListenerAuth option"
  c_AdminListenerAuth :: "ListenerAuth option"
  c_EnrichAsnEnable :: bool
  c_EnrichLocalityEnable :: bool
  c_other :: 'o

record pollBurst =
  pb_count :: u32
  pb_interval :: int

record s3FlushControl =
  fc_interval :: "int option"
  fc_thresholdBytes :: "u32 option"

text \<open>The service with the channels it sends on, the burst the runner is in with the number of
  the poll it is at, the configurations handed to the restart hook, and the increments of the
  counters, latest first.\<close>

record 'o xtcpConfigService =
  s_config :: "'o XtcpConfig"
  s_changePollFrequencyCh :: "int list"
  s_pollRequestCh :: nat
  s_pollBurstCh :: "pollBurst list"
  s_setS3FlushCh :: "s3FlushControl list"
  s_burst :: "(pollBurst \<times> u32) option"
  s_reconfigured :: "'o XtcpConfig list"
  s_counters :: "(string \<times> string \<times> string) list"

definition inc_s :: "string \<Rightarrow> string \<Rightarrow> string \<Rightarrow> 'o xtcpConfigService \<Rightarrow> 'o xtcpConfigService" where
  "inc_s f v t s = s\<lparr>s_counters := (f, v, t) # s_counters s\<rparr>"

definition changePollFrequencyChSize :: nat where
  "changePollFrequencyChSize = 2"

definition pollBurstChSize :: nat where
  "pollBurstChSize = 1"

definition setS3FlushChSize :: nat where
  "setS3FlushChSize = 2"

datatype 'o request =
    GetRequest
  | SetRequest "'o XtcpConfig option"
  | SetPollFrequencyRequest "int option" "int option"
  | TriggerPollRequest
  | TriggerPollBurstRequest u32 "int option"
  | SetS3UploadRequest "int option" u32
  | SetEnvelopeFlushRequest u32 u32

datatype 'o reply = ConfigReply "'o XtcpConfig" | TriggerPollReply | TriggerPollBurstReply u32 "int option"

datatype status_code = InvalidArgument | FailedPrecondition | Unavailable | Canceled | ResourceExhausted

text \<open>The process around the service: the validator, the registered enrichers, and whether a
  restart hook is set. A call has its own context; \<open>cl_draw\<close> is the choice of \<open>select\<close> among
  the cases that are ready.\<close>

record 'o process =
  pr_validate :: "'o request \<Rightarrow> bool"
  pr_enrichers :: "string list"
  pr_hook :: bool

record call =
  cl_ctxDone :: bool
  cl_serverDone :: bool
  cl_draw :: nat

datatype ready = Send | CtxDone | ServerDone | Default

definition go_select :: "bool \<Rightarrow> call \<Rightarrow> ready" where
  "go_select room c =
     (let cases = (if room then [Send] else []) @ (if cl_ctxDone c then [CtxDone] else [])
                  @ (if cl_serverDone c then [ServerDone] else [])
      in if cases = [] then Default else cases ! (cl_draw c mod length cases))"

definition AsDuration :: "int option \<Rightarrow> int" where
  "AsDuration d = (case d of None \<Rightarrow> 0 | Some v \<Rightarrow> v)"

section \<open>Enrichers\<close>

definition EnricherAsn :: string where
  "EnricherAsn = ''asn''"

definition EnricherLocality :: string where
  "EnricherLocality = ''locality''"

definition knownEnrichers :: "string list" where
  "knownEnrichers = [EnricherAsn, EnricherLocality]"

datatype enricherLookup = enricherLookupFound | enricherLookupUnknown | enricherLookupNotCompiledIn

definition lookupEnricherFactory :: "string list \<Rightarrow> string \<Rightarrow> enricherLookup" where
  "lookupEnricherFactory registry name =
     (if name \<in> set registry then enricherLookupFound
      else if name \<in> set knownEnrichers then enricherLookupNotCompiledIn
      else enricherLookupUnknown)"

definition requestedEnrichers :: "'o XtcpConfig \<Rightarrow> string list" where
  "requestedEnrichers c =
     (if c_EnrichAsnEnable c then [EnricherAsn] else []) @ (if c_EnrichLocalityEnable c then [EnricherLocality] else [])"

text \<open>The name of the first requested enricher that is missing.\<close>

definition checkConfigEnrichersCompiledIn :: "string list \<Rightarrow> 'o XtcpConfig \<Rightarrow> string option" where
  "checkConfigEnrichersCompiledIn registry c =
     List.find (\<lambda>name. lookupEnricherFactory registry name \<noteq> enricherLookupFound) (requestedEnrichers c)"

section \<open>Secrets\<close>

definition redact_auth :: "ListenerAuth option \<Rightarrow> ListenerAuth option" where
  "redact_auth a = map_option (\<lambda>a. a\<lparr>la_RawToken := [], la_HmacSharedKey := []\<rparr>) a"

definition redactSecrets :: "'o XtcpConfig \<Rightarrow> 'o XtcpConfig" where
  "redactSecrets cfg = cfg\<lparr>c_S3SecretKey := [], c_S3AccessKey := [],
     c_ListenerAuth := redact_auth (c_ListenerAuth cfg), c_AdminListenerAuth := redact_auth (c_AdminListenerAuth cfg)\<rparr>"

definition redactedConfig :: "'o xtcpConfigService \<Rightarrow> 'o XtcpConfig" where
  "redactedConfig s = redactSecrets (s_config s)"

definition preserveAuthSecrets :: "ListenerAuth option \<Rightarrow> ListenerAuth option \<Rightarrow> ListenerAuth option" where
  "preserveAuthSecrets req running =
     (case (req, running) of
        (Some i, Some r) \<Rightarrow>
          Some (i\<lparr>la_RawToken := (if la_RawToken i = [] then la_RawToken r else la_RawToken i),
                  la_HmacSharedKey := (if la_HmacSharedKey i = [] then la_HmacSharedKey r else la_HmacSharedKey i)\<rparr>)
      | _ \<Rightarrow> req)"

definition preserve :: "'o XtcpConfig \<Rightarrow> 'o XtcpConfig \<Rightarrow> 'o XtcpConfig" where
  "preserve req running = req\<lparr>
     c_S3SecretKey := (if c_S3SecretKey req = [] then c_S3SecretKey running else c_S3SecretKey req),
     c_S3AccessKey := (if c_S3AccessKey req = [] then c_S3AccessKey running else c_S3AccessKey req),
     c_ListenerAuth := preserveAuthSecrets (c_ListenerAuth req) (c_ListenerAuth running),
     c_AdminListenerAuth := preserveAuthSecrets (c_AdminListenerAuth req) (c_AdminListenerAuth running)\<rparr>"

section \<open>Handlers\<close>

type_synonym 'o result = "'o xtcpConfigService \<times> (status_code + 'o reply)"

definition Get :: "'o process \<Rightarrow> 'o xtcpConfigService \<Rightarrow> 'o result" where
  "Get e s =
     (let s = inc_s ''Get'' ''start'' ''counter'' s
      in if \<not> pr_validate e GetRequest then (inc_s ''Get'' ''Validate'' ''error'' s, Inl InvalidArgument)
         else (s, Inr (ConfigReply (redactedConfig s))))"

definition Set :: "'o process \<Rightarrow> 'o XtcpConfig option \<Rightarrow> 'o xtcpConfigService \<Rightarrow> 'o result" where
  "Set e req s =
     (let s = inc_s ''Set'' ''start'' ''counter'' s
      in case req of
           None \<Rightarrow> (inc_s ''Set'' ''nilConfig'' ''error'' s, Inl InvalidArgument)
         | Some cfg \<Rightarrow>
             if \<not> pr_validate e (SetRequest req) then (inc_s ''Set'' ''Validate'' ''error'' s, Inl InvalidArgument)
             else if checkConfigEnrichersCompiledIn (pr_enrichers e) cfg \<noteq> None
             then (inc_s ''Set'' ''enricherNotCompiledIn'' ''error'' s, Inl FailedPrecondition)
             else
               let cfg = preserve cfg (s_config s)
               in case NewPolicy (c_ListenerAuth cfg) (c_AdminListenerAuth cfg) Map.empty of
                    Inl _ \<Rightarrow> (s, Inl InvalidArgument)
                  | Inr _ \<Rightarrow>
                      if \<not> pr_hook e then (inc_s ''Set'' ''noReconfigure'' ''error'' s, Inl Unavailable)
                      else
                        (inc_s ''Set'' ''reconfigure'' ''counter'' (s\<lparr>s_reconfigured := s_reconfigured s @ [cfg]\<rparr>),
                         Inr (ConfigReply (redactSecrets cfg))))"

definition SetPollFrequency ::
  "'o process \<Rightarrow> call \<Rightarrow> int option \<Rightarrow> int option \<Rightarrow> 'o xtcpConfigService \<Rightarrow> 'o result" where
  "SetPollFrequency e c freq timeout s =
     (let s = inc_s ''SetPollFrequency'' ''start'' ''counter'' s
      in if \<not> pr_validate e (SetPollFrequencyRequest freq timeout)
         then (inc_s ''SetPollFrequency'' ''Validate'' ''error'' s, Inl InvalidArgument)
         else
           let s = s\<lparr>s_config := (s_config s)\<lparr>c_PollFrequency := freq, c_PollTimeout := timeout\<rparr>\<rparr>
           in case go_select (length (s_changePollFrequencyCh s) < changePollFrequencyChSize) c of
                Send \<Rightarrow>
                  (let s = s\<lparr>s_changePollFrequencyCh := s_changePollFrequencyCh s @ [AsDuration freq]\<rparr>
                   in (s, Inr (ConfigReply (redactedConfig s))))
              | CtxDone \<Rightarrow> (inc_s ''SetPollFrequency'' ''ctxDone'' ''count'' s, Inl Canceled)
              | ServerDone \<Rightarrow> (inc_s ''SetPollFrequency'' ''serverCtxDone'' ''count'' s, Inl Unavailable)
              | Default \<Rightarrow>
                  (let s = inc_s ''SetPollFrequency'' ''chFull'' ''count'' s
                   in (s, Inr (ConfigReply (redactedConfig s)))))"

definition TriggerPoll :: "'o process \<Rightarrow> call \<Rightarrow> 'o xtcpConfigService \<Rightarrow> 'o result" where
  "TriggerPoll e c s =
     (let s = inc_s ''TriggerPoll'' ''start'' ''counter'' s
      in if \<not> pr_validate e TriggerPollRequest then (inc_s ''TriggerPoll'' ''Validate'' ''error'' s, Inl InvalidArgument)
         else case go_select (s_pollRequestCh s < pollRequestChSize) c of
                Send \<Rightarrow> (s\<lparr>s_pollRequestCh := Suc (s_pollRequestCh s)\<rparr>, Inr TriggerPollReply)
              | CtxDone \<Rightarrow> (inc_s ''TriggerPoll'' ''ctxDone'' ''count'' s, Inl Canceled)
              | ServerDone \<Rightarrow> (inc_s ''TriggerPoll'' ''serverCtxDone'' ''count'' s, Inl Unavailable)
              | Default \<Rightarrow> (inc_s ''TriggerPoll'' ''chFull'' ''count'' s, Inr TriggerPollReply))"

definition TriggerPollBurst ::
  "'o process \<Rightarrow> call \<Rightarrow> u32 \<Rightarrow> int option \<Rightarrow> 'o xtcpConfigService \<Rightarrow> 'o result" where
  "TriggerPollBurst e c cnt interval s =
     (let s = inc_s ''TriggerPollBurst'' ''start'' ''counter'' s
      in if \<not> pr_validate e (TriggerPollBurstRequest cnt interval)
         then (inc_s ''TriggerPollBurst'' ''Validate'' ''error'' s, Inl InvalidArgument)
         else if AsDuration interval \<le> AsDuration (c_PollTimeout (s_config s))
         then (inc_s ''TriggerPollBurst'' ''intervalTooShort'' ''error'' s, Inl InvalidArgument)
         else case go_select (length (s_pollBurstCh s) < pollBurstChSize) c of
                Send \<Rightarrow>
                  (s\<lparr>s_pollBurstCh := s_pollBurstCh s @ [\<lparr>pb_count = cnt, pb_interval = AsDuration interval\<rparr>]\<rparr>,
                   Inr (TriggerPollBurstReply cnt interval))
              | CtxDone \<Rightarrow> (inc_s ''TriggerPollBurst'' ''ctxDone'' ''count'' s, Inl Canceled)
              | ServerDone \<Rightarrow> (inc_s ''TriggerPollBurst'' ''serverCtxDone'' ''count'' s, Inl Unavailable)
              | Default \<Rightarrow> (inc_s ''TriggerPollBurst'' ''burstBusy'' ''count'' s, Inl ResourceExhausted))"

definition schemeS3Parquet :: string where
  "schemeS3Parquet = ''s3parquet''"

text \<open>The fields of the request that are set replace those of the configuration and go into the
  signal.\<close>

definition s3_control :: "int option \<Rightarrow> u32 \<Rightarrow> 'o XtcpConfig \<Rightarrow> 'o XtcpConfig \<times> s3FlushControl" where
  "s3_control interval threshold cfg =
     (let ctrl = \<lparr>fc_interval = None, fc_thresholdBytes = None\<rparr>;
          (cfg, ctrl) = (case interval of
                           None \<Rightarrow> (cfg, ctrl)
                         | Some d \<Rightarrow> (cfg\<lparr>c_S3FlushInterval := interval\<rparr>, ctrl\<lparr>fc_interval := Some d\<rparr>))
      in if threshold > 0
         then (cfg\<lparr>c_S3ParquetFlushThresholdBytes := threshold\<rparr>, ctrl\<lparr>fc_thresholdBytes := Some threshold\<rparr>)
         else (cfg, ctrl))"

definition SetS3Upload ::
  "'o process \<Rightarrow> call \<Rightarrow> int option \<Rightarrow> u32 \<Rightarrow> 'o xtcpConfigService \<Rightarrow> 'o result" where
  "SetS3Upload e c interval threshold s =
     (let s = inc_s ''SetS3Upload'' ''start'' ''counter'' s
      in if \<not> pr_validate e (SetS3UploadRequest interval threshold)
         then (inc_s ''SetS3Upload'' ''Validate'' ''error'' s, Inl InvalidArgument)
         else if \<not> starts_with (c_Dest (s_config s)) (schemeS3Parquet @ '':'')
         then (inc_s ''SetS3Upload'' ''notS3Parquet'' ''error'' s, Inl FailedPrecondition)
         else
           let (cfg, ctrl) = s3_control interval threshold (s_config s);
               s = s\<lparr>s_config := cfg\<rparr>
           in case go_select (length (s_setS3FlushCh s) < setS3FlushChSize) c of
                Send \<Rightarrow>
                  (let s = s\<lparr>s_setS3FlushCh := s_setS3FlushCh s @ [ctrl]\<rparr>
                   in (s, Inr (ConfigReply (redactedConfig s))))
              | CtxDone \<Rightarrow> (inc_s ''SetS3Upload'' ''ctxDone'' ''count'' s, Inl Canceled)
              | ServerDone \<Rightarrow> (inc_s ''SetS3Upload'' ''serverCtxDone'' ''count'' s, Inl Unavailable)
              | Default \<Rightarrow>
                  (let s = inc_s ''SetS3Upload'' ''chFull'' ''count'' s
                   in (s, Inr (ConfigReply (redactedConfig s)))))"

definition SetEnvelopeFlush ::
  "'o process \<Rightarrow> u32 \<Rightarrow> u32 \<Rightarrow> 'o xtcpConfigService \<Rightarrow> 'o result" where
  "SetEnvelopeFlush e nbytes nrows s =
     (let s = inc_s ''SetEnvelopeFlush'' ''start'' ''counter'' s
      in if \<not> pr_validate e (SetEnvelopeFlushRequest nbytes nrows)
         then (inc_s ''SetEnvelopeFlush'' ''Validate'' ''error'' s, Inl InvalidArgument)
         else
           let cfg = s_config s;
               cfg = (if nbytes > 0 then cfg\<lparr>c_EnvelopeFlushThresholdBytes := nbytes\<rparr> else cfg);
               cfg = (if nrows > 0 then cfg\<lparr>c_EnvelopeFlushThresholdRows := nrows\<rparr> else cfg);
               s = s\<lparr>s_config := cfg\<rparr>
           in (s, Inr (ConfigReply (redactedConfig s))))"

text \<open>The dispatch of a call to its handler.\<close>

definition serve :: "'o process \<Rightarrow> call \<Rightarrow> 'o request \<Rightarrow> 'o xtcpConfigService \<Rightarrow> 'o result" where
  "serve e c rq s =
     (case rq of
        GetRequest \<Rightarrow> Get e s
      | SetRequest cfg \<Rightarrow> Set e cfg s
      | SetPollFrequencyRequest freq timeout \<Rightarrow> SetPollFrequency e c freq timeout s
      | TriggerPollRequest \<Rightarrow> TriggerPoll e c s
      | TriggerPollBurstRequest cnt interval \<Rightarrow> TriggerPollBurst e c cnt interval s
      | SetS3UploadRequest interval threshold \<Rightarrow> SetS3Upload e c interval threshold s
      | SetEnvelopeFlushRequest nbytes nrows \<Rightarrow> SetEnvelopeFlush e nbytes nrows s)"

text \<open>The access classes of the daemon's services: those the \<open>.proto\<close> files of \<open>ConfigService\<close>
  and \<open>LinkMonitorService\<close> declare, and those of the record service.\<close>

definition config_descriptor :: ServiceDescriptor where
  "config_descriptor = \<lparr>sd_FullName = ''xtcp_config.v1.ConfigService'', sd_Methods =
     [(''Get'', Some ACCESS_READ), (''Set'', Some ACCESS_ADMIN), (''SetPollFrequency'', Some ACCESS_ADMIN),
      (''TriggerPoll'', Some ACCESS_ADMIN), (''TriggerPollBurst'', Some ACCESS_ADMIN),
      (''SetS3Upload'', Some ACCESS_ADMIN), (''SetEnvelopeFlush'', Some ACCESS_ADMIN)]\<rparr>"

definition linkmonitor_descriptor :: ServiceDescriptor where
  "linkmonitor_descriptor = \<lparr>sd_FullName = ''linkmonitor.v1.LinkMonitorService'', sd_Methods =
     [(''GetStatus'', Some ACCESS_READ), (''ListInterfaces'', Some ACCESS_READ), (''ListCollectors'', Some ACCESS_READ),
      (''Rebaseline'', Some ACCESS_ADMIN), (''Resync'', Some ACCESS_ADMIN)]\<rparr>"

definition grpcMethodAccess :: Methods where
  "grpcMethodAccess = Merge (Merge (Merge StandardMethods (ServiceMethods config_descriptor))
       (ServiceMethods linkmonitor_descriptor))
     (map_of [(''/xtcp_flat_record.v1.XTCPFlatRecordService/FlatRecords'', ACCESS_READ),
              (''/xtcp_flat_record.v1.XTCPFlatRecordService/PollFlatRecords'', ACCESS_ADMIN)])"

definition method_of :: "'o request \<Rightarrow> string" where
  "method_of rq = ''/xtcp_config.v1.ConfigService/'' @
     (case rq of
        GetRequest \<Rightarrow> ''Get''
      | SetRequest _ \<Rightarrow> ''Set''
      | SetPollFrequencyRequest _ _ \<Rightarrow> ''SetPollFrequency''
      | TriggerPollRequest \<Rightarrow> ''TriggerPoll''
      | TriggerPollBurstRequest _ _ \<Rightarrow> ''TriggerPollBurst''
      | SetS3UploadRequest _ _ \<Rightarrow> ''SetS3Upload''
      | SetEnvelopeFlushRequest _ _ \<Rightarrow> ''SetEnvelopeFlush'')"

text \<open>A call as it comes in over gRPC, the policy built from the configuration at the start.\<close>

definition grpc_call ::
  "(int \<Rightarrow> auth_error + int) \<Rightarrow> int \<Rightarrow> Policy \<Rightarrow> string list option \<Rightarrow> 'o process \<Rightarrow> call \<Rightarrow> 'o request
    \<Rightarrow> 'o xtcpConfigService \<Rightarrow> ('o xtcpConfigService \<times> (grpc_code + (status_code + 'o reply))) option" where
  "grpc_call draw clock p md e c rq s = UnaryServerInterceptor draw clock p md (method_of rq) (serve e c rq) s"

section \<open>The burst runner\<close>

text \<open>\<open>pollBurstRunner\<close> takes a burst when it is in none, and pokes the poller once per round; it
  sleeps between two rounds.\<close>

definition burst_take :: "'o xtcpConfigService \<Rightarrow> 'o xtcpConfigService" where
  "burst_take s =
     (case (s_burst s, s_pollBurstCh s) of
        (None, b # bs) \<Rightarrow>
          (let s = inc_s ''pollBurstRunner'' ''burst'' ''count'' (s\<lparr>s_pollBurstCh := bs\<rparr>)
           in if 0 < pb_count b then s\<lparr>s_burst := Some (b, 0)\<rparr> else s)
      | _ \<Rightarrow> s)"

definition burst_poke :: "'o xtcpConfigService \<Rightarrow> 'o xtcpConfigService" where
  "burst_poke s =
     (case s_burst s of
        None \<Rightarrow> s
      | Some (b, i) \<Rightarrow>
          let s = (if s_pollRequestCh s < pollRequestChSize
                   then inc_s ''pollBurstRunner'' ''poke'' ''count'' (s\<lparr>s_pollRequestCh := Suc (s_pollRequestCh s)\<rparr>)
                   else inc_s ''pollBurstRunner'' ''pokeDropped'' ''count'' s)
          in s\<lparr>s_burst := (if i + 1 < pb_count b then Some (b, i + 1) else None)\<rparr>)"

section \<open>Runs\<close>

text \<open>What happens to the service: calls, rounds of the burst runner, and the receives of the
  poller and of the S3 worker.\<close>

datatype 'o svc_step = Call call "'o request" | BurstTake | BurstPoke | PollReceive | FrequencyReceive | S3Receive

definition svc_run :: "'o process \<Rightarrow> 'o svc_step \<Rightarrow> 'o xtcpConfigService \<Rightarrow> 'o xtcpConfigService \<times> (status_code + 'o reply) list" where
  "svc_run e st s =
     (case st of
        Call c rq \<Rightarrow> (case serve e c rq s of (s, r) \<Rightarrow> (s, [r]))
      | BurstTake \<Rightarrow> (burst_take s, [])
      | BurstPoke \<Rightarrow> (burst_poke s, [])
      | PollReceive \<Rightarrow> (s\<lparr>s_pollRequestCh := s_pollRequestCh s - 1\<rparr>, [])
      | FrequencyReceive \<Rightarrow> (s\<lparr>s_changePollFrequencyCh := tl (s_changePollFrequencyCh s)\<rparr>, [])
      | S3Receive \<Rightarrow> (s\<lparr>s_setS3FlushCh := tl (s_setS3FlushCh s)\<rparr>, []))"

fun svc_runs :: "'o process \<Rightarrow> 'o svc_step list \<Rightarrow> 'o xtcpConfigService \<Rightarrow> 'o xtcpConfigService \<times> (status_code + 'o reply) list" where
  "svc_runs e [] s = (s, [])"
| "svc_runs e (st # sts) s =
     (case svc_run e st s of (s, rs) \<Rightarrow> case svc_runs e sts s of (s, rs') \<Rightarrow> (s, rs @ rs'))"

section \<open>What happens to secrets\<close>

definition auth_secrets :: "ListenerAuth option \<Rightarrow> (string \<times> string) option" where
  "auth_secrets a = map_option (\<lambda>a. (la_RawToken a, la_HmacSharedKey a)) a"

definition secrets_of :: "'o XtcpConfig \<Rightarrow> string \<times> string \<times> (string \<times> string) option \<times> (string \<times> string) option" where
  "secrets_of cfg = (c_S3SecretKey cfg, c_S3AccessKey cfg, auth_secrets (c_ListenerAuth cfg), auth_secrets (c_AdminListenerAuth cfg))"

definition no_secret :: "'o XtcpConfig \<Rightarrow> bool" where
  "no_secret cfg \<longleftrightarrow> c_S3SecretKey cfg = [] \<and> c_S3AccessKey cfg = []
     \<and> auth_secrets (c_ListenerAuth cfg) \<in> {None, Some ([], [])} \<and> auth_secrets (c_AdminListenerAuth cfg) \<in> {None, Some ([], [])}"

text \<open>No secret of the running configuration is blank in the new one; a listener block can be
  removed or introduced.\<close>

definition auth_kept :: "(string \<times> string) option \<Rightarrow> (string \<times> string) option \<Rightarrow> bool" where
  "auth_kept old new =
     (case (old, new) of
        (Some (r, h), Some (r', h')) \<Rightarrow> (r \<noteq> [] \<longrightarrow> r' \<noteq> []) \<and> (h \<noteq> [] \<longrightarrow> h' \<noteq> [])
      | _ \<Rightarrow> True)"

definition secrets_kept :: "'o XtcpConfig \<Rightarrow> 'o XtcpConfig \<Rightarrow> bool" where
  "secrets_kept running cfg =
     (case (secrets_of running, secrets_of cfg) of
        ((s3, s3a, l, a), (s3', s3a', l', a')) \<Rightarrow>
          (s3 \<noteq> [] \<longrightarrow> s3' \<noteq> []) \<and> (s3a \<noteq> [] \<longrightarrow> s3a' \<noteq> []) \<and> auth_kept l l' \<and> auth_kept a a')"

lemma redact_no_secret: "no_secret (redactSecrets cfg)"
  by (cases "c_ListenerAuth cfg"; cases "c_AdminListenerAuth cfg")
     (simp_all add: no_secret_def redactSecrets_def redact_auth_def auth_secrets_def)

lemma preserve_auth_kept: "auth_kept (auth_secrets r) (auth_secrets (preserveAuthSecrets a r))"
  by (cases a; cases r) (simp_all add: auth_kept_def auth_secrets_def preserveAuthSecrets_def)

lemma preserve_kept: "secrets_kept running (preserve cfg running)"
  by (simp add: secrets_kept_def secrets_of_def preserve_def preserve_auth_kept)

lemma preserve_redacted_auth: "preserveAuthSecrets (redact_auth a) a = a"
  by (cases a) (simp_all add: preserveAuthSecrets_def redact_auth_def)

text \<open>One call: a configuration in its reply has no secret, the secrets of the service stay,
  and a configuration handed to the restart hook has kept them.\<close>

definition secret_safe :: "'o xtcpConfigService \<Rightarrow> 'o xtcpConfigService \<Rightarrow> (status_code + 'o reply) list \<Rightarrow> bool" where
  "secret_safe s t rs \<longleftrightarrow>
     (\<forall>cfg. Inr (ConfigReply cfg) \<in> set rs \<longrightarrow> no_secret cfg)
   \<and> secrets_of (s_config t) = secrets_of (s_config s)
   \<and> (\<exists>new. s_reconfigured t = s_reconfigured s @ new \<and> (\<forall>cfg \<in> set new. secrets_kept (s_config s) cfg))"

lemma secret_safeI:
  assumes "\<And>cfg. Inr (ConfigReply cfg) \<in> set rs \<Longrightarrow> no_secret cfg"
    and "secrets_of (s_config t) = secrets_of (s_config s)" and "s_reconfigured t = s_reconfigured s"
  shows "secret_safe s t rs"
  using assms by (simp add: secret_safe_def)

lemma secret_safe_trans:
  assumes "secret_safe s t rs" "secret_safe t u rs'"
  shows "secret_safe s u (rs @ rs')"
proof -
  have "secrets_kept (s_config t) cfg = secrets_kept (s_config s) cfg" for cfg
    using assms(1) by (simp add: secret_safe_def secrets_kept_def)
  then show ?thesis using assms unfolding secret_safe_def by (auto 4 4)
qed

lemma inc_s_simps [simp]:
  "s_config (inc_s f v t s) = s_config s" "s_reconfigured (inc_s f v t s) = s_reconfigured s"
  "s_changePollFrequencyCh (inc_s f v t s) = s_changePollFrequencyCh s" "s_pollRequestCh (inc_s f v t s) = s_pollRequestCh s"
  "s_pollBurstCh (inc_s f v t s) = s_pollBurstCh s" "s_setS3FlushCh (inc_s f v t s) = s_setS3FlushCh s"
  "s_burst (inc_s f v t s) = s_burst s" "redactedConfig (inc_s f v t s) = redactedConfig s"
  by (simp_all add: inc_s_def redactedConfig_def)

lemma redactedConfig_no_secret: "no_secret (redactedConfig s)"
  by (simp add: redactedConfig_def redact_no_secret)

lemma secrets_of_simps [simp]:
  "secrets_of (cfg\<lparr>c_PollFrequency := f\<rparr>) = secrets_of cfg" "secrets_of (cfg\<lparr>c_PollTimeout := f\<rparr>) = secrets_of cfg"
  "secrets_of (cfg\<lparr>c_S3FlushInterval := i\<rparr>) = secrets_of cfg"
  "secrets_of (cfg\<lparr>c_S3ParquetFlushThresholdBytes := b\<rparr>) = secrets_of cfg"
  "secrets_of (cfg\<lparr>c_EnvelopeFlushThresholdBytes := b\<rparr>) = secrets_of cfg"
  "secrets_of (cfg\<lparr>c_EnvelopeFlushThresholdRows := b\<rparr>) = secrets_of cfg"
  by (simp_all add: secrets_of_def)


lemma safe_Get: "secret_safe s (fst (Get e s)) [snd (Get e s)]"
  by (rule secret_safeI) (auto simp: Get_def Let_def redactedConfig_no_secret split: if_splits)

lemma safe_SetPollFrequency: "secret_safe s (fst (SetPollFrequency e c f u s)) [snd (SetPollFrequency e c f u s)]"
  by (rule secret_safeI)
     (auto simp: SetPollFrequency_def Let_def redactedConfig_no_secret split: if_splits ready.splits)

lemma safe_TriggerPoll: "secret_safe s (fst (TriggerPoll e c s)) [snd (TriggerPoll e c s)]"
  by (rule secret_safeI) (auto simp: TriggerPoll_def Let_def split: if_splits ready.splits)

lemma safe_TriggerPollBurst: "secret_safe s (fst (TriggerPollBurst e c n i s)) [snd (TriggerPollBurst e c n i s)]"
  by (rule secret_safeI) (auto simp: TriggerPollBurst_def Let_def split: if_splits ready.splits)

lemma s3_control_secrets [simp]: "secrets_of (fst (s3_control i b cfg)) = secrets_of cfg"
  by (cases i) (simp_all add: s3_control_def Let_def)

lemma safe_SetS3Upload: "secret_safe s (fst (SetS3Upload e c i b s)) [snd (SetS3Upload e c i b s)]"
  by (rule secret_safeI)
     (auto simp: SetS3Upload_def Let_def split_beta redactedConfig_no_secret split: if_splits ready.splits)

lemma safe_SetEnvelopeFlush: "secret_safe s (fst (SetEnvelopeFlush e b r s)) [snd (SetEnvelopeFlush e b r s)]"
  by (rule secret_safeI) (auto simp: SetEnvelopeFlush_def Let_def redactedConfig_no_secret split: if_splits)

text \<open>What \<open>Set\<close> does when it gets past its checks.\<close>

definition set_accepts :: "'o process \<Rightarrow> 'o XtcpConfig \<Rightarrow> 'o xtcpConfigService \<Rightarrow> bool" where
  "set_accepts e cfg s \<longleftrightarrow>
     pr_validate e (SetRequest (Some cfg)) \<and> checkConfigEnrichersCompiledIn (pr_enrichers e) cfg = None \<and> pr_hook e
   \<and> (let new = preserve cfg (s_config s) in \<not> isl (NewPolicy (c_ListenerAuth new) (c_AdminListenerAuth new) Map.empty))"

lemma Set_accepted:
  assumes "set_accepts e cfg s"
  shows "snd (Set e (Some cfg) s) = Inr (ConfigReply (redactSecrets (preserve cfg (s_config s))))"
    and "s_config (fst (Set e (Some cfg) s)) = s_config s"
    and "s_reconfigured (fst (Set e (Some cfg) s)) = s_reconfigured s @ [preserve cfg (s_config s)]"
  using assms by (auto simp: Set_def set_accepts_def Let_def split: sum.splits)

lemma Set_refused:
  assumes "\<And>cfg. req = Some cfg \<Longrightarrow> \<not> set_accepts e cfg s"
  shows "\<exists>code. snd (Set e req s) = Inl code" and "s_config (fst (Set e req s)) = s_config s"
    and "s_reconfigured (fst (Set e req s)) = s_reconfigured s"
  using assms by (cases req; auto simp: Set_def set_accepts_def Let_def split: sum.splits)+

lemma safe_Set: "secret_safe s (fst (Set e req s)) [snd (Set e req s)]"
proof (cases "\<exists>cfg. req = Some cfg \<and> set_accepts e cfg s")
  case True
  then obtain cfg where "req = Some cfg" "set_accepts e cfg s" by blast
  then show ?thesis using Set_accepted [of e cfg s] preserve_kept [of "s_config s" cfg] redact_no_secret
    by (simp add: secret_safe_def)
next
  case False
  then show ?thesis using Set_refused [of req e s] by (intro secret_safeI) auto
qed

lemma safe_serve: "secret_safe s (fst (serve e c rq s)) [snd (serve e c rq s)]"
  by (cases rq) (simp_all add: serve_def safe_Get safe_Set safe_SetPollFrequency safe_TriggerPoll
    safe_TriggerPollBurst safe_SetS3Upload safe_SetEnvelopeFlush)

lemma safe_burst: "secret_safe s (burst_take s) []" "secret_safe s (burst_poke s) []"
  by (rule secret_safeI; simp add: burst_take_def burst_poke_def Let_def split: option.splits list.splits; fail)+

lemma safe_run: "svc_run e st s = (t, rs) \<Longrightarrow> secret_safe s t rs"
proof (cases st)
  case (Call c rq)
  then show "svc_run e st s = (t, rs) \<Longrightarrow> secret_safe s t rs"
    using safe_serve [of s e c rq] by (auto simp: svc_run_def split_beta)
qed (auto simp: svc_run_def safe_burst intro: secret_safeI)

lemma safe_runs: "svc_runs e sts s = (t, rs) \<Longrightarrow> secret_safe s t rs"
proof (induction sts arbitrary: s t rs)
  case (Cons st sts)
  obtain u rs1 where 1: "svc_run e st s = (u, rs1)" by (metis surj_pair)
  obtain v rs2 where 2: "svc_runs e sts u = (v, rs2)" by (metis surj_pair)
  have "t = v" "rs = rs1 @ rs2" using Cons.prems by (simp_all add: 1 2)
  then show ?case using secret_safe_trans [OF safe_run [OF 1] Cons.IH [OF 2]] by simp
qed (simp add: secret_safe_def)



definition wit_config :: "unit XtcpConfig" where
  "wit_config = \<lparr>c_PollFrequency = Some (10 * second), c_PollTimeout = Some (5 * second), c_Dest = ''s3parquet:b'',
     c_EnvelopeFlushThresholdBytes = 0, c_EnvelopeFlushThresholdRows = 0, c_S3AccessKey = ''ak'', c_S3SecretKey = ''sk'',
     c_S3ParquetFlushThresholdBytes = 0, c_S3FlushInterval = None, c_ListenerAuth = Some (wit_listener ''r''),
     c_AdminListenerAuth = Some (wit_listener ''a''), c_EnrichAsnEnable = False, c_EnrichLocalityEnable = True, c_other = ()\<rparr>"

definition wit_service :: "unit xtcpConfigService" where
  "wit_service = \<lparr>s_config = wit_config, s_changePollFrequencyCh = [], s_pollRequestCh = 0, s_pollBurstCh = [],
     s_setS3FlushCh = [], s_burst = None, s_reconfigured = [], s_counters = []\<rparr>"

definition wit_process :: "unit process" where
  "wit_process = \<lparr>pr_validate = (\<lambda>_. True), pr_enrichers = [''locality''], pr_hook = True\<rparr>"

definition wit_call :: call where
  "wit_call = \<lparr>cl_ctxDone = False, cl_serverDone = False, cl_draw = 3\<rparr>"





section \<open>Refused calls and bursts\<close>

lemma go_select_ready:
  assumes "go_select room c = r"
  shows "r = Send \<Longrightarrow> room" "r = CtxDone \<Longrightarrow> cl_ctxDone c" "r = ServerDone \<Longrightarrow> cl_serverDone c"
    "r = Default \<longleftrightarrow> \<not> room \<and> \<not> cl_ctxDone c \<and> \<not> cl_serverDone c"
proof -
  let ?cs = "(if room then [Send] else []) @ (if cl_ctxDone c then [CtxDone] else []) @ (if cl_serverDone c then [ServerDone] else [])"
  have r: "r = (if ?cs = [] then Default else ?cs ! (cl_draw c mod length ?cs))"
    using assms by (simp only: go_select_def Let_def)
  have mem: "?cs \<noteq> [] \<Longrightarrow> r \<in> set ?cs" unfolding r by (simp only: if_False) (rule nth_mem, simp)
  show "r = Send \<Longrightarrow> room" "r = CtxDone \<Longrightarrow> cl_ctxDone c" "r = ServerDone \<Longrightarrow> cl_serverDone c"
    using r mem by (cases "?cs = []"; auto split: if_splits)+
  show "r = Default \<longleftrightarrow> \<not> room \<and> \<not> cl_ctxDone c \<and> \<not> cl_serverDone c"
    using r mem by (cases "?cs = []"; auto split: if_splits)
qed

text \<open>What an error leaves as it was, with the one exception.\<close>

definition untouched :: "call \<Rightarrow> status_code \<Rightarrow> 'o xtcpConfigService \<Rightarrow> 'o xtcpConfigService \<Rightarrow> bool" where
  "untouched c code s t \<longleftrightarrow>
     s_changePollFrequencyCh t = s_changePollFrequencyCh s \<and> s_pollRequestCh t = s_pollRequestCh s
   \<and> s_pollBurstCh t = s_pollBurstCh s \<and> s_setS3FlushCh t = s_setS3FlushCh s \<and> s_burst t = s_burst s
   \<and> s_reconfigured t = s_reconfigured s
   \<and> (s_config t = s_config s \<or> code = Canceled \<and> cl_ctxDone c \<or> code = Unavailable \<and> cl_serverDone c)"

lemma untouched_inc: "untouched c code s (inc_s f v t s)"
  by (simp add: untouched_def)

text \<open>C36: a refused call has no effect. When a handler returns an error, nothing was sent on any
  channel, no configuration went to the restart hook, and the configuration is as it was; the
  only exception is a call whose context or whose server ended while its signal was sent, which
  has stored the new values already.\<close>

theorem refused_calls_have_no_effect:
  assumes "serve e c rq s = (t, Inl code)"
  shows "untouched c code s t"
proof (cases rq)
  case (SetRequest req)
  then show ?thesis using assms
    by (cases req) (auto simp: serve_def Set_def Let_def untouched_def split: if_splits sum.splits)
next
  case (SetS3UploadRequest i b)
  then show ?thesis using assms
    by (auto simp: serve_def SetS3Upload_def Let_def split_beta untouched_def dest: go_select_ready split: if_splits ready.splits)
qed (use assms in \<open>auto simp: serve_def Get_def SetPollFrequency_def TriggerPoll_def TriggerPollBurst_def
  SetEnvelopeFlush_def Let_def untouched_def dest: go_select_ready split: if_splits ready.splits\<close>)

theorem refused_calls_have_no_effect_witness:
  "\<exists>t. serve wit_process wit_call (TriggerPollBurstRequest 3 (Some second)) wit_service = (t, Inl InvalidArgument)
     \<and> s_pollBurstCh t = [] \<and> s_config t = wit_config"
proof -
  have "snd (serve wit_process wit_call (TriggerPollBurstRequest 3 (Some second)) wit_service) = Inl InvalidArgument"
    by code_simp
  then obtain t where t: "serve wit_process wit_call (TriggerPollBurstRequest 3 (Some second)) wit_service = (t, Inl InvalidArgument)"
    by (metis prod.collapse)
  then show ?thesis using refused_calls_have_no_effect [OF t] by (simp add: untouched_def wit_service_def)
qed

text \<open>C37: a burst is queued behind a running one. The channel holds one burst and the runner takes
  a burst out before it starts, so a second request that comes while the first runs is accepted;
  only a third is refused.\<close>

theorem burst_queued_behind_running:
  assumes "pr_validate e = (\<lambda>_. True)" "\<not> cl_ctxDone c" "\<not> cl_serverDone c" "s_burst s = None" "s_pollBurstCh s = []"
    and "AsDuration (c_PollTimeout (s_config s)) < AsDuration i" "0 < n"
  defines "t1 \<equiv> burst_take (fst (serve e c (TriggerPollBurstRequest n i) s))"
  defines "t2 \<equiv> fst (serve e c (TriggerPollBurstRequest n i) t1)"
  shows "s_burst t1 = Some (\<lparr>pb_count = n, pb_interval = AsDuration i\<rparr>, 0)
    \<and> snd (serve e c (TriggerPollBurstRequest n i) t1) = Inr (TriggerPollBurstReply n i)
    \<and> s_burst t2 = s_burst t1 \<and> length (s_pollBurstCh t2) = 1
    \<and> snd (serve e c (TriggerPollBurstRequest n i) t2) = Inl ResourceExhausted"
proof -
  have sel: "go_select room c = (if room then Send else Default)" for room
    using assms(2,3) by (simp add: go_select_def)
  show ?thesis using assms(1,4-7) unfolding t1_def t2_def
    by (simp add: serve_def TriggerPollBurst_def Let_def sel burst_take_def pollBurstChSize_def)
qed

theorem burst_queued_behind_running_witness:
  "snd (serve wit_process wit_call (TriggerPollBurstRequest 3 (Some (6 * second)))
     (burst_take (fst (serve wit_process wit_call (TriggerPollBurstRequest 3 (Some (6 * second))) wit_service))))
   = Inr (TriggerPollBurstReply 3 (Some (6 * second)))"
proof -
  have "pr_validate wit_process = (\<lambda>_. True)" "\<not> cl_ctxDone wit_call" "\<not> cl_serverDone wit_call"
    "s_burst wit_service = None" "s_pollBurstCh wit_service = []"
    by (simp_all add: wit_process_def wit_call_def wit_service_def)
  moreover have "AsDuration (c_PollTimeout (s_config wit_service)) < AsDuration (Some (6 * second))" "(0 :: u32) < 3"
    by code_simp+
  ultimately show ?thesis using burst_queued_behind_running [of wit_process wit_call wit_service "Some (6 * second)" 3] by simp
qed


section \<open>Calls without the admin credential\<close>

lemma config_access: "grpcMethodAccess (method_of rq) = Some ACCESS_READ \<longleftrightarrow> rq = GetRequest"
  by (cases rq) (simp_all add: method_of_def grpcMethodAccess_def Merge_def ServiceMethods_def config_descriptor_def
    linkmonitor_descriptor_def StandardMethods_def)

lemma NewPolicy_methods: "NewPolicy r a m = Inr p \<Longrightarrow> p_methods p = m"
  by (auto simp: NewPolicy_def Merge_def split: sum.splits)

lemma Get_frame: "untouched c code s (fst (Get e s)) \<and> s_config (fst (Get e s)) = s_config s"
  by (simp add: Get_def Let_def untouched_def)

end
