(* ===== verification/Rtnl_Route.thy ===== *)
theory Rtnl_Route
  imports Rtattr
begin

text \<open>
  The rtnetlink payload decoders the locality enrichment reads: addresses
  (\<open>pkg/xtcpnl/xtcpnl_ifaddrmsg.go\<close>) and routes (\<open>xtcpnl_rtmsg.go\<close>, \<open>xtcpnl_rtnexthop.go\<close>,
  \<open>xtcpnl_rta_cacheinfo.go\<close>, \<open>xtcpnl_rta_mfc_stats.go\<close>). A nil slice is the empty list, as
  \<open>CopyBytes\<close> makes it; \<open>None\<close> is a nil pointer in a field and a panic in a result.
\<close>

datatype parse_error =
    AttrError nl_error
  | ErrIfAddrmsgSmall
  | ErrIfaCacheinfoSmall
  | ErrRtMsgSmall
  | ErrRtNextHopSmall
  | ErrRtNextHopBadLen
  | ErrRtViaSmall
  | ErrRtaCacheinfoSmall
  | ErrRtaMfcStatsSmall

text \<open>A callback guarded by the set of attribute types seen so far.\<close>

definition first_wins :: "(u16 \<Rightarrow> bytes \<Rightarrow> 's \<Rightarrow> 's) \<Rightarrow> u16 \<Rightarrow> bytes \<Rightarrow> u64 \<times> 's \<Rightarrow> u64 \<times> 's" where
  "first_wins f atype val st =
     (case st of (seen, s) \<Rightarrow>
        case attrSeen_first atype seen of (isFirst, seen) \<Rightarrow> (seen, if isFirst then f atype val s else s))"

section \<open>Addresses\<close>

record IfAddrmsg =
  am_Family :: u8
  am_Prefixlen :: u8
  am_Flags :: u8
  am_Scope :: u8
  am_Index :: u32

definition IfAddrmsgSizeCst :: nat where
  "IfAddrmsgSizeCst = 8"

definition DeserializeIfAddrmsg :: "bytes \<Rightarrow> (parse_error + IfAddrmsg) option" where
  "DeserializeIfAddrmsg data =
     (if length data < IfAddrmsgSizeCst then Some (Inl ErrIfAddrmsgSmall)
      else do {
        f \<leftarrow> go_index data 0; p \<leftarrow> go_index data 1; fl \<leftarrow> go_index data 2; sc \<leftarrow> go_index data 3;
        ix \<leftarrow> LE_Uint32 data 4 8;
        Some (Inr \<lparr>am_Family = f, am_Prefixlen = p, am_Flags = fl, am_Scope = sc, am_Index = ix\<rparr>) })"

record IfaCacheinfo =
  ci_Preferred :: u32
  ci_Valid :: u32
  ci_Cstamp :: u32
  ci_Tstamp :: u32

definition IfaCacheinfoSizeCst :: nat where
  "IfaCacheinfoSizeCst = 16"

text \<open>Reads in a callback are behind a length check, so their values are taken directly.\<close>

definition DeserializeIfaCacheinfo :: "bytes \<Rightarrow> parse_error + IfaCacheinfo" where
  "DeserializeIfaCacheinfo data =
     (if length data < IfaCacheinfoSizeCst then Inl ErrIfaCacheinfoSmall
      else Inr \<lparr>ci_Preferred = le_word (take 4 data), ci_Valid = le_word (take 4 (drop 4 data)),
                ci_Cstamp = le_word (take 4 (drop 8 data)), ci_Tstamp = le_word (take 4 (drop 12 data))\<rparr>)"

record AddrInfo =
  ad_Family :: u8
  ad_Prefixlen :: u8
  ad_Scope :: u8
  ad_Index :: u32
  ad_Address :: bytes
  ad_Local :: bytes
  ad_Label :: bytes
  ad_Flags :: u32
  ad_Broadcast :: bytes
  ad_Proto :: u8
  ad_HasProto :: bool
  ad_CacheInfo :: "IfaCacheinfo option"
  ad_RtPriority :: u32
  ad_HasRtPriority :: bool
  ad_Anycast :: bytes
  ad_Multicast :: bytes
  ad_McUsers :: u32
  ad_HasMcUsers :: bool

definition addr_attr :: "u16 \<Rightarrow> bytes \<Rightarrow> AddrInfo \<Rightarrow> AddrInfo" where
  "addr_attr atype val ai =
     (if atype = 1 then ai\<lparr>ad_Address := val\<rparr>
      else if atype = 2 then ai\<lparr>ad_Local := val\<rparr>
      else if atype = 3 then ai\<lparr>ad_Label := trim_nul val\<rparr>
      else if atype = 4 then ai\<lparr>ad_Broadcast := val\<rparr>
      else if atype = 8 then (if 4 \<le> length val then ai\<lparr>ad_Flags := le_word (take 4 val)\<rparr> else ai)
      else if atype = 11 then (if 1 \<le> length val then ai\<lparr>ad_Proto := hd val, ad_HasProto := True\<rparr> else ai)
      else if atype = 6 then (case DeserializeIfaCacheinfo val of Inl _ \<Rightarrow> ai | Inr ci \<Rightarrow> ai\<lparr>ad_CacheInfo := Some ci\<rparr>)
      else if atype = 9
      then (if 4 \<le> length val then ai\<lparr>ad_RtPriority := le_word (take 4 val), ad_HasRtPriority := True\<rparr> else ai)
      else if atype = 5 then ai\<lparr>ad_Anycast := val\<rparr>
      else if atype = 7 then ai\<lparr>ad_Multicast := val\<rparr>
      else if atype = 12
      then (if 4 \<le> length val then ai\<lparr>ad_McUsers := le_word (take 4 val), ad_HasMcUsers := True\<rparr> else ai)
      else ai)"

definition addr_init :: "IfAddrmsg \<Rightarrow> AddrInfo" where
  "addr_init m = \<lparr>ad_Family = am_Family m, ad_Prefixlen = am_Prefixlen m, ad_Scope = am_Scope m, ad_Index = am_Index m,
     ad_Address = [], ad_Local = [], ad_Label = [], ad_Flags = ucast (am_Flags m), ad_Broadcast = [], ad_Proto = 0,
     ad_HasProto = False, ad_CacheInfo = None, ad_RtPriority = 0, ad_HasRtPriority = False, ad_Anycast = [],
     ad_Multicast = [], ad_McUsers = 0, ad_HasMcUsers = False\<rparr>"

definition addr_alias :: "AddrInfo \<Rightarrow> AddrInfo" where
  "addr_alias ai =
     (let ai = (if ad_Local ai = [] then ai\<lparr>ad_Local := ad_Address ai\<rparr> else ai)
      in if ad_Address ai = [] then ai\<lparr>ad_Address := ad_Local ai\<rparr> else ai)"

definition ParseNewAddr :: "bytes \<Rightarrow> (parse_error + AddrInfo) option" where
  "ParseNewAddr body = do {
     hdr \<leftarrow> DeserializeIfAddrmsg body;
     case hdr of
       Inl err \<Rightarrow> Some (Inl err)
     | Inr m \<Rightarrow> do {
         rest \<leftarrow> go_slice_from body IfAddrmsgSizeCst;
         (err, (seen, ai)) \<leftarrow> WalkRTAttrs rest (first_wins addr_attr) (0, addr_init m);
         Some (case err of Some e \<Rightarrow> Inl (AttrError e) | None \<Rightarrow> Inr (addr_alias ai)) } }"

section \<open>Nested route attributes\<close>

record RtNextHop =
  nx_Len :: u16
  nx_Flags :: u8
  nx_Hops :: u8
  nx_Ifindex :: u32

definition RtNextHopSizeCst :: nat where
  "RtNextHopSizeCst = 8"

definition DeserializeRtNextHop :: "bytes \<Rightarrow> (parse_error + RtNextHop) option" where
  "DeserializeRtNextHop data =
     (if length data < RtNextHopSizeCst then Some (Inl ErrRtNextHopSmall)
      else do {
        l \<leftarrow> LE_Uint16 data 0 2; fl \<leftarrow> go_index data 2; h \<leftarrow> go_index data 3; ix \<leftarrow> LE_Uint32 data 4 8;
        Some (Inr \<lparr>nx_Len = l, nx_Flags = fl, nx_Hops = h, nx_Ifindex = ix\<rparr>) })"

record RtVia =
  via_Family :: u16
  via_Addr :: bytes

definition RtViaSizeCst :: nat where
  "RtViaSizeCst = 2"

definition DeserializeRtVia :: "bytes \<Rightarrow> parse_error + RtVia" where
  "DeserializeRtVia data =
     (if length data < RtViaSizeCst then Inl ErrRtViaSmall
      else Inr \<lparr>via_Family = le_word (take 2 data), via_Addr = drop RtViaSizeCst data\<rparr>)"

record RouteNextHop =
  nh_Flags :: u8
  nh_Hops :: u8
  nh_Ifindex :: u32
  nh_Gateway :: bytes
  nh_Via :: "RtVia option"

definition RTA_GATEWAY :: u16 where
  "RTA_GATEWAY = 5"

definition RTA_VIA :: u16 where
  "RTA_VIA = 18"

text \<open>A later gateway of an entry replaces an earlier one, and a later error of its \<open>RTA_VIA\<close>
  an earlier error.\<close>

definition nexthop_attr :: "u16 \<Rightarrow> bytes \<Rightarrow> RouteNextHop \<times> parse_error option \<Rightarrow> RouteNextHop \<times> parse_error option" where
  "nexthop_attr atype val st =
     (case st of (nh, viaErr) \<Rightarrow>
        if atype = RTA_GATEWAY then (nh\<lparr>nh_Gateway := val\<rparr>, viaErr)
        else if atype = RTA_VIA
        then (case DeserializeRtVia val of Inl err \<Rightarrow> (nh, Some err) | Inr v \<Rightarrow> (nh\<lparr>nh_Via := Some v\<rparr>, viaErr))
        else st)"

text \<open>The result is the error and the entries that were handed on.\<close>

function WalkRouteNextHops :: "bytes \<Rightarrow> RouteNextHop list \<Rightarrow> (parse_error option \<times> RouteNextHop list) option" where
  "WalkRouteNextHops data acc =
     (if length data < RtNextHopSizeCst then Some (None, acc)
      else do {
        hdr \<leftarrow> DeserializeRtNextHop data;
        case hdr of
          Inl err \<Rightarrow> Some (Some err, acc)
        | Inr h \<Rightarrow>
            let nhLen = unat (nx_Len h) in
            if nhLen < RtNextHopSizeCst \<or> nhLen > length data then Some (Some ErrRtNextHopBadLen, acc)
            else do {
              inner \<leftarrow> go_slice data RtNextHopSizeCst nhLen;
              (werr, (nh, viaErr)) \<leftarrow> WalkRTAttrsNested inner nexthop_attr
                 (\<lparr>nh_Flags = nx_Flags h, nh_Hops = nx_Hops h, nh_Ifindex = nx_Ifindex h, nh_Gateway = [], nh_Via = None\<rparr>, None);
              case werr of
                Some err \<Rightarrow> Some (Some (AttrError err), acc)
              | None \<Rightarrow>
                  (case viaErr of
                     Some err \<Rightarrow> Some (Some err, acc)
                   | None \<Rightarrow>
                       let acc = acc @ [nh]; adv = nhLen + nat (FourByteAlignPadding (int nhLen)) in
                       if adv > length data then Some (None, acc)
                       else do { data' \<leftarrow> go_slice_from data adv; WalkRouteNextHops data' acc }) } })"
  by pat_completeness auto
termination
  by (relation "measure (\<lambda>(data, acc). length data)")
    (auto simp: go_slice_from_def go_slice_def RtNextHopSizeCst_def split: if_splits)

declare WalkRouteNextHops.simps [simp del]

definition RouteMetricMaxCst :: nat where
  "RouteMetricMaxCst = 17"

record RouteMetrics =
  mx_Present :: u32
  mx_Values :: "u32 list"
  mx_CcAlgo :: bytes
  mx_Unknown :: int

definition metric_attr :: "u16 \<Rightarrow> bytes \<Rightarrow> RouteMetrics \<Rightarrow> RouteMetrics" where
  "metric_attr atype aval m =
     (if unat atype > RouteMetricMaxCst then m\<lparr>mx_Unknown := mx_Unknown m + 1\<rparr>
      else if atype = 16
      then m\<lparr>mx_CcAlgo := trim_nul aval, mx_Present := mx_Present m OR push_bit (unat atype) 1\<rparr>
      else if length aval < 4 then m
      else m\<lparr>mx_Values := (mx_Values m)[unat atype := le_word (take 4 aval)],
             mx_Present := mx_Present m OR push_bit (unat atype) 1\<rparr>)"

definition ParseRouteMetrics :: "bytes \<Rightarrow> (parse_error + RouteMetrics) option" where
  "ParseRouteMetrics val = do {
     (err, m) \<leftarrow> WalkRTAttrsNested val metric_attr
        \<lparr>mx_Present = 0, mx_Values = replicate (RouteMetricMaxCst + 1) 0, mx_CcAlgo = [], mx_Unknown = 0\<rparr>;
     Some (case err of Some e \<Rightarrow> Inl (AttrError e) | None \<Rightarrow> Inr m) }"

record RtaCacheinfo =
  rc_Clntref :: u32
  rc_Lastuse :: u32
  rc_Expires :: u32
  rc_Error :: u32
  rc_Used :: u32
  rc_ID :: u32
  rc_Ts :: u32
  rc_Tsage :: u32

definition RtaCacheinfoSizeCst :: nat where
  "RtaCacheinfoSizeCst = 32"

definition DeserializeRtaCacheinfo :: "bytes \<Rightarrow> parse_error + RtaCacheinfo" where
  "DeserializeRtaCacheinfo data =
     (if length data < RtaCacheinfoSizeCst then Inl ErrRtaCacheinfoSmall
      else let w = (\<lambda>off. le_word (take 4 (drop off data)))
           in Inr \<lparr>rc_Clntref = w 0, rc_Lastuse = w 4, rc_Expires = w 8, rc_Error = w 12, rc_Used = w 16,
                   rc_ID = w 20, rc_Ts = w 24, rc_Tsage = w 28\<rparr>)"

record RtaMfcStats =
  mf_Packets :: u64
  mf_Bytes :: u64
  mf_WrongIf :: u64

definition RtaMfcStatsSizeCst :: nat where
  "RtaMfcStatsSizeCst = 24"

definition DeserializeRtaMfcStats :: "bytes \<Rightarrow> parse_error + RtaMfcStats" where
  "DeserializeRtaMfcStats data =
     (if length data < RtaMfcStatsSizeCst then Inl ErrRtaMfcStatsSmall
      else Inr \<lparr>mf_Packets = le_word (take 8 data), mf_Bytes = le_word (take 8 (drop 8 data)),
                mf_WrongIf = le_word (take 8 (drop 16 data))\<rparr>)"

section \<open>Routes\<close>

record RtMsg =
  rm_Family :: u8
  rm_DstLen :: u8
  rm_SrcLen :: u8
  rm_Tos :: u8
  rm_Table :: u8
  rm_Protocol :: u8
  rm_Scope :: u8
  rm_Type :: u8
  rm_Flags :: u32

definition RtMsgSizeCst :: nat where
  "RtMsgSizeCst = 12"

definition RtaNhID :: u16 where
  "RtaNhID = 30"

definition DeserializeRtMsg :: "bytes \<Rightarrow> (parse_error + RtMsg) option" where
  "DeserializeRtMsg data =
     (if length data < RtMsgSizeCst then Some (Inl ErrRtMsgSmall)
      else do {
        f \<leftarrow> go_index data 0; d \<leftarrow> go_index data 1; sl \<leftarrow> go_index data 2; tos \<leftarrow> go_index data 3;
        tab \<leftarrow> go_index data 4; pr \<leftarrow> go_index data 5; sc \<leftarrow> go_index data 6; ty \<leftarrow> go_index data 7;
        fl \<leftarrow> LE_Uint32 data 8 12;
        Some (Inr \<lparr>rm_Family = f, rm_DstLen = d, rm_SrcLen = sl, rm_Tos = tos, rm_Table = tab, rm_Protocol = pr,
          rm_Scope = sc, rm_Type = ty, rm_Flags = fl\<rparr>) })"

record RouteInfo =
  ri_Family :: u8
  ri_DstLen :: u8
  ri_SrcLen :: u8
  ri_Tos :: u8
  ri_Table :: u32
  ri_Scope :: u8
  ri_Type :: u8
  ri_Protocol :: u8
  ri_Flags :: u32
  ri_Dst :: bytes
  ri_Src :: bytes
  ri_Gateway :: bytes
  ri_PrefSrc :: bytes
  ri_Oif :: u32
  ri_Iif :: u32
  ri_Priority :: u32
  ri_HasPriority :: bool
  ri_Pref :: u8
  ri_HasPref :: bool
  ri_HasMultipath :: bool
  ri_HasVia :: bool
  ri_NhID :: u32
  ri_Mark :: u32
  ri_UID :: u32
  ri_HasUID :: bool
  ri_Multipath :: "RouteNextHop list"
  ri_Via :: "RtVia option"
  ri_Metrics :: "RouteMetrics option"
  ri_CacheInfo :: "RtaCacheinfo option"
  ri_MfcStats :: "RtaMfcStats option"
  ri_Expires :: u64
  ri_HasExpires :: bool

text \<open>The decoders of one attribute return the route and the error; the outer \<open>None\<close> is a panic.\<close>

definition parseRouteNestedAttr :: "RouteInfo \<Rightarrow> u16 \<Rightarrow> bytes \<Rightarrow> (RouteInfo \<times> parse_error option) option" where
  "parseRouteNestedAttr ri atype val =
     (if atype = 9 then
        let ri = ri\<lparr>ri_HasMultipath := True\<rparr>
        in do { (err, nhs) \<leftarrow> WalkRouteNextHops val (ri_Multipath ri); Some (ri\<lparr>ri_Multipath := nhs\<rparr>, err) }
      else if atype = RTA_VIA then
        let ri = ri\<lparr>ri_HasVia := True\<rparr>
        in Some (case DeserializeRtVia val of Inl err \<Rightarrow> (ri, Some err) | Inr v \<Rightarrow> (ri\<lparr>ri_Via := Some v\<rparr>, None))
      else if atype = 8 then do {
        r \<leftarrow> ParseRouteMetrics val;
        Some (case r of Inl err \<Rightarrow> (ri, Some err) | Inr mx \<Rightarrow> (ri\<lparr>ri_Metrics := Some mx\<rparr>, None)) }
      else if atype = 12 then
        Some (case DeserializeRtaCacheinfo val of Inl err \<Rightarrow> (ri, Some err) | Inr ci \<Rightarrow> (ri\<lparr>ri_CacheInfo := Some ci\<rparr>, None))
      else Some (ri, None))"

definition setRouteMcastAttr :: "RouteInfo \<Rightarrow> u16 \<Rightarrow> bytes \<Rightarrow> RouteInfo \<times> parse_error option" where
  "setRouteMcastAttr ri atype val =
     (if atype = 17 then
        (case DeserializeRtaMfcStats val of Inl err \<Rightarrow> (ri, Some err) | Inr st \<Rightarrow> (ri\<lparr>ri_MfcStats := Some st\<rparr>, None))
      else if atype = 23
      then (if 8 \<le> length val then (ri\<lparr>ri_Expires := le_word (take 8 val), ri_HasExpires := True\<rparr>, None) else (ri, None))
      else (ri, None))"

definition setRouteAttr :: "RouteInfo \<Rightarrow> u16 \<Rightarrow> bytes \<Rightarrow> (RouteInfo \<times> parse_error option) option" where
  "setRouteAttr ri atype val =
     (let long = (4 \<le> length val); w = le_word (take 4 val); keep = (\<lambda>r. Some (r, None))
      in if atype = 1 then keep (ri\<lparr>ri_Dst := val\<rparr>)
         else if atype = 2 then keep (ri\<lparr>ri_Src := val\<rparr>)
         else if atype = RTA_GATEWAY then keep (ri\<lparr>ri_Gateway := val\<rparr>)
         else if atype = 7 then keep (ri\<lparr>ri_PrefSrc := val\<rparr>)
         else if atype = 4 then keep (if long then ri\<lparr>ri_Oif := w\<rparr> else ri)
         else if atype = 3 then keep (if long then ri\<lparr>ri_Iif := w\<rparr> else ri)
         else if atype = 6 then keep (if long then ri\<lparr>ri_Priority := w, ri_HasPriority := True\<rparr> else ri)
         else if atype = 20 then keep (if 1 \<le> length val then ri\<lparr>ri_Pref := hd val, ri_HasPref := True\<rparr> else ri)
         else if atype = 15 then keep (if long then ri\<lparr>ri_Table := w\<rparr> else ri)
         else if atype = 9 \<or> atype = RTA_VIA \<or> atype = 8 \<or> atype = 12 then parseRouteNestedAttr ri atype val
         else if atype = 17 \<or> atype = 23 then Some (setRouteMcastAttr ri atype val)
         else if atype = RtaNhID then keep (if long then ri\<lparr>ri_NhID := w\<rparr> else ri)
         else if atype = 16 then keep (if long then ri\<lparr>ri_Mark := w\<rparr> else ri)
         else if atype = 25 then keep (if long then ri\<lparr>ri_UID := w, ri_HasUID := True\<rparr> else ri)
         else keep ri)"

text \<open>The callback of the walk: the first error of a nested attribute is parked.\<close>

definition route_attr ::
  "u16 \<Rightarrow> bytes \<Rightarrow> (RouteInfo \<times> parse_error option) option \<Rightarrow> (RouteInfo \<times> parse_error option) option" where
  "route_attr atype val st = do {
     (ri, nestErr) \<leftarrow> st;
     (ri, aerr) \<leftarrow> setRouteAttr ri atype val;
     Some (ri, if nestErr = None then aerr else nestErr) }"

definition route_init :: "RtMsg \<Rightarrow> RouteInfo" where
  "route_init m = \<lparr>ri_Family = rm_Family m, ri_DstLen = rm_DstLen m, ri_SrcLen = rm_SrcLen m, ri_Tos = rm_Tos m,
     ri_Table = ucast (rm_Table m), ri_Scope = rm_Scope m, ri_Type = rm_Type m, ri_Protocol = rm_Protocol m,
     ri_Flags = rm_Flags m, ri_Dst = [], ri_Src = [], ri_Gateway = [], ri_PrefSrc = [], ri_Oif = 0, ri_Iif = 0,
     ri_Priority = 0, ri_HasPriority = False, ri_Pref = 0, ri_HasPref = False, ri_HasMultipath = False,
     ri_HasVia = False, ri_NhID = 0, ri_Mark = 0, ri_UID = 0, ri_HasUID = False, ri_Multipath = [], ri_Via = None,
     ri_Metrics = None, ri_CacheInfo = None, ri_MfcStats = None, ri_Expires = 0, ri_HasExpires = False\<rparr>"

definition ParseNewRoute :: "bytes \<Rightarrow> (parse_error + RouteInfo) option" where
  "ParseNewRoute body = do {
     hdr \<leftarrow> DeserializeRtMsg body;
     case hdr of
       Inl err \<Rightarrow> Some (Inl err)
     | Inr m \<Rightarrow> do {
         rest \<leftarrow> go_slice_from body RtMsgSizeCst;
         (err, (seen, st)) \<leftarrow> WalkRTAttrs rest (first_wins route_attr) (0, Some (route_init m, None));
         (ri, nestErr) \<leftarrow> st;
         Some (case err of
                 Some e \<Rightarrow> Inl (AttrError e)
               | None \<Rightarrow> (case nestErr of Some e \<Rightarrow> Inl e | None \<Rightarrow> Inr ri)) } }"

section \<open>Walks as folds\<close>

text \<open>A walk presents the same attributes to every callback.\<close>

lemma Walk_fold: "\<exists>e vals. \<forall>fn (s :: 's). WalkRTAttrs data fn s = Some (e, fold (\<lambda>(t, v). fn t v) vals s)"
proof (induction "length data" arbitrary: data rule: less_induct)
  case less
  define l where "l = unat (le_word (take 2 data) :: u16)"
  let ?tv = "(le_word (take 2 (drop 2 data)) AND NlaTypeMaskCst, take (l - 4) (drop 4 data))"
  consider (stop) "length data < 4 \<or> l < 4 \<or> length data < l" | (fin) "4 \<le> l" "l \<le> length data" "length data < l + pad4 l"
    | (next_attr) "4 \<le> l" "l + pad4 l \<le> length data" by linarith
  then show ?case
  proof cases
    case stop
    then have "WalkRTAttrs data fn s = Some (if length data < 4 then None else Some ErrRTAttrSmall, fold (\<lambda>(t, v). fn t v) [] s)"
      for fn and s :: 's
      by (cases "length data < 4") (auto simp: Walk_short Walk_step [OF _ l_def])
    then show ?thesis by blast
  next
    case fin
    then have "WalkRTAttrs data fn s = Some (None, fold (\<lambda>(t, v). fn t v) [?tv] s)" for fn and s :: 's
      by (simp add: Walk_step [OF _ l_def])
    then show ?thesis by blast
  next
    case next_attr
    then have "length (drop (l + pad4 l) data) < length data" by simp
    from less [OF this] obtain e vals
      where ih: "\<And>fn (s :: 's). WalkRTAttrs (drop (l + pad4 l) data) fn s = Some (e, fold (\<lambda>(t, v). fn t v) vals s)" by blast
    have "WalkRTAttrs data fn s = Some (e, fold (\<lambda>(t, v). fn t v) (?tv # vals) s)" for fn and s :: 's
      using next_attr by (simp add: Walk_step [OF _ l_def] ih)
    then show ?thesis by blast
  qed
qed

lemma Walk_total:
  fixes s :: 's
  shows "\<exists>e s'. WalkRTAttrs data fn s = Some (e, s')"
  using Walk_fold [where ?'s = 's, of data] by blast

definition leaves :: "(u16 \<times> bytes) list \<Rightarrow> bytes" where
  "leaves as = enc_forest (map (\<lambda>(t, v). Leaf t v) as)"

definition plain_attrs :: "(u16 \<times> bytes) list \<Rightarrow> bool" where
  "plain_attrs as \<longleftrightarrow> (\<forall>(t, v) \<in> set as. length v \<le> 65531 \<and> t AND NlaTypeMaskCst = t)"

lemma Walk_leaves:
  "plain_attrs as \<Longrightarrow> WalkRTAttrs (leaves as) fn s = Some (None, fold (\<lambda>(t, v). fn t v) as s)"
  by (induction as arbitrary: s) (auto simp: leaves_def plain_attrs_def Walk_short Walk_enc)


section \<open>Fields of a parsed message\<close>

lemma first_wins_eq:
  "first_wins f t v (seen, s) =
     (if t < 64 \<and> bit seen (unat t) then (seen, s)
      else (if t < 64 then seen OR 2 ^ unat t else seen, f t v s))"
  by (simp add: first_wins_def attrSeen_first_eq)

lemma seen_own: "t < 64 \<Longrightarrow> bit (seen OR 2 ^ unat (t :: u16) :: u64) (unat t)"
  by (simp add: bit_or_iff bit_exp_iff word_less_nat_alt)

lemma seen_other: "t' \<noteq> t \<Longrightarrow> bit (seen OR 2 ^ unat (t' :: u16) :: u64) (unat t) = bit seen (unat t)"
  by (auto simp: bit_or_iff bit_exp_iff word_unat_eq_iff)

text \<open>A field of the parsed value that one attribute type sets: under the guard the first such
  attribute sets it.\<close>

locale attr_field =
  fixes f :: "u16 \<Rightarrow> bytes \<Rightarrow> 's \<Rightarrow> 's" and g :: "'s \<Rightarrow> 'v" and t :: u16 and h :: "bytes \<Rightarrow> 'v \<Rightarrow> 'v"
  assumes low: "t < 64" and upd: "g (f t' v s) = (if t' = t then h v (g s) else g s)"
begin

lemma field_seen:
  "bit seen (unat t) \<Longrightarrow> g (snd (fold (\<lambda>(t, v). first_wins f t v) as (seen, s))) = g s"
proof (induction as arbitrary: seen s)
  case (Cons tv as)
  obtain t' v where tv: "tv = (t', v)" by (cases tv)
  show ?case
  proof (cases "t' < 64 \<and> bit seen (unat t')")
    case False
    then have "t' \<noteq> t" using Cons.prems low by auto
    then show ?thesis using Cons False by (simp add: tv first_wins_eq upd seen_other)
  qed (use Cons in \<open>simp add: tv first_wins_eq\<close>)
qed simp

lemma field_first:
  "\<not> bit seen (unat t) \<Longrightarrow>
     g (snd (fold (\<lambda>(t, v). first_wins f t v) as (seen, s))) = (case map_of as t of None \<Rightarrow> g s | Some v \<Rightarrow> h v (g s))"
proof (induction as arbitrary: seen s)
  case (Cons tv as)
  obtain t' v where tv: "tv = (t', v)" by (cases tv)
  show ?case
  proof (cases "t' = t")
    case True
    then show ?thesis using Cons.prems low by (simp add: tv first_wins_eq field_seen upd seen_own)
  next
    case False
    then have "g (f t' v s) = g s" by (simp add: upd)
    with False show ?thesis using Cons by (auto simp: tv first_wins_eq seen_other split: option.split)
  qed
qed simp

end

interpretation addr_Address: attr_field addr_attr ad_Address 1 "\<lambda>v _. v"
  by unfold_locales (auto simp: addr_attr_def split: sum.splits)

interpretation addr_Local: attr_field addr_attr ad_Local 2 "\<lambda>v _. v"
  by unfold_locales (auto simp: addr_attr_def split: sum.splits)

interpretation addr_Flags: attr_field addr_attr ad_Flags 8 "\<lambda>v old. if 4 \<le> length v then le_word (take 4 v) else old"
  by unfold_locales (auto simp: addr_attr_def split: sum.splits)

text \<open>The fields of the header stay.\<close>

definition addr_header :: "AddrInfo \<Rightarrow> u8 \<times> u8 \<times> u8 \<times> u32" where
  "addr_header ai = (ad_Family ai, ad_Prefixlen ai, ad_Scope ai, ad_Index ai)"

lemma addr_attr_header: "addr_header (addr_attr t v ai) = addr_header ai"
  by (auto simp: addr_header_def addr_attr_def split: sum.splits)

lemma first_wins_frame:
  assumes "\<And>t v s. k (f t v s) = k s"
  shows "k (snd (fold (\<lambda>(t, v). first_wins f t v) as (seen, s))) = k s"
proof (induction as arbitrary: seen s)
  case (Cons tv as)
  obtain t v where tv: "tv = (t, v)" by (cases tv)
  obtain b seen' where b: "attrSeen_first t seen = (b, seen')" by (metis surj_pair)
  show ?case using Cons.IH assms by (simp add: tv first_wins_def b)
qed simp

section \<open>No panic\<close>

lemma WalkRouteNextHops_total: "\<exists>e nhs. WalkRouteNextHops data acc = Some (e, nhs)"
proof (induction data acc rule: WalkRouteNextHops.induct)
  case (1 data acc)
  show ?case
  proof (cases "length data < 8")
    case True
    then show ?thesis by (simp add: WalkRouteNextHops.simps RtNextHopSizeCst_def)
  next
    case False
    define h where "h = \<lparr>nx_Len = le_word (take 2 data), nx_Flags = data ! 2, nx_Hops = data ! 3,
      nx_Ifindex = le_word (take 4 (drop 4 data))\<rparr>"
    have hdr: "DeserializeRtNextHop data = Some (Inr h)"
      using False by (simp add: DeserializeRtNextHop_def RtNextHopSizeCst_def slice_simps h_def)
    show ?thesis
    proof (cases "unat (nx_Len h) < 8 \<or> length data < unat (nx_Len h)")
      case True
      then show ?thesis using False hdr by (subst WalkRouteNextHops.simps) (simp add: RtNextHopSizeCst_def)
    next
      case len: False
      let ?inner = "take (unat (nx_Len h) - 8) (drop 8 data)"
      let ?nh0 = "(\<lparr>nh_Flags = nx_Flags h, nh_Hops = nx_Hops h, nh_Ifindex = nx_Ifindex h, nh_Gateway = [], nh_Via = None\<rparr>, None)"
      obtain werr nh viaErr where w: "WalkRTAttrs ?inner nexthop_attr ?nh0 = Some (werr, nh, viaErr)"
        using Walk_total [of ?inner nexthop_attr ?nh0] by auto
      let ?adv = "unat (nx_Len h) + nat (FourByteAlignPadding (int (unat (nx_Len h))))"
      have step: "WalkRouteNextHops data acc = (case werr of
           Some err \<Rightarrow> Some (Some (AttrError err), acc)
         | None \<Rightarrow> (case viaErr of Some err \<Rightarrow> Some (Some err, acc)
             | None \<Rightarrow> if ?adv > length data then Some (None, acc @ [nh]) else WalkRouteNextHops (drop ?adv data) (acc @ [nh])))"
        using False hdr len by (subst WalkRouteNextHops.simps)
          (simp add: RtNextHopSizeCst_def slice_simps go_slice_Some w WalkRTAttrsNested_def Let_def split: option.splits)
      show ?thesis unfolding step using 1 False hdr len w
        by (auto simp: RtNextHopSizeCst_def slice_simps go_slice_Some WalkRTAttrsNested_def split: option.splits)
    qed
  qed
qed


lemma ParseRouteMetrics_total: "\<exists>r. ParseRouteMetrics val = Some r"
proof -
  let ?m = "\<lparr>mx_Present = 0, mx_Values = replicate (RouteMetricMaxCst + 1) 0, mx_CcAlgo = [], mx_Unknown = 0\<rparr>"
  obtain e m where "WalkRTAttrs val metric_attr ?m = Some (e, m)" using Walk_total [of val metric_attr ?m] by blast
  then show ?thesis by (simp add: ParseRouteMetrics_def WalkRTAttrsNested_def)
qed

lemma setRouteAttr_total: "\<exists>ri' e. setRouteAttr ri atype val = Some (ri', e)"
proof -
  obtain e nhs where w: "WalkRouteNextHops val (ri_Multipath ri) = Some (e, nhs)" using WalkRouteNextHops_total by blast
  obtain r where m: "ParseRouteMetrics val = Some r" using ParseRouteMetrics_total by blast
  have "\<exists>q. setRouteAttr ri atype val = Some q"
    by (simp add: setRouteAttr_def parseRouteNestedAttr_def Let_def w m)
  then show ?thesis by auto
qed

lemma route_attr_some:
  assumes "st \<noteq> None"
  shows "snd (fold (\<lambda>(t, v). first_wins route_attr t v) as (seen, st)) \<noteq> None"
  using assms
proof (induction as arbitrary: seen st)
  case (Cons tv as)
  obtain t v where tv: "tv = (t, v)" by (cases tv)
  obtain ri e where st: "st = Some (ri, e)" using Cons.prems by auto
  obtain ri' e' where "setRouteAttr ri t v = Some (ri', e')" using setRouteAttr_total by blast
  then have "route_attr t v st \<noteq> None" by (simp add: route_attr_def st)
  then show ?case using Cons by (simp add: tv first_wins_eq)
qed simp



section \<open>What the decoders read\<close>

lemma route_field:
  assumes "t < 64"
    and "\<And>ri ri' e t' v. setRouteAttr ri t' v = Some (ri', e) \<Longrightarrow> k ri' = (if t' = t then h v (k ri) else k ri)"
  shows "attr_field route_attr (map_option (k \<circ> fst)) t (\<lambda>v. map_option (h v))"
proof
  fix t' v and st :: "(RouteInfo \<times> parse_error option) option"
  show "map_option (k \<circ> fst) (route_attr t' v st)
      = (if t' = t then map_option (h v) (map_option (k \<circ> fst) st) else map_option (k \<circ> fst) st)"
  proof (cases st)
    case (Some re)
    obtain ri' e' where "setRouteAttr (fst re) t' v = Some (ri', e')" using setRouteAttr_total by blast
    then show ?thesis using assms(2) Some by (cases re) (simp add: route_attr_def)
  qed (simp add: route_attr_def)
qed (rule assms(1))

lemmas route_attr_defs = setRouteAttr_def parseRouteNestedAttr_def setRouteMcastAttr_def Let_def RTA_GATEWAY_def RTA_VIA_def RtaNhID_def

text \<open>The value of an attribute as bytes and as a word with a default.\<close>

definition val_of :: "(u16 \<times> bytes) list \<Rightarrow> u16 \<Rightarrow> bytes" where
  "val_of as t = (case map_of as t of None \<Rightarrow> [] | Some v \<Rightarrow> v)"

definition word_of :: "(u16 \<times> bytes) list \<Rightarrow> u16 \<Rightarrow> u32 \<Rightarrow> u32" where
  "word_of as t d = (case map_of as t of None \<Rightarrow> d | Some v \<Rightarrow> if 4 \<le> length v then le_word (take 4 v) else d)"

interpretation route_Dst: attr_field route_attr "map_option (ri_Dst \<circ> fst)" 1 "\<lambda>v. map_option (\<lambda>_. v)"
  by (rule route_field) (auto simp: route_attr_defs split: if_splits sum.splits bind_splits)

interpretation route_Gateway: attr_field route_attr "map_option (ri_Gateway \<circ> fst)" 5 "\<lambda>v. map_option (\<lambda>_. v)"
  by (rule route_field) (auto simp: route_attr_defs split: if_splits sum.splits bind_splits)

interpretation route_Oif: attr_field route_attr "map_option (ri_Oif \<circ> fst)" 4
    "\<lambda>v. map_option (\<lambda>old. if 4 \<le> length v then le_word (take 4 v) else old)"
  by (rule route_field) (auto simp: route_attr_defs split: if_splits sum.splits bind_splits)

interpretation route_Table: attr_field route_attr "map_option (ri_Table \<circ> fst)" 15
    "\<lambda>v. map_option (\<lambda>old. if 4 \<le> length v then le_word (take 4 v) else old)"
  by (rule route_field) (auto simp: route_attr_defs split: if_splits sum.splits bind_splits)

interpretation route_NhID: attr_field route_attr "map_option (ri_NhID \<circ> fst)" 30
    "\<lambda>v. map_option (\<lambda>old. if 4 \<le> length v then le_word (take 4 v) else old)"
  by (rule route_field) (auto simp: route_attr_defs split: if_splits sum.splits bind_splits)

interpretation route_HasMultipath: attr_field route_attr "map_option (ri_HasMultipath \<circ> fst)" 9 "\<lambda>v. map_option (\<lambda>_. True)"
  by (rule route_field) (auto simp: route_attr_defs split: if_splits sum.splits bind_splits)

interpretation route_HasVia: attr_field route_attr "map_option (ri_HasVia \<circ> fst)" 18 "\<lambda>v. map_option (\<lambda>_. True)"
  by (rule route_field) (auto simp: route_attr_defs split: if_splits sum.splits bind_splits)


definition route_header :: "RouteInfo \<Rightarrow> u8 \<times> u8 \<times> u8" where
  "route_header ri = (ri_Family ri, ri_DstLen ri, ri_Type ri)"

lemma route_attr_header: "map_option (route_header \<circ> fst) (route_attr t v st) = map_option (route_header \<circ> fst) st"
proof (cases st)
  case (Some re)
  obtain ri' e' where r: "setRouteAttr (fst re) t v = Some (ri', e')" using setRouteAttr_total by blast
  then have "route_header ri' = route_header (fst re)"
    by (auto simp: route_attr_defs route_header_def split: if_splits sum.splits bind_splits)
  then show ?thesis using r Some by (cases re) (simp add: route_attr_def)
qed (simp add: route_attr_def)

text \<open>C33: a decoded address is what the kernel sent. From a header and any list of attributes, with
  duplicates and in any order: the header's fields; the first local address, or the first peer
  address where there is none, and the other way round, so that neither is empty when either was
  sent; and the first 32-bit flags in place of the 8-bit ones.\<close>

theorem parse_addr_exact:
  assumes "plain_attrs as" and "body = [fam, plen, fl, sc] @ le_bytes 4 (idx :: u32) @ leaves as"
  shows "\<exists>ai. ParseNewAddr body = Some (Inr ai) \<and> addr_header ai = (fam, plen, sc, idx)
    \<and> ad_Local ai = (if val_of as 2 = [] then val_of as 1 else val_of as 2)
    \<and> ad_Address ai = (if val_of as 1 = [] then val_of as 2 else val_of as 1)
    \<and> ad_Flags ai = word_of as 8 (ucast fl)"
proof -
  let ?m = "\<lparr>am_Family = fam, am_Prefixlen = plen, am_Flags = fl, am_Scope = sc, am_Index = idx\<rparr>"
  let ?ai = "snd (fold (\<lambda>(t, v). first_wins addr_attr t v) as (0, addr_init ?m))"
  have hdr: "DeserializeIfAddrmsg body = Some (Inr ?m)"
    unfolding assms(2) by (simp add: DeserializeIfAddrmsg_def IfAddrmsgSizeCst_def slice_simps)
  have "ParseNewAddr body = Some (Inr (addr_alias ?ai))"
    using assms(1) by (simp add: ParseNewAddr_def hdr) (simp add: assms(2) IfAddrmsgSizeCst_def slice_simps Walk_leaves split_beta)
  moreover have "addr_header ?ai = (fam, plen, sc, idx)"
    by (subst first_wins_frame [where k = addr_header, OF addr_attr_header]) (simp add: addr_header_def addr_init_def)
  moreover have "ad_Local ?ai = val_of as 2" "ad_Address ?ai = val_of as 1" "ad_Flags ?ai = word_of as 8 (ucast fl)"
    by (simp_all add: addr_Local.field_first addr_Address.field_first addr_Flags.field_first val_of_def word_of_def addr_init_def
      split: option.split)
  ultimately show ?thesis by (auto simp: addr_alias_def Let_def addr_header_def)
qed

theorem parse_addr_exact_witness:
  "\<exists>ai. ParseNewAddr ([10, 64, 0x80, 253] @ le_bytes 4 (3 :: u32) @ leaves [(8, le_bytes 4 (0x280 :: u32)), (1, replicate 16 7), (1, [9])])
     = Some (Inr ai) \<and> ad_Local ai = replicate 16 7 \<and> ad_Flags ai = 0x280"
proof -
  have "plain_attrs [(8, le_bytes 4 (0x280 :: u32)), (1, replicate 16 7), (1, [9])]"
    by (simp add: plain_attrs_def NlaTypeMaskCst_def)
  from parse_addr_exact [OF this refl, of 10 64 "0x80" 253 3] show ?thesis
    by (auto simp: val_of_def word_of_def)
qed

text \<open>C32: a decoded route is what the kernel sent. Whenever the decoder accepts a header followed by
  any attributes, the fields that decide how a destination is reached are those of the message: the
  first destination, gateway, interface, table (the 32-bit one over the header's) and nexthop id, and
  whether a multipath list or a gateway of another family is there.\<close>

theorem parse_route_exact:
  assumes "plain_attrs as"
    and "body = [fam, dstLen, srcLen, tos, tab, proto, scope, type] @ le_bytes 4 (fl :: u32) @ leaves as"
    and "ParseNewRoute body = Some (Inr ri)"
  shows "route_header ri = (fam, dstLen, type) \<and> ri_Dst ri = val_of as 1 \<and> ri_Gateway ri = val_of as 5
    \<and> ri_Oif ri = word_of as 4 0 \<and> ri_Table ri = word_of as 15 (ucast tab) \<and> ri_NhID ri = word_of as 30 0
    \<and> (ri_HasMultipath ri \<longleftrightarrow> map_of as 9 \<noteq> None) \<and> (ri_HasVia ri \<longleftrightarrow> map_of as 18 \<noteq> None)"
proof -
  let ?m = "\<lparr>rm_Family = fam, rm_DstLen = dstLen, rm_SrcLen = srcLen, rm_Tos = tos, rm_Table = tab, rm_Protocol = proto,
    rm_Scope = scope, rm_Type = type, rm_Flags = fl\<rparr>"
  let ?s = "Some (route_init ?m, None) :: (RouteInfo \<times> parse_error option) option"
  define st where "st = snd (fold (\<lambda>(t, v). first_wins route_attr t v) as (0, ?s))"
  have hdr: "DeserializeRtMsg body = Some (Inr ?m)"
    unfolding assms(2) by (simp add: DeserializeRtMsg_def RtMsgSizeCst_def slice_simps)
  have "map_option fst st = Some ri"
    using assms(3) assms(1) by (simp add: ParseNewRoute_def hdr)
      (auto simp: assms(2) RtMsgSizeCst_def slice_simps Walk_leaves split_beta st_def split: bind_splits option.splits)
  then obtain e where st: "st = Some (ri, e)" by (cases st) auto
  note fold0 = st_def [symmetric]
  have "map_option (route_header \<circ> fst) st = map_option (route_header \<circ> fst) ?s"
    unfolding st_def by (rule first_wins_frame [where k = "map_option (route_header \<circ> fst)", OF route_attr_header])
  moreover have "map_option (ri_Dst \<circ> fst) st = Some (val_of as 1)" "map_option (ri_Gateway \<circ> fst) st = Some (val_of as 5)"
    "map_option (ri_Oif \<circ> fst) st = Some (word_of as 4 0)" "map_option (ri_Table \<circ> fst) st = Some (word_of as 15 (ucast tab))"
    "map_option (ri_NhID \<circ> fst) st = Some (word_of as 30 0)" "map_option (ri_HasMultipath \<circ> fst) st = Some (map_of as 9 \<noteq> None)"
    "map_option (ri_HasVia \<circ> fst) st = Some (map_of as 18 \<noteq> None)"
    unfolding st_def
    by (simp_all add: route_Dst.field_first route_Gateway.field_first route_Oif.field_first route_Table.field_first
      route_NhID.field_first route_HasMultipath.field_first route_HasVia.field_first val_of_def word_of_def route_init_def
      split: option.split)
  ultimately show ?thesis by (simp add: st route_header_def route_init_def)
qed

theorem parse_route_exact_witness:
  "\<exists>ri. ParseNewRoute ([2, 24, 0, 0, 254, 2, 253, 1] @ le_bytes 4 (0 :: u32) @ leaves [(1, [10, 0, 0, 0]), (4, le_bytes 4 (3 :: u32))])
     = Some (Inr ri) \<and> ri_Dst ri = [10, 0, 0, 0] \<and> ri_Oif ri = 3 \<and> ri_Table ri = 254 \<and> \<not> ri_HasMultipath ri"
proof -
  have ok: "plain_attrs [(1, [10, 0, 0, 0]), (4, le_bytes 4 (3 :: u32))]" by (simp add: plain_attrs_def NlaTypeMaskCst_def)
  let ?body = "[2, 24, 0, 0, 254, 2, 253, 1] @ le_bytes 4 (0 :: u32) @ leaves [(1, [10, 0, 0, 0]), (4, le_bytes 4 (3 :: u32))]"
  have "map_option isl (ParseNewRoute ?body) = Some False" by code_simp
  then obtain r where r: "ParseNewRoute ?body = Some r" "\<not> isl r" by auto
  then obtain ri where ri: "ParseNewRoute ?body = Some (Inr ri)" by (cases r) auto
  from parse_route_exact [OF ok refl ri] ri show ?thesis by (auto simp: val_of_def word_of_def)
qed

end
