(* ===== verification/Locality.thy ===== *)
theory Locality
  imports Rtnl_Route Enrich
begin

text \<open>
  Classification of a destination against one namespace's addresses and routes
  (\<open>pkg/localnet/localnet.go\<close>). The longest-prefix table (\<open>gaissmai/bart\<close>) is a parameter; what
  it promises is \<open>bart_laws\<close>. Addresses and prefixes are those of \<open>net/netip\<close>; an invalid address
  is \<open>None\<close>.
\<close>

section \<open>Addresses and prefixes\<close>

primrec addr_bytes :: "Addr \<Rightarrow> bytes" where
  "addr_bytes (Addr4 b) = b"
| "addr_bytes (Addr16 b) = b"

primrec Is4 :: "Addr \<Rightarrow> bool" where
  "Is4 (Addr4 b) = True"
| "Is4 (Addr16 b) = False"

definition BitLen :: "Addr \<Rightarrow> nat" where
  "BitLen a = (if Is4 a then 32 else 128)"

definition IsUnspecified :: "Addr \<Rightarrow> bool" where
  "IsUnspecified a \<longleftrightarrow> (\<forall>x \<in> set (addr_bytes a). x = 0)"

definition IsLoopback :: "Addr \<Rightarrow> bool" where
  "IsLoopback a = (if Is4 a then hd (addr_bytes a) = 127 else addr_bytes a = replicate 15 0 @ [1])"

type_synonym Prefix = "Addr \<times> nat"

text \<open>The first \<open>n\<close> bits of a byte string, zero after them.\<close>

fun mask_bytes :: "nat \<Rightarrow> bytes \<Rightarrow> bytes" where
  "mask_bytes n [] = []"
| "mask_bytes n (b # bs) =
     (if 8 \<le> n then b # mask_bytes (n - 8) bs else (b AND NOT (mask (8 - n))) # replicate (length bs) 0)"

definition same_family :: "Addr \<Rightarrow> bytes \<Rightarrow> Addr" where
  "same_family a b = (if Is4 a then Addr4 b else Addr16 b)"

definition Masked :: "Prefix \<Rightarrow> Prefix" where
  "Masked p = (same_family (fst p) (mask_bytes (snd p) (addr_bytes (fst p))), snd p)"

definition Prefix_Contains :: "Prefix \<Rightarrow> Addr \<Rightarrow> bool" where
  "Prefix_Contains p a \<longleftrightarrow>
     Is4 (fst p) = Is4 a \<and> mask_bytes (snd p) (addr_bytes (fst p)) = mask_bytes (snd p) (addr_bytes a)"

definition addr_wf :: "Addr \<Rightarrow> bool" where
  "addr_wf a \<longleftrightarrow> 8 * length (addr_bytes a) = BitLen a"

definition canonical :: "Prefix \<Rightarrow> bool" where
  "canonical p \<longleftrightarrow> addr_wf (fst p) \<and> snd p \<le> BitLen (fst p) \<and> Masked p = p"

section \<open>The prefix table\<close>

datatype net_Locality = LocalityUnspecified | LocalitySelf | LocalitySubnet | LocalityRemote

record routeEntry =
  re_loc :: net_Locality
  re_oif :: u32

record 't bart =
  bt_new :: 't
  bt_Insert :: "Prefix \<Rightarrow> routeEntry \<Rightarrow> 't \<Rightarrow> 't"
  bt_Get :: "Prefix \<Rightarrow> 't \<Rightarrow> routeEntry option"
  bt_Lookup :: "Addr \<Rightarrow> 't \<Rightarrow> routeEntry option"

text \<open>An entry is what was inserted last under its prefix, and a lookup returns the entry of a
  longest prefix that contains the address.\<close>

definition bart_laws :: "'t bart \<Rightarrow> bool" where
  "bart_laws bt \<longleftrightarrow>
     (\<forall>p. bt_Get bt p (bt_new bt) = None)
   \<and> (\<forall>t p q e. canonical p \<longrightarrow> canonical q \<longrightarrow> bt_Get bt q (bt_Insert bt p e t) = (if q = p then Some e else bt_Get bt q t))
   \<and> (\<forall>t a. addr_wf a \<longrightarrow>
        (case bt_Lookup bt a t of
           None \<Rightarrow> \<forall>p. canonical p \<and> Prefix_Contains p a \<longrightarrow> bt_Get bt p t = None
         | Some e \<Rightarrow> \<exists>p. canonical p \<and> Prefix_Contains p a \<and> bt_Get bt p t = Some e
             \<and> (\<forall>q. canonical q \<and> Prefix_Contains q a \<and> bt_Get bt q t \<noteq> None \<longrightarrow> snd q \<le> snd p)))"

section \<open>Snapshots\<close>

record 't Snapshot =
  sn_tbl :: "'t option"
  sn_ifnames :: "u32 \<rightharpoonup> string"
  sn_nonLoopbackSelf :: bool

definition HasNonLoopbackSelf :: "'t Snapshot option \<Rightarrow> bool" where
  "HasNonLoopbackSelf s = (case s of None \<Rightarrow> False | Some s \<Rightarrow> sn_nonLoopbackSelf s)"

definition Lookup :: "'t bart \<Rightarrow> 't Snapshot option \<Rightarrow> Addr option \<Rightarrow> net_Locality \<times> u32 \<times> bool" where
  "Lookup bt s addr =
     (case map_option Unmap addr of
        None \<Rightarrow> (LocalityUnspecified, 0, False)
      | Some a \<Rightarrow>
          if IsUnspecified a then (LocalityUnspecified, 0, True)
          else
            let loopback = IsLoopback a;
                found = (case s of None \<Rightarrow> None | Some s \<Rightarrow> (case sn_tbl s of None \<Rightarrow> None | Some t \<Rightarrow> bt_Lookup bt a t))
            in case found of
                 Some e \<Rightarrow>
                   if loopback
                   then (if re_loc e \<noteq> LocalitySelf then (LocalitySelf, 0, True) else (LocalitySelf, re_oif e, True))
                   else (re_loc e, re_oif e, True)
               | None \<Rightarrow> if loopback then (LocalitySelf, 0, True) else (LocalityRemote, 0, True))"

definition Classify :: "'t bart \<Rightarrow> 't Snapshot option \<Rightarrow> Addr option \<Rightarrow> net_Locality" where
  "Classify bt s addr = fst (Lookup bt s addr)"

definition IfName :: "'t Snapshot option \<Rightarrow> u32 \<Rightarrow> string" where
  "IfName s idx =
     (case s of
        None \<Rightarrow> []
      | Some s \<Rightarrow> if idx = 0 then [] else (case sn_ifnames s idx of None \<Rightarrow> [] | Some n \<Rightarrow> n))"

record Resolution =
  rs_Locality :: net_Locality
  rs_EgressIfindex :: u32
  rs_EgressIfname :: string
  rs_BoundIfname :: string
  rs_Remote :: bool

definition Resolve :: "'t bart \<Rightarrow> 't Snapshot option \<Rightarrow> Addr option \<Rightarrow> u32 \<Rightarrow> Resolution" where
  "Resolve bt s dst boundIfindex =
     (case Lookup bt s dst of (loc, egressIf, _) \<Rightarrow>
        \<lparr>rs_Locality = loc, rs_EgressIfindex = egressIf, rs_EgressIfname = IfName s egressIf,
         rs_BoundIfname = IfName s boundIfindex, rs_Remote = (loc = LocalityRemote)\<rparr>)"

section \<open>Building a snapshot\<close>

definition addrFromBytes :: "bytes \<Rightarrow> Addr option" where
  "addrFromBytes b =
     (if length b = 4 then Some (Unmap (Addr4 b)) else if length b = 16 then Some (Unmap (Addr16 b)) else None)"

definition hostPrefix :: "Addr \<Rightarrow> Prefix" where
  "hostPrefix a = (a, BitLen a)"

definition prefixFromBytes :: "bytes \<Rightarrow> u8 \<Rightarrow> Prefix option" where
  "prefixFromBytes b bits =
     (case addrFromBytes b of
        None \<Rightarrow> None
      | Some a \<Rightarrow> if unat bits > BitLen a then None else Some (Masked (a, unat bits)))"

definition defaultPrefix :: "u8 \<Rightarrow> Prefix option" where
  "defaultPrefix family =
     (if family = 2 then Some (Addr4 (replicate 4 0), 0)
      else if family = 10 then Some (Addr16 (replicate 16 0), 0)
      else None)"

definition isLoopbackPrefix :: "Prefix \<Rightarrow> bool" where
  "isLoopbackPrefix p =
     (if \<not> IsLoopback (fst p) then False else if Is4 (fst p) then snd p \<ge> 8 else snd p = 128)"

definition inClassifiedTable :: "u32 \<Rightarrow> bool" where
  "inClassifiedTable table \<longleftrightarrow> table = 254 \<or> table = 255"

definition gatewayReached :: "RouteInfo \<Rightarrow> bool" where
  "gatewayReached ri \<longleftrightarrow> length (ri_Gateway ri) > 0 \<or> ri_HasVia ri \<or> ri_HasMultipath ri \<or> ri_NhID ri \<noteq> 0"

definition routePrefix :: "RouteInfo \<Rightarrow> Prefix option" where
  "routePrefix ri =
     (if length (ri_Dst ri) > 0 then prefixFromBytes (ri_Dst ri) (ri_DstLen ri)
      else if ri_DstLen ri = 0 then defaultPrefix (ri_Family ri)
      else None)"

definition insertRoute :: "'t bart \<Rightarrow> Prefix \<Rightarrow> routeEntry \<Rightarrow> 't \<Rightarrow> 't" where
  "insertRoute bt pfx e tbl =
     (case bt_Get bt pfx tbl of
        Some cur \<Rightarrow> if re_loc cur = LocalitySelf then tbl else bt_Insert bt pfx e tbl
      | None \<Rightarrow> bt_Insert bt pfx e tbl)"

definition RTN_UNICAST :: u8 where
  "RTN_UNICAST = 1"

definition RTN_LOCAL :: u8 where
  "RTN_LOCAL = 2"

text \<open>The bodies of the two loops, over the table and the flag of a self address outside loopback.\<close>

definition build_addr :: "'t bart \<Rightarrow> AddrInfo \<Rightarrow> 't \<times> bool \<Rightarrow> 't \<times> bool" where
  "build_addr bt ai st =
     (case st of (tbl, nonLoopbackSelf) \<Rightarrow>
        let raw = (if ad_Local ai = [] then ad_Address ai else ad_Local ai)
        in case addrFromBytes raw of
             None \<Rightarrow> st
           | Some a \<Rightarrow>
               (bt_Insert bt (hostPrefix a) \<lparr>re_loc = LocalitySelf, re_oif = ad_Index ai\<rparr> tbl,
                if \<not> IsLoopback a then True else nonLoopbackSelf))"

definition build_route :: "'t bart \<Rightarrow> RouteInfo \<Rightarrow> 't \<times> bool \<Rightarrow> 't \<times> bool" where
  "build_route bt ri st =
     (case st of (tbl, nonLoopbackSelf) \<Rightarrow>
        if \<not> inClassifiedTable (ri_Table ri) then st
        else if ri_Type ri = RTN_LOCAL then
          (case prefixFromBytes (ri_Dst ri) (ri_DstLen ri) of
             None \<Rightarrow> st
           | Some pfx \<Rightarrow>
               (bt_Insert bt pfx \<lparr>re_loc = LocalitySelf, re_oif = ri_Oif ri\<rparr> tbl,
                if \<not> isLoopbackPrefix pfx then True else nonLoopbackSelf))
        else if ri_Type ri = RTN_UNICAST then
          (case routePrefix ri of
             None \<Rightarrow> st
           | Some pfx \<Rightarrow>
               if gatewayReached ri then
                 let oif = (if ri_HasMultipath ri \<or> ri_NhID ri \<noteq> 0 then 0 else ri_Oif ri)
                 in (insertRoute bt pfx \<lparr>re_loc = LocalityRemote, re_oif = oif\<rparr> tbl, nonLoopbackSelf)
               else if snd pfx = 0 then (insertRoute bt pfx \<lparr>re_loc = LocalityRemote, re_oif = ri_Oif ri\<rparr> tbl, nonLoopbackSelf)
               else (insertRoute bt pfx \<lparr>re_loc = LocalitySubnet, re_oif = ri_Oif ri\<rparr> tbl, nonLoopbackSelf))
        else st)"

definition BuildSnapshot ::
  "'t bart \<Rightarrow> AddrInfo list \<Rightarrow> RouteInfo list \<Rightarrow> (u32 \<rightharpoonup> string) \<Rightarrow> 't Snapshot" where
  "BuildSnapshot bt addrs routes links =
     (case fold (build_route bt) routes (fold (build_addr bt) addrs (bt_new bt, False)) of
        (tbl, nonLoopbackSelf) \<Rightarrow> \<lparr>sn_tbl = Some tbl, sn_ifnames = links, sn_nonLoopbackSelf = nonLoopbackSelf\<rparr>)"

section \<open>What a route or an address contributes\<close>

definition self_of_addr :: "AddrInfo \<Rightarrow> (Prefix \<times> u32) option" where
  "self_of_addr ai =
     map_option (\<lambda>a. (hostPrefix a, ad_Index ai)) (addrFromBytes (if ad_Local ai = [] then ad_Address ai else ad_Local ai))"

definition self_of_route :: "RouteInfo \<Rightarrow> (Prefix \<times> u32) option" where
  "self_of_route ri =
     (if inClassifiedTable (ri_Table ri) \<and> ri_Type ri = RTN_LOCAL
      then map_option (\<lambda>p. (p, ri_Oif ri)) (prefixFromBytes (ri_Dst ri) (ri_DstLen ri)) else None)"

definition class_of_route :: "RouteInfo \<Rightarrow> (Prefix \<times> routeEntry) option" where
  "class_of_route ri =
     (if inClassifiedTable (ri_Table ri) \<and> ri_Type ri = RTN_UNICAST
      then map_option (\<lambda>p. (p,
        if gatewayReached ri then \<lparr>re_loc = LocalityRemote, re_oif = (if ri_HasMultipath ri \<or> ri_NhID ri \<noteq> 0 then 0 else ri_Oif ri)\<rparr>
        else \<lparr>re_loc = (if snd p = 0 then LocalityRemote else LocalitySubnet), re_oif = ri_Oif ri\<rparr>)) (routePrefix ri)
      else None)"

text \<open>The entry of a prefix: the last self entry if there is one, whatever came after it, and
  otherwise the last route.\<close>

definition selfs :: "AddrInfo list \<Rightarrow> RouteInfo list \<Rightarrow> (Prefix \<times> u32) list" where
  "selfs addrs routes = List.map_filter self_of_addr addrs @ List.map_filter self_of_route routes"

definition final_entry :: "AddrInfo list \<Rightarrow> RouteInfo list \<Rightarrow> Prefix \<Rightarrow> routeEntry option" where
  "final_entry addrs routes p =
     (case map_of (rev (selfs addrs routes)) p of
        Some oif \<Rightarrow> Some \<lparr>re_loc = LocalitySelf, re_oif = oif\<rparr>
      | None \<Rightarrow> map_of (rev (List.map_filter class_of_route routes)) p)"

text \<open>The three reasons for a class, as the comments of \<open>BuildSnapshot\<close> give them.\<close>

definition own_address :: "AddrInfo list \<Rightarrow> Addr \<Rightarrow> bool" where
  "own_address addrs a \<longleftrightarrow> (\<exists>ai \<in> set addrs. addrFromBytes (if ad_Local ai = [] then ad_Address ai else ad_Local ai) = Some a)"

definition local_route_covers :: "RouteInfo list \<Rightarrow> Addr \<Rightarrow> bool" where
  "local_route_covers routes a \<longleftrightarrow>
     (\<exists>ri \<in> set routes. inClassifiedTable (ri_Table ri) \<and> ri_Type ri = RTN_LOCAL
        \<and> (case prefixFromBytes (ri_Dst ri) (ri_DstLen ri) of None \<Rightarrow> False | Some p \<Rightarrow> Prefix_Contains p a))"

definition connected_route_covers :: "RouteInfo list \<Rightarrow> Addr \<Rightarrow> bool" where
  "connected_route_covers routes a \<longleftrightarrow>
     (\<exists>ri \<in> set routes. inClassifiedTable (ri_Table ri) \<and> ri_Type ri = RTN_UNICAST \<and> \<not> gatewayReached ri
        \<and> (case routePrefix ri of None \<Rightarrow> False | Some p \<Rightarrow> 0 < snd p \<and> Prefix_Contains p a))"

section \<open>Prefixes are canonical\<close>

lemma length_mask_bytes [simp]: "length (mask_bytes n b) = length b"
  by (induction n b rule: mask_bytes.induct) simp_all

lemma mask_bytes_idem [simp]: "mask_bytes n (mask_bytes n b) = mask_bytes n b"
  by (induction n b rule: mask_bytes.induct) (simp_all add: and.assoc)

lemma mask_bytes_full: "8 * length b \<le> n \<Longrightarrow> mask_bytes n b = b"
  by (induction n b rule: mask_bytes.induct) auto

lemma mask_bytes_zero: "mask_bytes 0 (replicate k 0) = replicate k 0"
  by (cases k) simp_all

lemma same_family_simps [simp]:
  "addr_bytes (same_family a b) = b" "Is4 (same_family a b) = Is4 a" "BitLen (same_family a b) = BitLen a"
  "same_family a (addr_bytes a) = a" "same_family (same_family a b) c = same_family a c"
  by (cases a; simp add: same_family_def BitLen_def)+

lemma canonical_Masked: "addr_wf a \<Longrightarrow> n \<le> BitLen a \<Longrightarrow> canonical (Masked (a, n))"
  by (simp add: canonical_def Masked_def addr_wf_def)

lemma canonical_host: "addr_wf a \<Longrightarrow> canonical (hostPrefix a)"
  by (simp add: canonical_def Masked_def hostPrefix_def addr_wf_def mask_bytes_full)

lemma canonical_default: "defaultPrefix f = Some p \<Longrightarrow> canonical p"
  by (auto simp: defaultPrefix_def canonical_def Masked_def addr_wf_def BitLen_def mask_bytes_zero same_family_def split: if_splits)

lemma addrFromBytes_wf: "addrFromBytes b = Some a \<Longrightarrow> addr_wf a \<and> Unmap a = a"
  by (auto simp: addrFromBytes_def addr_wf_def BitLen_def split: if_splits)

lemma canonical_fromBytes: "prefixFromBytes b n = Some p \<Longrightarrow> canonical p"
  using addrFromBytes_wf by (auto simp: prefixFromBytes_def canonical_Masked split: option.splits if_splits)

lemma canonical_entries:
  "self_of_addr ai = Some (p, oif) \<Longrightarrow> canonical p" "self_of_route ri = Some (p, oif) \<Longrightarrow> canonical p"
  "class_of_route ri = Some (p, e) \<Longrightarrow> canonical p"
  using addrFromBytes_wf canonical_host canonical_fromBytes canonical_default
  by (auto simp: self_of_addr_def self_of_route_def class_of_route_def routePrefix_def split: if_splits)

lemma host_contains: "addr_wf a \<Longrightarrow> addr_wf x \<Longrightarrow> Prefix_Contains (hostPrefix a) x \<longleftrightarrow> x = a"
  by (cases a; cases x) (auto simp: Prefix_Contains_def hostPrefix_def addr_wf_def BitLen_def mask_bytes_full)

lemma canonical_len: "canonical p \<Longrightarrow> Prefix_Contains p a \<Longrightarrow> snd p \<le> BitLen a"
  by (simp add: canonical_def Prefix_Contains_def BitLen_def)

section \<open>The table of a snapshot\<close>

lemma build_addr_entry:
  "build_addr bt ai (tbl, n) =
     (case self_of_addr ai of
        None \<Rightarrow> (tbl, n)
      | Some (p, oif) \<Rightarrow> (bt_Insert bt p \<lparr>re_loc = LocalitySelf, re_oif = oif\<rparr> tbl, if \<not> IsLoopback (fst p) then True else n))"
  by (simp add: build_addr_def self_of_addr_def Let_def hostPrefix_def split: option.split)

lemma build_route_entry:
  "build_route bt ri (tbl, n) =
     (case self_of_route ri of
        Some (p, oif) \<Rightarrow> (bt_Insert bt p \<lparr>re_loc = LocalitySelf, re_oif = oif\<rparr> tbl, if \<not> isLoopbackPrefix p then True else n)
      | None \<Rightarrow> (case class_of_route ri of None \<Rightarrow> (tbl, n) | Some (p, e) \<Rightarrow> (insertRoute bt p e tbl, n)))"
  by (simp add: build_route_def self_of_route_def class_of_route_def Let_def RTN_LOCAL_def RTN_UNICAST_def split: option.split)

lemma class_not_self: "class_of_route ri = Some (p, e) \<Longrightarrow> re_loc e \<noteq> LocalitySelf \<and> self_of_route ri = None"
  by (auto simp: class_of_route_def self_of_route_def RTN_LOCAL_def RTN_UNICAST_def split: if_splits)

definition tbl_ok :: "'t bart \<Rightarrow> (Prefix \<times> u32) list \<Rightarrow> (Prefix \<times> routeEntry) list \<Rightarrow> 't \<Rightarrow> bool" where
  "tbl_ok bt S R t \<longleftrightarrow> (\<forall>p. canonical p \<longrightarrow> bt_Get bt p t =
     (case map_of (rev S) p of Some oif \<Rightarrow> Some \<lparr>re_loc = LocalitySelf, re_oif = oif\<rparr> | None \<Rightarrow> map_of (rev R) p))"

lemma tbl_okD:
  "tbl_ok bt S R t \<Longrightarrow> canonical p \<Longrightarrow> bt_Get bt p t =
     (case map_of (rev S) p of Some oif \<Rightarrow> Some \<lparr>re_loc = LocalitySelf, re_oif = oif\<rparr> | None \<Rightarrow> map_of (rev R) p)"
  unfolding tbl_ok_def by blast

lemma bart_insert:
  "bart_laws bt \<Longrightarrow> canonical p \<Longrightarrow> canonical q \<Longrightarrow> bt_Get bt q (bt_Insert bt p e t) = (if q = p then Some e else bt_Get bt q t)"
  unfolding bart_laws_def by blast

lemma tbl_ok_self:
  assumes "bart_laws bt" "tbl_ok bt S R t" "canonical p"
  shows "tbl_ok bt (S @ [(p, oif)]) R (bt_Insert bt p \<lparr>re_loc = LocalitySelf, re_oif = oif\<rparr> t)"
  using assms by (simp add: tbl_ok_def bart_insert)

lemma tbl_ok_route:
  assumes "bart_laws bt" "tbl_ok bt S R t" "canonical p" "re_loc e \<noteq> LocalitySelf" "\<forall>(q, e) \<in> set R. re_loc e \<noteq> LocalitySelf"
  shows "tbl_ok bt S (R @ [(p, e)]) (insertRoute bt p e t)"
proof (cases "map_of (rev S) p")
  case None
  then have "bt_Get bt p t = map_of (rev R) p" using tbl_okD [OF assms(2,3)] by simp
  moreover have "map_of (rev R) p = Some cur \<Longrightarrow> re_loc cur \<noteq> LocalitySelf" for cur
    using assms(5) map_of_SomeD by fastforce
  ultimately have "insertRoute bt p e t = bt_Insert bt p e t" by (auto simp: insertRoute_def split: option.split)
  then show ?thesis using assms None by (auto simp: tbl_ok_def bart_insert split: option.split)
next
  case (Some oif)
  then have "insertRoute bt p e t = t" using tbl_okD [OF assms(2,3)] by (simp add: insertRoute_def)
  then show ?thesis using assms(2) Some by (auto simp: tbl_ok_def split: option.split)
qed

lemma tbl_ok_addrs:
  assumes "bart_laws bt" "tbl_ok bt S R t"
  shows "tbl_ok bt (S @ List.map_filter self_of_addr addrs) R (fst (fold (build_addr bt) addrs (t, n)))"
  using assms(2)
proof (induction addrs arbitrary: S t n)
  case (Cons ai addrs)
  show ?case
  proof (cases "self_of_addr ai")
    case (Some po)
    obtain p oif where po: "po = (p, oif)" by (cases po)
    then have "canonical p" using Some canonical_entries(1) by blast
    from Cons.IH [OF tbl_ok_self [OF assms(1) Cons.prems this]] show ?thesis
      using Some by (simp add: build_addr_entry po List.map_filter_simps)
  qed (use Cons in \<open>simp add: build_addr_entry List.map_filter_simps\<close>)
qed (simp add: List.map_filter_simps)

lemma tbl_ok_routes:
  assumes "bart_laws bt" "tbl_ok bt S R t" "\<forall>(q, e) \<in> set R. re_loc e \<noteq> LocalitySelf"
  shows "tbl_ok bt (S @ List.map_filter self_of_route routes) (R @ List.map_filter class_of_route routes)
    (fst (fold (build_route bt) routes (t, n)))"
  using assms(2,3)
proof (induction routes arbitrary: S R t n)
  case (Cons ri routes)
  consider (self) p oif where "self_of_route ri = Some (p, oif)" "class_of_route ri = None"
    | (route) p e where "self_of_route ri = None" "class_of_route ri = Some (p, e)" "re_loc e \<noteq> LocalitySelf"
    | (none) "self_of_route ri = None" "class_of_route ri = None"
    using class_not_self by (metis option.exhaust surj_pair)
  then show ?case
  proof cases
    case self
    from Cons.IH [OF tbl_ok_self [OF assms(1) Cons.prems(1) canonical_entries(2) [OF self(1)]] Cons.prems(2)] show ?thesis
      using self by (simp add: build_route_entry List.map_filter_simps)
  next
    case route
    from Cons.IH [OF tbl_ok_route [OF assms(1) Cons.prems(1) canonical_entries(3) [OF route(2)] route(3) Cons.prems(2)]] show ?thesis
      using route Cons.prems(2) by (simp add: build_route_entry List.map_filter_simps)
  qed (use Cons in \<open>simp add: build_route_entry List.map_filter_simps\<close>)
qed (simp add: List.map_filter_simps)

lemma snapshot_table:
  assumes "bart_laws bt"
  obtains t where "sn_tbl (BuildSnapshot bt addrs routes links) = Some t"
    "\<And>p. canonical p \<Longrightarrow> bt_Get bt p t = final_entry addrs routes p"
proof -
  define st where "st = fold (build_addr bt) addrs (bt_new bt, False)"
  define t where "t = fst (fold (build_route bt) routes st)"
  have "tbl_ok bt [] [] (bt_new bt)" using assms by (simp add: tbl_ok_def bart_laws_def)
  from tbl_ok_addrs [OF assms(1) this, of addrs False] have "tbl_ok bt (List.map_filter self_of_addr addrs) [] (fst st)"
    by (simp add: st_def)
  from tbl_ok_routes [OF assms(1) this, of routes "snd st"] have "tbl_ok bt (selfs addrs routes) (List.map_filter class_of_route routes) t"
    by (simp add: t_def selfs_def)
  then have "canonical p \<Longrightarrow> bt_Get bt p t = final_entry addrs routes p" for p
    unfolding final_entry_def by (rule tbl_okD)
  moreover have "sn_tbl (BuildSnapshot bt addrs routes links) = Some t"
    by (simp add: BuildSnapshot_def t_def st_def split_beta)
  ultimately show ?thesis using that by blast
qed

section \<open>What the classification says\<close>

lemma lookup_cases:
  assumes "bart_laws bt" "addr_wf a" "Unmap a = a" "\<not> IsUnspecified a" "\<not> IsLoopback a"
  obtains (found) p e where "canonical p" "Prefix_Contains p a" "final_entry addrs routes p = Some e"
      "\<And>q. canonical q \<Longrightarrow> Prefix_Contains q a \<Longrightarrow> final_entry addrs routes q \<noteq> None \<Longrightarrow> snd q \<le> snd p"
      "Lookup bt (Some (BuildSnapshot bt addrs routes links)) (Some a) = (re_loc e, re_oif e, True)"
    | (none) "\<And>q. canonical q \<Longrightarrow> Prefix_Contains q a \<Longrightarrow> final_entry addrs routes q = None"
      "Lookup bt (Some (BuildSnapshot bt addrs routes links)) (Some a) = (LocalityRemote, 0, True)"
proof -
  obtain t where t: "sn_tbl (BuildSnapshot bt addrs routes links) = Some t"
    "\<And>p. canonical p \<Longrightarrow> bt_Get bt p t = final_entry addrs routes p" using snapshot_table [OF assms(1)] by blast
  have laws: "case bt_Lookup bt a t of
      None \<Rightarrow> \<forall>p. canonical p \<and> Prefix_Contains p a \<longrightarrow> bt_Get bt p t = None
    | Some e \<Rightarrow> \<exists>p. canonical p \<and> Prefix_Contains p a \<and> bt_Get bt p t = Some e
        \<and> (\<forall>q. canonical q \<and> Prefix_Contains q a \<and> bt_Get bt q t \<noteq> None \<longrightarrow> snd q \<le> snd p)"
    using assms(1,2) unfolding bart_laws_def by blast
  show ?thesis
  proof (cases "bt_Lookup bt a t")
    case None
    then have "\<forall>p. canonical p \<and> Prefix_Contains p a \<longrightarrow> bt_Get bt p t = None" using laws by simp
    then have "canonical q \<Longrightarrow> Prefix_Contains q a \<Longrightarrow> final_entry addrs routes q = None" for q using t(2) by metis
    then show ?thesis using none None assms(3-5) t(1) by (simp add: Lookup_def)
  next
    case (Some e)
    then have "\<exists>p. canonical p \<and> Prefix_Contains p a \<and> bt_Get bt p t = Some e
        \<and> (\<forall>q. canonical q \<and> Prefix_Contains q a \<and> bt_Get bt q t \<noteq> None \<longrightarrow> snd q \<le> snd p)" using laws by (simp only: option.case)
    then obtain p where p: "canonical p" "Prefix_Contains p a" "bt_Get bt p t = Some e"
      "\<forall>q. canonical q \<and> Prefix_Contains q a \<and> bt_Get bt q t \<noteq> None \<longrightarrow> snd q \<le> snd p" by blast
    have "Lookup bt (Some (BuildSnapshot bt addrs routes links)) (Some a) = (re_loc e, re_oif e, True)"
      using Some assms(3-5) t(1) by (simp add: Lookup_def)
    moreover have "snd q \<le> snd p" if "canonical q" "Prefix_Contains q a" "final_entry addrs routes q \<noteq> None" for q
      using p(4) [rule_format, of q] t(2) [OF that(1)] that by simp
    ultimately show ?thesis using found [of p e] p t(2) [OF p(1)] by simp
  qed
qed

lemma host_is_longest:
  assumes "canonical p" "Prefix_Contains p a" "addr_wf a" "BitLen a \<le> snd p"
  shows "p = hostPrefix a"
proof -
  obtain b n where p: "p = (b, n)" by (cases p)
  then have "n = BitLen a" "Is4 b = Is4 a" using assms by (auto simp: canonical_def Prefix_Contains_def BitLen_def)
  moreover have "addr_bytes b = addr_bytes a"
    using assms p calculation by (auto simp: canonical_def Prefix_Contains_def addr_wf_def BitLen_def mask_bytes_full)
  ultimately show ?thesis using p by (cases a; cases b) (simp_all add: hostPrefix_def)
qed

lemma final_entry_self:
  assumes "(p, oif) \<in> set (selfs addrs routes)"
  obtains e where "final_entry addrs routes p = Some e" "re_loc e = LocalitySelf"
proof -
  have "p \<in> fst ` set (rev (selfs addrs routes))" using assms image_iff by fastforce
  then have "map_of (rev (selfs addrs routes)) p \<noteq> None" by (simp only: map_of_eq_None_iff not_not)
  then show ?thesis using that by (auto simp: final_entry_def)
qed

lemma mem_map_filter: "x \<in> set (List.map_filter f xs) \<longleftrightarrow> (\<exists>y \<in> set xs. f y = Some x)"
  by (induction xs) (auto simp: List.map_filter_simps split: option.splits)

lemma map_of_rev_mem: "map_of (rev xs) k = Some v \<Longrightarrow> (k, v) \<in> set xs"
  by (drule map_of_SomeD) simp

lemma final_entry_from:
  assumes "final_entry addrs routes p = Some e"
  shows "re_loc e = LocalitySelf \<and> (p, re_oif e) \<in> set (selfs addrs routes)
       \<or> re_loc e \<noteq> LocalitySelf \<and> (\<exists>ri \<in> set routes. class_of_route ri = Some (p, e))"
proof (cases "map_of (rev (selfs addrs routes)) p")
  case None
  then have "(p, e) \<in> set (List.map_filter class_of_route routes)" using assms by (simp add: final_entry_def map_of_rev_mem)
  then obtain ri where "ri \<in> set routes" "class_of_route ri = Some (p, e)" by (auto simp: mem_map_filter)
  then show ?thesis using class_not_self by blast
next
  case (Some oif)
  then show ?thesis using assms by (auto simp: final_entry_def map_of_rev_mem)
qed

lemma selfs_iff:
  "(p, oif) \<in> set (selfs addrs routes) \<longleftrightarrow>
     (\<exists>ai \<in> set addrs. self_of_addr ai = Some (p, oif)) \<or> (\<exists>ri \<in> set routes. self_of_route ri = Some (p, oif))"
  by (auto simp: selfs_def mem_map_filter)

subsection \<open>A table that keeps the laws\<close>

fun longest :: "Prefix list \<Rightarrow> Prefix option" where
  "longest [] = None"
| "longest (p # ps) = (case longest ps of None \<Rightarrow> Some p | Some q \<Rightarrow> if snd q \<le> snd p then Some p else Some q)"

definition list_table :: "(Prefix \<times> routeEntry) list bart" where
  "list_table = \<lparr>bt_new = [], bt_Insert = (\<lambda>p e t. (p, e) # t), bt_Get = (\<lambda>p t. map_of t p),
     bt_Lookup = (\<lambda>a t. Option.bind (longest (filter (\<lambda>p. canonical p \<and> Prefix_Contains p a) (map fst t))) (map_of t))\<rparr>"

lemma longest_None: "longest ps = None \<longleftrightarrow> ps = []"
  by (cases ps) (auto split: option.split)

lemma longest_Some: "longest ps = Some p \<Longrightarrow> p \<in> set ps \<and> (\<forall>q \<in> set ps. snd q \<le> snd p)"
  by (induction ps arbitrary: p) (fastforce simp: longest_None split: option.splits if_splits)+

lemma list_table_lookup:
  assumes "longest (filter (\<lambda>p. canonical p \<and> Prefix_Contains p a) (map fst t)) = Some p"
  obtains e where "map_of t p = Some e" "canonical p" "Prefix_Contains p a"
    "\<And>q. canonical q \<Longrightarrow> Prefix_Contains q a \<Longrightarrow> map_of t q \<noteq> None \<Longrightarrow> snd q \<le> snd p"
proof -
  from longest_Some [OF assms] have p: "p \<in> fst ` set t" "canonical p" "Prefix_Contains p a"
    "\<And>q. q \<in> fst ` set t \<Longrightarrow> canonical q \<Longrightarrow> Prefix_Contains q a \<Longrightarrow> snd q \<le> snd p" unfolding set_filter set_map by blast+
  then show ?thesis using that by (metis map_of_eq_None_iff option.exhaust)
qed

lemma list_table_laws: "bart_laws list_table"
proof -
  have "case bt_Lookup list_table a t of
      None \<Rightarrow> \<forall>p. canonical p \<and> Prefix_Contains p a \<longrightarrow> bt_Get list_table p t = None
    | Some e \<Rightarrow> \<exists>p. canonical p \<and> Prefix_Contains p a \<and> bt_Get list_table p t = Some e
        \<and> (\<forall>q. canonical q \<and> Prefix_Contains q a \<and> bt_Get list_table q t \<noteq> None \<longrightarrow> snd q \<le> snd p)" for a t
  proof (cases "longest (filter (\<lambda>p. canonical p \<and> Prefix_Contains p a) (map fst t))")
    case None
    then have "\<forall>p \<in> fst ` set t. \<not> (canonical p \<and> Prefix_Contains p a)"
      unfolding longest_None filter_empty_conv by simp
    then have "\<forall>p. canonical p \<and> Prefix_Contains p a \<longrightarrow> map_of t p = None"
      unfolding map_of_eq_None_iff by blast
    then show ?thesis using None by (simp add: list_table_def)
  next
    case (Some p)
    from list_table_lookup [OF this] obtain e where e: "map_of t p = Some e" "canonical p" "Prefix_Contains p a"
      "\<And>q. canonical q \<Longrightarrow> Prefix_Contains q a \<Longrightarrow> map_of t q \<noteq> None \<Longrightarrow> snd q \<le> snd p" by blast
    then have "\<exists>p. canonical p \<and> Prefix_Contains p a \<and> map_of t p = Some e
        \<and> (\<forall>q. canonical q \<and> Prefix_Contains q a \<and> map_of t q \<noteq> None \<longrightarrow> snd q \<le> snd p)" by blast
    then show ?thesis using Some e(1) by (simp add: list_table_def del: not_None_eq)
  qed
  then show ?thesis unfolding bart_laws_def by (simp add: list_table_def)
qed

definition sample_addr :: AddrInfo where
  "sample_addr = (addr_init \<lparr>am_Family = 2, am_Prefixlen = 24, am_Flags = 0, am_Scope = 0, am_Index = 2\<rparr>)\<lparr>ad_Local := [10, 0, 0, 5]\<rparr>"

definition sample_route :: RouteInfo where
  "sample_route = (route_init \<lparr>rm_Family = 2, rm_DstLen = 24, rm_SrcLen = 0, rm_Tos = 0, rm_Table = 254, rm_Protocol = 2,
     rm_Scope = 253, rm_Type = 1, rm_Flags = 0\<rparr>)\<lparr>ri_Dst := [10, 0, 0, 0], ri_Oif := 2\<rparr>"

lemma sample_lookup:
  "Lookup list_table (Some (BuildSnapshot list_table [sample_addr] [sample_route] Map.empty)) (Some (Addr4 [10, 0, 0, 9])) =
     (LocalitySubnet, 2, True)"
  by code_simp

lemma sample_hyps:
  "addr_wf (Addr4 [10, 0, 0, 9]) \<and> Unmap (Addr4 [10, 0, 0, 9]) = Addr4 [10, 0, 0, 9]
   \<and> \<not> IsUnspecified (Addr4 [10, 0, 0, 9]) \<and> \<not> IsLoopback (Addr4 [10, 0, 0, 9])"
  by code_simp

text \<open>C13: longest-prefix classification. An address that is neither unspecified nor loopback is
  classified by the entry of a longest prefix that contains it; the entry of a prefix is the last
  address or local route inserted under it, whatever routes came later, and otherwise the last
  unicast route. With no such prefix it is remote, with no interface.\<close>

theorem classified_by_longest_prefix:
  assumes "bart_laws bt" "addr_wf a" "Unmap a = a" "\<not> IsUnspecified a" "\<not> IsLoopback a"
  shows "(\<exists>p e. canonical p \<and> Prefix_Contains p a \<and> final_entry addrs routes p = Some e
        \<and> (\<forall>q. canonical q \<and> Prefix_Contains q a \<and> final_entry addrs routes q \<noteq> None \<longrightarrow> snd q \<le> snd p)
        \<and> Lookup bt (Some (BuildSnapshot bt addrs routes links)) (Some a) = (re_loc e, re_oif e, True))
    \<or> (\<forall>q. canonical q \<and> Prefix_Contains q a \<longrightarrow> final_entry addrs routes q = None)
        \<and> Lookup bt (Some (BuildSnapshot bt addrs routes links)) (Some a) = (LocalityRemote, 0, True)"
  using assms by (cases rule: lookup_cases [where addrs = addrs and routes = routes and links = links]) blast+

theorem classified_by_longest_prefix_witness:
  "\<exists>p e. canonical p \<and> Prefix_Contains p (Addr4 [10, 0, 0, 9]) \<and> final_entry [sample_addr] [sample_route] p = Some e
     \<and> re_loc e = LocalitySubnet \<and> re_oif e = 2"
  using classified_by_longest_prefix [OF list_table_laws, of "Addr4 [10, 0, 0, 9]" "[sample_addr]" "[sample_route]" Map.empty]
    sample_hyps unfolding sample_lookup prod.inject by (metis net_Locality.distinct(11))

lemma own_address_self:
  assumes "bart_laws bt" "addr_wf a" "Unmap a = a" "\<not> IsUnspecified a" "\<not> IsLoopback a" "own_address addrs a"
  shows "Classify bt (Some (BuildSnapshot bt addrs routes links)) (Some a) = LocalitySelf"
proof -
  from assms(6) obtain oif where "(hostPrefix a, oif) \<in> set (selfs addrs routes)"
    by (auto simp: own_address_def selfs_iff self_of_addr_def)
  then obtain e where e: "final_entry addrs routes (hostPrefix a) = Some e" "re_loc e = LocalitySelf"
    by (rule final_entry_self)
  have h: "canonical (hostPrefix a)" "Prefix_Contains (hostPrefix a) a" "snd (hostPrefix a) = BitLen a"
    using assms(2) by (simp_all add: canonical_host host_contains) (simp add: hostPrefix_def)
  from assms(1-5) show ?thesis
  proof (cases rule: lookup_cases [where addrs = addrs and routes = routes and links = links])
    case (found p e')
    have "BitLen a \<le> snd p" using found(4) [OF h(1,2)] e(1) h(3) by simp
    then show ?thesis using host_is_longest [OF found(1,2) assms(2)] found(3,5) e by (simp add: Classify_def)
  qed (use e(1) h in simp)
qed

lemma self_entry_sound:
  assumes "(p, oif) \<in> set (selfs addrs routes)" "Prefix_Contains p a" "addr_wf a"
  shows "own_address addrs a \<or> local_route_covers routes a"
proof -
  from assms(1) consider (addr) ai where "ai \<in> set addrs" "self_of_addr ai = Some (p, oif)"
    | (route) ri where "ri \<in> set routes" "self_of_route ri = Some (p, oif)" by (auto simp: selfs_iff)
  then show ?thesis
  proof cases
    case addr
    then obtain b where b: "addrFromBytes (if ad_Local ai = [] then ad_Address ai else ad_Local ai) = Some b" "p = hostPrefix b"
      by (auto simp: self_of_addr_def)
    then have "b = a" using assms(2,3) addrFromBytes_wf host_contains by blast
    then show ?thesis using addr(1) b(1) unfolding own_address_def by blast
  next
    case route
    then show ?thesis using assms(2) by (force simp: self_of_route_def local_route_covers_def split: if_splits)
  qed
qed

lemma subnet_entry_sound:
  "ri \<in> set routes \<Longrightarrow> class_of_route ri = Some (p, e) \<Longrightarrow> re_loc e = LocalitySubnet \<Longrightarrow> Prefix_Contains p a \<Longrightarrow>
     connected_route_covers routes a"
  by (force simp: class_of_route_def connected_route_covers_def split: if_splits)

lemma class_not_unspecified: "class_of_route ri = Some (p, e) \<Longrightarrow> re_loc e \<noteq> LocalityUnspecified"
  by (auto simp: class_of_route_def split: if_splits)

lemma class_sound:
  assumes "bart_laws bt" "addr_wf a" "Unmap a = a" "\<not> IsUnspecified a" "\<not> IsLoopback a"
  shows "case Classify bt (Some (BuildSnapshot bt addrs routes links)) (Some a) of
         LocalitySelf \<Rightarrow> own_address addrs a \<or> local_route_covers routes a
       | LocalitySubnet \<Rightarrow> connected_route_covers routes a
       | LocalityRemote \<Rightarrow> True
       | LocalityUnspecified \<Rightarrow> False"
  using assms
proof (cases rule: lookup_cases [where addrs = addrs and routes = routes and links = links])
  case (found p e)
  from final_entry_from [OF found(3)] show ?thesis
    using self_entry_sound [OF _ found(2) assms(2)] subnet_entry_sound [OF _ _ _ found(2)] class_not_unspecified [of _ p e]
    unfolding Classify_def found(5) by (cases "re_loc e") auto
qed (simp add: Classify_def)




end
