(* ===== verification/Locality_Tracker.thy ===== *)
theory Locality_Tracker
  imports Locality "HOL-Library.AList" "HOL-Library.List_Lexorder" "HOL-Library.Product_Lexorder"
begin

text \<open>
  The fold of rtnetlink notifications into the links, addresses and routes of a namespace
  (\<open>pkg/localnet/tracker.go\<close>). A Go map is an association list read through \<open>map_of\<close>; the order in
  which Go iterates over a map is an argument, a list of keys. The decoded link carries the three
  fields the fold reads.
\<close>

section \<open>State and events\<close>

datatype EventAction = EventActionUnknown | EventActionAdd | EventActionDel

record LinkInfo =
  li_Index :: u32
  li_Flags :: u32
  li_Name :: string

datatype rtnl_event =
    LinkEvent EventAction LinkInfo
  | AddrEvent EventAction AddrInfo
  | RouteEvent EventAction RouteInfo
  | OtherEvent

record trackedLink =
  tl_name :: string
  tl_up :: bool

record addrKey =
  ak_index :: u32
  ak_family :: u8
  ak_prefixlen :: u8
  ak_local :: bytes
  ak_address :: bytes

record routeKey =
  rk_family :: u8
  rk_dstLen :: u8
  rk_srcLen :: u8
  rk_tos :: u8
  rk_table :: u32
  rk_priority :: u32
  rk_oif :: u32
  rk_dst :: bytes
  rk_src :: bytes
  rk_gateway :: bytes

record Tracker =
  tr_links :: "(u32 \<times> trackedLink) list"
  tr_addrs :: "(addrKey \<times> AddrInfo) list"
  tr_routes :: "(routeKey \<times> RouteInfo) list"

definition IFF_UP :: u32 where
  "IFF_UP = 1"

definition RTM_F_CLONED :: u32 where
  "RTM_F_CLONED = 512"

definition RT_SCOPE_HOST :: u8 where
  "RT_SCOPE_HOST = 254"

section \<open>Operations\<close>

definition tracked :: "RouteInfo \<Rightarrow> bool" where
  "tracked r \<longleftrightarrow> inClassifiedTable (ri_Table r) \<and> ri_Flags r AND RTM_F_CLONED = 0"

definition keyOfAddr :: "AddrInfo \<Rightarrow> addrKey" where
  "keyOfAddr a =
     (let k = \<lparr>ak_index = ad_Index a, ak_family = ad_Family a, ak_prefixlen = 0, ak_local = ad_Local a, ak_address = []\<rparr>
      in if ad_Family a = 2 then k\<lparr>ak_prefixlen := ad_Prefixlen a, ak_address := ad_Address a\<rparr> else k)"

definition keyOfRoute :: "RouteInfo \<Rightarrow> routeKey" where
  "keyOfRoute r =
     (let k = \<lparr>rk_family = ri_Family r, rk_dstLen = ri_DstLen r, rk_srcLen = ri_SrcLen r, rk_tos = ri_Tos r,
         rk_table = ri_Table r, rk_priority = ri_Priority r, rk_oif = 0, rk_dst = ri_Dst r, rk_src = ri_Src r, rk_gateway = []\<rparr>
      in if ri_Family r = 10 then k\<lparr>rk_oif := ri_Oif r, rk_gateway := ri_Gateway r\<rparr> else k)"

definition sameClass :: "RouteInfo \<Rightarrow> RouteInfo \<Rightarrow> bool" where
  "sameClass a b \<longleftrightarrow> ri_Type a = ri_Type b \<and> ri_Oif a = ri_Oif b \<and> ri_Gateway a = ri_Gateway b
     \<and> ri_HasVia a = ri_HasVia b \<and> ri_HasMultipath a = ri_HasMultipath b \<and> ri_NhID a = ri_NhID b"

definition deleteKey :: "('k \<times> 'v) list \<Rightarrow> 'k \<Rightarrow> ('k \<times> 'v) list \<times> bool" where
  "deleteKey m k = (if map_of m k = None then (m, False) else (AList.delete k m, True))"

definition link_up :: "LinkInfo \<Rightarrow> bool" where
  "link_up l \<longleftrightarrow> li_Flags l AND IFF_UP \<noteq> 0"

definition track_link :: "LinkInfo \<Rightarrow> trackedLink" where
  "track_link l = \<lparr>tl_name = li_Name l, tl_up = link_up l\<rparr>"

definition Reset_tracker :: "LinkInfo list \<Rightarrow> AddrInfo list \<Rightarrow> RouteInfo list \<Rightarrow> Tracker" where
  "Reset_tracker links addrs routes =
     \<lparr>tr_links = fold (\<lambda>l. AList.update (li_Index l) (track_link l)) links [],
      tr_addrs = fold (\<lambda>a. AList.update (keyOfAddr a) a) addrs [],
      tr_routes = fold (\<lambda>r m. if tracked r then AList.update (keyOfRoute r) r m else m) routes []\<rparr>"

definition NewTracker :: Tracker where
  "NewTracker = Reset_tracker [] [] []"

text \<open>The routes a lost or lowered interface takes with it.\<close>

definition flushed :: "u32 \<Rightarrow> bool \<Rightarrow> RouteInfo \<Rightarrow> bool" where
  "flushed idx unregistered r \<longleftrightarrow>
     \<not> (ri_Oif r \<noteq> idx \<or> ri_HasMultipath r \<or> ri_NhID r \<noteq> 0)
     \<and> \<not> (\<not> unregistered \<and> (ri_Family r \<noteq> 2 \<or> ri_Scope r = RT_SCOPE_HOST))"

definition flushRoutes :: "u32 \<Rightarrow> bool \<Rightarrow> Tracker \<Rightarrow> Tracker \<times> bool" where
  "flushRoutes idx unregistered t =
     (t\<lparr>tr_routes := filter (\<lambda>kr. \<not> flushed idx unregistered (snd kr)) (tr_routes t)\<rparr>,
      \<exists>kr \<in> set (tr_routes t). flushed idx unregistered (snd kr))"

definition applyLink :: "EventAction \<Rightarrow> LinkInfo \<Rightarrow> Tracker \<Rightarrow> Tracker \<times> bool" where
  "applyLink action l t =
     (let idx = li_Index l; old = map_of (tr_links t) idx
      in if action = EventActionDel then
           let changed = (case old of None \<Rightarrow> False | Some old \<Rightarrow> tl_name old \<noteq> '''')
                 \<or> (\<exists>ka \<in> set (tr_addrs t). ad_Index (snd ka) = idx);
               t = t\<lparr>tr_links := AList.delete idx (tr_links t), tr_addrs := filter (\<lambda>ka. ad_Index (snd ka) \<noteq> idx) (tr_addrs t)\<rparr>;
               (t, dropped) = flushRoutes idx True t
           in (t, dropped \<or> changed)
         else
           let t = t\<lparr>tr_links := AList.update idx (track_link l) (tr_links t)\<rparr>;
               changed = (case old of None \<Rightarrow> True | Some old \<Rightarrow> tl_name old \<noteq> li_Name l)
           in if (case old of None \<Rightarrow> False | Some old \<Rightarrow> tl_up old \<and> \<not> link_up l)
              then let (t, dropped) = flushRoutes idx False t in (t, dropped \<or> changed)
              else (t, changed))"

definition Apply :: "rtnl_event \<Rightarrow> Tracker \<Rightarrow> Tracker \<times> bool" where
  "Apply ev t =
     (case ev of
        LinkEvent action l \<Rightarrow> applyLink action l t
      | AddrEvent action a \<Rightarrow>
          let k = keyOfAddr a
          in if action = EventActionDel
             then (case deleteKey (tr_addrs t) k of (m, changed) \<Rightarrow> (t\<lparr>tr_addrs := m\<rparr>, changed))
             else (t\<lparr>tr_addrs := AList.update k a (tr_addrs t)\<rparr>, map_of (tr_addrs t) k = None)
      | RouteEvent action r \<Rightarrow>
          if \<not> tracked r then (t, False)
          else
            let k = keyOfRoute r
            in if action = EventActionDel
               then (case deleteKey (tr_routes t) k of (m, changed) \<Rightarrow> (t\<lparr>tr_routes := m\<rparr>, changed))
               else (t\<lparr>tr_routes := AList.update k r (tr_routes t)\<rparr>,
                     case map_of (tr_routes t) k of None \<Rightarrow> True | Some old \<Rightarrow> \<not> sameClass old r)
      | OtherEvent \<Rightarrow> (t, False))"

text \<open>\<open>cmp.Compare\<close>, \<open>bytes.Compare\<close> and \<open>cmp.Or\<close>: the first comparison that is not zero.\<close>

definition cmp_Compare :: "'a::linorder \<Rightarrow> 'a \<Rightarrow> int" where
  "cmp_Compare a b = (if a < b then - 1 else if b < a then 1 else 0)"

primrec cmp_Or :: "int list \<Rightarrow> int" where
  "cmp_Or [] = 0"
| "cmp_Or (c # cs) = (if c \<noteq> 0 then c else cmp_Or cs)"

definition compareRoutes :: "RouteInfo \<Rightarrow> RouteInfo \<Rightarrow> int" where
  "compareRoutes a b = cmp_Or
     [cmp_Compare (ri_Family a) (ri_Family b), cmp_Compare (ri_Table a) (ri_Table b),
      cmp_Compare (ri_DstLen a) (ri_DstLen b), cmp_Compare (ri_Dst a) (ri_Dst b),
      cmp_Compare (ri_Tos a) (ri_Tos b), cmp_Compare (ri_Priority a) (ri_Priority b),
      cmp_Compare (ri_Oif a) (ri_Oif b), cmp_Compare (ri_Gateway a) (ri_Gateway b)]"

text \<open>\<open>slices.SortedFunc\<close> returns its elements in an order the comparison allows; which of two equal
  elements comes first depends on the order they come in, here as there.\<close>

primrec insort_by :: "('a \<Rightarrow> 'a \<Rightarrow> int) \<Rightarrow> 'a \<Rightarrow> 'a list \<Rightarrow> 'a list" where
  "insort_by c x [] = [x]"
| "insort_by c x (y # ys) = (if c x y \<le> 0 then x # y # ys else y # insort_by c x ys)"

definition SortedFunc :: "('a \<Rightarrow> 'a \<Rightarrow> int) \<Rightarrow> 'a list \<Rightarrow> 'a list" where
  "SortedFunc c xs = foldr (insort_by c) xs []"

definition map_values :: "'k list \<Rightarrow> ('k \<times> 'v) list \<Rightarrow> 'v list" where
  "map_values order m = List.map_filter (map_of m) order"

definition tracker_Snapshot :: "'t bart \<Rightarrow> addrKey list \<Rightarrow> routeKey list \<Rightarrow> Tracker \<Rightarrow> 't Snapshot" where
  "tracker_Snapshot bt ka kr t =
     BuildSnapshot bt (map_values ka (tr_addrs t)) (SortedFunc compareRoutes (map_values kr (tr_routes t)))
       (\<lambda>idx. case map_of (tr_links t) idx of
          None \<Rightarrow> None | Some l \<Rightarrow> if tl_name l \<noteq> '''' then Some (tl_name l) else None)"

section \<open>What a notification changes\<close>

text \<open>An address as \<open>ParseNewAddr\<close> returns it: the peer address stands in for a missing local one.\<close>

definition addr_ok :: "AddrInfo \<Rightarrow> bool" where
  "addr_ok a \<longleftrightarrow> (ad_Local a = [] \<longrightarrow> ad_Address a = [])"

definition event_ok :: "rtnl_event \<Rightarrow> bool" where
  "event_ok ev = (case ev of AddrEvent action a \<Rightarrow> addr_ok a | _ \<Rightarrow> True)"

lemma parsed_addr_ok: "ParseNewAddr body = Some (Inr a) \<Longrightarrow> addr_ok a"
  by (auto simp: ParseNewAddr_def addr_alias_def addr_ok_def Let_def split: bind_splits sum.splits option.splits if_splits)

definition keyed :: "Tracker \<Rightarrow> bool" where
  "keyed t \<longleftrightarrow>
     distinct (map fst (tr_links t)) \<and> distinct (map fst (tr_addrs t)) \<and> distinct (map fst (tr_routes t))
   \<and> (\<forall>(k, a) \<in> set (tr_addrs t). k = keyOfAddr a \<and> addr_ok a)
   \<and> (\<forall>(k, r) \<in> set (tr_routes t). k = keyOfRoute r \<and> tracked r)"

lemma set_update: "set (AList.update k v m) \<subseteq> insert (k, v) (set m)"
  by (induction m) auto

lemma distinct_fst_filter: "distinct (map fst m) \<Longrightarrow> distinct (map fst (filter P m))"
  by (induction m) auto

lemma keyed_updates:
  assumes "keyed t"
  shows "keyed (t\<lparr>tr_links := AList.update idx l (tr_links t)\<rparr>)"
    and "keyed (t\<lparr>tr_links := AList.delete idx (tr_links t)\<rparr>)"
    and "addr_ok a \<Longrightarrow> keyed (t\<lparr>tr_addrs := AList.update (keyOfAddr a) a (tr_addrs t)\<rparr>)"
    and "keyed (t\<lparr>tr_addrs := AList.delete ka (tr_addrs t)\<rparr>)"
    and "keyed (t\<lparr>tr_addrs := filter P (tr_addrs t)\<rparr>)"
    and "tracked r \<Longrightarrow> keyed (t\<lparr>tr_routes := AList.update (keyOfRoute r) r (tr_routes t)\<rparr>)"
    and "keyed (t\<lparr>tr_routes := AList.delete kr (tr_routes t)\<rparr>)"
    and "keyed (t\<lparr>tr_routes := filter Q (tr_routes t)\<rparr>)"
  using assms set_update [of "keyOfAddr a" a "tr_addrs t"] set_update [of "keyOfRoute r" r "tr_routes t"]
  by (auto simp: keyed_def distinct_update distinct_fst_filter AList.delete_eq)

lemma keyed_flush: "keyed t \<Longrightarrow> keyed (fst (flushRoutes idx u t))"
  by (simp add: flushRoutes_def keyed_updates)

lemma keyed_applyLink:
  assumes "keyed t"
  shows "keyed (fst (applyLink action l t))"
proof -
  have "keyed (t\<lparr>tr_links := AList.delete i (tr_links t), tr_addrs := filter P (tr_addrs t)\<rparr>)" for i P
    using keyed_updates(5) [OF keyed_updates(2) [OF assms], of P i] by simp
  then show ?thesis
    using assms by (simp add: applyLink_def Let_def split_beta keyed_flush keyed_updates)
qed

lemma keyed_Apply: "keyed t \<Longrightarrow> event_ok ev \<Longrightarrow> keyed (fst (Apply ev t))"
  by (cases ev) (simp_all add: Apply_def Let_def event_ok_def deleteKey_def keyed_applyLink keyed_updates)

lemma keyed_Reset:
  assumes "\<forall>a \<in> set addrs. addr_ok a"
  shows "keyed (Reset_tracker links addrs routes)"
proof -
  have L: "distinct (map fst (fold (\<lambda>l. AList.update (li_Index l) (track_link l)) links m))" if "distinct (map fst m)" for m
    using that by (induction links arbitrary: m) (simp_all add: distinct_update)
  have A: "distinct (map fst (fold (\<lambda>a. AList.update (keyOfAddr a) a) addrs m))
      \<and> (\<forall>(k, a) \<in> set (fold (\<lambda>a. AList.update (keyOfAddr a) a) addrs m). k = keyOfAddr a \<and> addr_ok a)"
    if "distinct (map fst m)" "\<forall>(k, a) \<in> set m. k = keyOfAddr a \<and> addr_ok a" for m
    using that assms
  proof (induction addrs arbitrary: m)
    case (Cons a addrs)
    from set_update [of "keyOfAddr a" a m] Cons.prems
    have "\<forall>(k, a) \<in> set (AList.update (keyOfAddr a) a m). k = keyOfAddr a \<and> addr_ok a" by auto
    from Cons.IH [OF distinct_update [OF Cons.prems(1)] this] Cons.prems(3) show ?case by simp
  qed simp
  have R: "distinct (map fst (fold (\<lambda>r m. if tracked r then AList.update (keyOfRoute r) r m else m) routes m))
      \<and> (\<forall>(k, r) \<in> set (fold (\<lambda>r m. if tracked r then AList.update (keyOfRoute r) r m else m) routes m). k = keyOfRoute r \<and> tracked r)"
    if "distinct (map fst m)" "\<forall>(k, r) \<in> set m. k = keyOfRoute r \<and> tracked r" for m
    using that
  proof (induction routes arbitrary: m)
    case (Cons r routes)
    from set_update [of "keyOfRoute r" r m] Cons.prems
    have "tracked r \<Longrightarrow> \<forall>(k, r) \<in> set (AList.update (keyOfRoute r) r m). k = keyOfRoute r \<and> tracked r" by auto
    from Cons.IH [OF distinct_update [OF Cons.prems(1)] this] Cons.IH [OF Cons.prems] show ?case by simp
  qed simp
  show ?thesis using L [of "[]"] A [of "[]"] R [of "[]"] by (simp add: keyed_def Reset_tracker_def)
qed

section \<open>Snapshots read only the class of an entry\<close>

lemma build_addrs_view: "map self_of_addr as = map self_of_addr bs \<Longrightarrow> fold (build_addr bt) as st = fold (build_addr bt) bs st"
proof (induction as arbitrary: bs st)
  case (Cons a as)
  then obtain b bs' where b: "bs = b # bs'" "self_of_addr a = self_of_addr b" "map self_of_addr as = map self_of_addr bs'" by auto
  have "build_addr bt a st = build_addr bt b st" using b(2) by (cases st) (simp add: build_addr_entry)
  then show ?case using Cons.IH [OF b(3)] b(1) by simp
qed simp

lemma build_routes_view:
  "map (\<lambda>r. (self_of_route r, class_of_route r)) as = map (\<lambda>r. (self_of_route r, class_of_route r)) bs \<Longrightarrow>
     fold (build_route bt) as st = fold (build_route bt) bs st"
proof (induction as arbitrary: bs st)
  case (Cons a as)
  then obtain b bs' where b: "bs = b # bs'" "self_of_route a = self_of_route b" "class_of_route a = class_of_route b"
    "map (\<lambda>r. (self_of_route r, class_of_route r)) as = map (\<lambda>r. (self_of_route r, class_of_route r)) bs'" by auto
  have "build_route bt a st = build_route bt b st" using b(2,3) by (cases st) (simp only: build_route_entry)
  then show ?case using Cons.IH [OF b(4)] b(1) by simp
qed simp

lemma BuildSnapshot_view:
  assumes "map self_of_addr as = map self_of_addr bs"
    and "map (\<lambda>r. (self_of_route r, class_of_route r)) rs = map (\<lambda>r. (self_of_route r, class_of_route r)) qs"
  shows "BuildSnapshot bt as rs links = BuildSnapshot bt bs qs links"
  using build_addrs_view [OF assms(1), of bt "(bt_new bt, False)"] build_routes_view [OF assms(2), of bt]
  by (simp add: BuildSnapshot_def)

text \<open>Two routes under one key with equal classes: equal for the snapshot, and for the sort.\<close>

definition alike :: "RouteInfo \<Rightarrow> RouteInfo \<Rightarrow> bool" where
  "alike a b \<longleftrightarrow> keyOfRoute a = keyOfRoute b \<and> sameClass a b"

lemma alike_refl [simp]: "alike r r"
  by (simp add: alike_def sameClass_def)

lemma keyOfRoute_eqD:
  assumes "keyOfRoute a = keyOfRoute b"
  shows "ri_Family a = ri_Family b" "ri_DstLen a = ri_DstLen b" "ri_Tos a = ri_Tos b" "ri_Table a = ri_Table b"
    "ri_Priority a = ri_Priority b" "ri_Dst a = ri_Dst b"
  using assms by (auto simp: keyOfRoute_def Let_def split: if_splits)

lemma alike_view:
  assumes "alike a b"
  shows "self_of_route a = self_of_route b" "class_of_route a = class_of_route b"
    "compareRoutes a c = compareRoutes b c" "compareRoutes c a = compareRoutes c b"
proof -
  have k: "keyOfRoute a = keyOfRoute b" and c: "sameClass a b" using assms by (simp_all add: alike_def)
  note eqs = keyOfRoute_eqD [OF k] c [unfolded sameClass_def]
  show "self_of_route a = self_of_route b" "compareRoutes a c = compareRoutes b c" "compareRoutes c a = compareRoutes c b"
    using eqs by (simp_all add: self_of_route_def compareRoutes_def)
  have "routePrefix a = routePrefix b" "gatewayReached a = gatewayReached b"
    using eqs by (simp_all add: routePrefix_def gatewayReached_def)
  then show "class_of_route a = class_of_route b" using eqs by (simp add: class_of_route_def cong: if_cong split del: if_split)
qed

lemma insort_alike:
  "list_all2 alike xs ys \<Longrightarrow> alike x y \<Longrightarrow> list_all2 alike (insort_by compareRoutes x xs) (insort_by compareRoutes y ys)"
proof (induction rule: list_all2_induct)
  case (Cons a as b bs)
  then show ?case using alike_view(3) [of x y] alike_view(4) [of a b] by simp
qed simp

lemma sorted_alike: "list_all2 alike xs ys \<Longrightarrow> list_all2 alike (SortedFunc compareRoutes xs) (SortedFunc compareRoutes ys)"
  unfolding SortedFunc_def by (induction rule: list_all2_induct) (simp_all add: insort_alike)

lemma all2_map_eq: "list_all2 R xs ys \<Longrightarrow> (\<And>x y. R x y \<Longrightarrow> f x = f y) \<Longrightarrow> map f xs = map f ys"
  by (induction rule: list_all2_induct) simp_all

definition alike_maps :: "('v \<Rightarrow> 'v \<Rightarrow> bool) \<Rightarrow> ('k \<times> 'v) list \<Rightarrow> ('k \<times> 'v) list \<Rightarrow> bool" where
  "alike_maps R m n \<longleftrightarrow> (\<forall>k. rel_option R (map_of m k) (map_of n k))"

lemma alike_maps_refl: "(\<And>v. R v v) \<Longrightarrow> alike_maps R m m"
  by (simp add: alike_maps_def option.rel_refl)

lemma alike_maps_update:
  assumes "\<And>v. R v v" "map_of m k = Some old" "R v old"
  shows "alike_maps R (AList.update k v m) m"
  using assms by (simp add: alike_maps_def update_conv option.rel_refl)

lemma map_values_alike: "alike_maps R m n \<Longrightarrow> list_all2 R (map_values ks m) (map_values ks n)"
proof (induction ks)
  case (Cons k ks)
  then have "rel_option R (map_of m k) (map_of n k)" by (simp add: alike_maps_def)
  then show ?case using Cons by (cases "map_of m k"; cases "map_of n k") (simp_all add: map_values_def List.map_filter_simps)
qed (simp add: map_values_def List.map_filter_simps)

definition link_name :: "(u32 \<times> trackedLink) list \<Rightarrow> u32 \<Rightarrow> string" where
  "link_name m idx = (case map_of m idx of None \<Rightarrow> '''' | Some l \<Rightarrow> tl_name l)"

lemma names_by_link_name:
  "(case map_of m idx of None \<Rightarrow> None | Some l \<Rightarrow> if tl_name l \<noteq> '''' then Some (tl_name l) else None)
     = (if link_name m idx = '''' then None else Some (link_name m idx))"
  by (simp add: link_name_def split: option.split)

lemma snapshot_cong:
  assumes "alike_maps (\<lambda>a b. self_of_addr a = self_of_addr b) (tr_addrs t) (tr_addrs u)"
    and "alike_maps alike (tr_routes t) (tr_routes u)" and "link_name (tr_links t) = link_name (tr_links u)"
  shows "tracker_Snapshot bt ka kr t = tracker_Snapshot bt ka kr u"
proof -
  have "map self_of_addr (map_values ka (tr_addrs t)) = map self_of_addr (map_values ka (tr_addrs u))"
    by (rule all2_map_eq [OF map_values_alike [OF assms(1)]])
  moreover have "map (\<lambda>r. (self_of_route r, class_of_route r)) (SortedFunc compareRoutes (map_values kr (tr_routes t)))
      = map (\<lambda>r. (self_of_route r, class_of_route r)) (SortedFunc compareRoutes (map_values kr (tr_routes u)))"
    by (rule all2_map_eq [OF sorted_alike [OF map_values_alike [OF assms(2)]]]) (simp add: alike_view(1,2))
  ultimately show ?thesis
    unfolding tracker_Snapshot_def names_by_link_name assms(3) by (rule BuildSnapshot_view)
qed

section \<open>A silent notification changes no snapshot\<close>

lemma keyOfAddr_view:
  assumes "keyOfAddr a = keyOfAddr b" "addr_ok a" "addr_ok b"
  shows "self_of_addr a = self_of_addr b"
proof -
  have "ad_Index a = ad_Index b" "ad_Local a = ad_Local b"
    using assms(1) by (auto simp: keyOfAddr_def Let_def split: if_splits)
  moreover have "(if ad_Local a = [] then ad_Address a else ad_Local a) = (if ad_Local b = [] then ad_Address b else ad_Local b)"
    using assms(2,3) calculation(2) by (simp add: addr_ok_def)
  ultimately show ?thesis by (simp add: self_of_addr_def)
qed

lemma keyed_entry:
  assumes "keyed t"
  shows "map_of (tr_addrs t) k = Some a \<Longrightarrow> k = keyOfAddr a \<and> addr_ok a"
    and "map_of (tr_routes t) kr = Some r \<Longrightarrow> kr = keyOfRoute r \<and> tracked r"
  using assms by (auto simp: keyed_def dest!: map_of_SomeD)

lemma flush_silent: "flushRoutes idx u t = (t', False) \<Longrightarrow> t' = t"
proof -
  assume a: "flushRoutes idx u t = (t', False)"
  then have "filter (\<lambda>kr. \<not> flushed idx u (snd kr)) (tr_routes t) = tr_routes t"
    unfolding flushRoutes_def filter_id_conv by auto
  then show "t' = t" using a by (simp add: flushRoutes_def)
qed

lemma link_name_update: "link_name m idx = tl_name l \<Longrightarrow> link_name (AList.update idx l m) = link_name m"
  by (rule ext) (simp add: link_name_def update_conv)

lemma link_name_delete: "link_name m idx = '''' \<Longrightarrow> link_name (AList.delete idx m) = link_name m"
  by (rule ext) (auto simp: link_name_def delete_conv restrict_map_def split: option.split)

lemma applyLink_silent:
  assumes "applyLink action l t = (t', False)"
  shows "tr_addrs t' = tr_addrs t \<and> tr_routes t' = tr_routes t \<and> link_name (tr_links t') = link_name (tr_links t)"
proof (cases "action = EventActionDel")
  case True
  define u where "u = t\<lparr>tr_links := AList.delete (li_Index l) (tr_links t),
    tr_addrs := filter (\<lambda>ka. ad_Index (snd ka) \<noteq> li_Index l) (tr_addrs t)\<rparr>"
  have n: "link_name (tr_links t) (li_Index l) = ''''" and a: "\<forall>ka \<in> set (tr_addrs t). ad_Index (snd ka) \<noteq> li_Index l"
    and f: "flushRoutes (li_Index l) True u = (t', False)"
    using assms True by (auto simp: applyLink_def link_name_def u_def Let_def split_beta prod_eq_iff split: option.splits)
  have "filter (\<lambda>ka. ad_Index (snd ka) \<noteq> li_Index l) (tr_addrs t) = tr_addrs t" using a by (simp add: filter_id_conv)
  then show ?thesis using flush_silent [OF f] link_name_delete [OF n] by (simp add: u_def)
next
  case False
  define u where "u = t\<lparr>tr_links := AList.update (li_Index l) (track_link l) (tr_links t)\<rparr>"
  have n: "link_name (tr_links t) (li_Index l) = tl_name (track_link l)"
    and f: "flushRoutes (li_Index l) False u = (t', False) \<or> t' = u"
    using assms False by (auto simp: applyLink_def link_name_def track_link_def u_def Let_def split_beta prod_eq_iff split: option.splits if_splits)
  from f have "t' = u" using flush_silent by blast
  then show ?thesis using link_name_update [OF n] by (simp add: u_def)
qed

lemma Apply_silent:
  assumes "keyed t" "event_ok ev" "Apply ev t = (t', False)"
  shows "tracker_Snapshot bt ka kr t' = tracker_Snapshot bt ka kr t"
proof (cases ev)
  case (LinkEvent action l)
  then show ?thesis using applyLink_silent [of action l t t'] assms(3)
    by (intro snapshot_cong) (simp_all add: Apply_def alike_maps_refl)
next
  case (AddrEvent action a)
  show ?thesis
  proof (cases "action = EventActionDel")
    case False
    then obtain b where b: "map_of (tr_addrs t) (keyOfAddr a) = Some b" and t': "t' = t\<lparr>tr_addrs := AList.update (keyOfAddr a) a (tr_addrs t)\<rparr>"
      using assms(3) AddrEvent by (auto simp: Apply_def Let_def)
    have "self_of_addr a = self_of_addr b"
      using keyed_entry(1) [OF assms(1) b] assms(2) AddrEvent by (intro keyOfAddr_view) (simp_all add: event_ok_def)
    then show ?thesis unfolding t' by (intro snapshot_cong) (simp_all add: alike_maps_update [OF _ b] alike_maps_refl)
  qed (use assms(3) AddrEvent in \<open>auto simp: Apply_def deleteKey_def Let_def split: if_splits\<close>)
next
  case (RouteEvent action r)
  show ?thesis
  proof (cases "action = EventActionDel \<or> \<not> tracked r")
    case False
    then obtain b where b: "map_of (tr_routes t) (keyOfRoute r) = Some b" and c: "sameClass b r"
      and t': "t' = t\<lparr>tr_routes := AList.update (keyOfRoute r) r (tr_routes t)\<rparr>"
      using assms(3) RouteEvent by (auto simp: Apply_def Let_def split: option.splits)
    have "alike r b" using keyed_entry(2) [OF assms(1) b] c by (simp add: alike_def sameClass_def)
    then show ?thesis unfolding t' by (intro snapshot_cong) (simp_all add: alike_maps_update [OF _ b] alike_maps_refl)
  qed (use assms(3) RouteEvent in \<open>auto simp: Apply_def deleteKey_def Let_def split: if_splits\<close>)
qed (use assms(3) in \<open>simp add: Apply_def\<close>)

section \<open>The fold agrees with a later dump\<close>

type_synonym dump = "LinkInfo list \<times> AddrInfo list \<times> RouteInfo list"

text \<open>What a dump returns after the change a notification reports: an object replaces the one with
  its identity; a link that goes takes its addresses and its single-path routes along, and a link
  that goes down its IPv4 routes but those of host scope. Routes that are not tracked play no part.\<close>

definition dump_after :: "rtnl_event \<Rightarrow> dump \<Rightarrow> dump" where
  "dump_after ev d =
     (case d of (L, A, R) \<Rightarrow>
        case ev of
          LinkEvent action l \<Rightarrow>
            let idx = li_Index l; others = filter (\<lambda>x. li_Index x \<noteq> idx) L
            in if action = EventActionDel
               then (others, filter (\<lambda>a. ad_Index a \<noteq> idx) A, filter (\<lambda>r. \<not> flushed idx True r) R)
               else (others @ [l], A,
                 if (\<exists>x \<in> set L. li_Index x = idx \<and> link_up x) \<and> \<not> link_up l then filter (\<lambda>r. \<not> flushed idx False r) R else R)
        | AddrEvent action a \<Rightarrow>
            let others = filter (\<lambda>x. keyOfAddr x \<noteq> keyOfAddr a) A
            in (L, if action = EventActionDel then others else others @ [a], R)
        | RouteEvent action r \<Rightarrow>
            let others = filter (\<lambda>x. keyOfRoute x \<noteq> keyOfRoute r) R
            in (L, A, if \<not> tracked r then R else if action = EventActionDel then others else others @ [r])
        | OtherEvent \<Rightarrow> d)"

definition entries :: "('x \<Rightarrow> 'k) \<Rightarrow> ('x \<Rightarrow> 'v) \<Rightarrow> 'x list \<Rightarrow> ('k \<times> 'v) list" where
  "entries f g xs = map (\<lambda>x. (f x, g x)) xs"

text \<open>A dump has one entry per identity; its routes here are the tracked ones.\<close>

definition dump_wf :: "dump \<Rightarrow> bool" where
  "dump_wf d = (case d of (L, A, R) \<Rightarrow>
     distinct (map li_Index L) \<and> distinct (map keyOfAddr A) \<and> distinct (map keyOfRoute R) \<and> (\<forall>r \<in> set R. tracked r))"

definition sim :: "Tracker \<Rightarrow> dump \<Rightarrow> bool" where
  "sim t d = (case d of (L, A, R) \<Rightarrow>
     map_of (tr_links t) = map_of (entries li_Index track_link L)
   \<and> map_of (tr_addrs t) = map_of (entries keyOfAddr id A)
   \<and> map_of (tr_routes t) = map_of (entries keyOfRoute id R)
   \<and> distinct (map fst (tr_links t)) \<and> distinct (map fst (tr_addrs t)) \<and> distinct (map fst (tr_routes t)))"

lemma entries_delete: "map_of (entries f g (filter (\<lambda>x. f x \<noteq> k) xs)) = (map_of (entries f g xs))(k := None)"
  by (induction xs) (auto simp: entries_def fun_eq_iff)

lemma entries_replace:
  "f x = k \<Longrightarrow> map_of (entries f g (filter (\<lambda>x. f x \<noteq> k) xs @ [x])) = (map_of (entries f g xs))(k \<mapsto> g x)"
  by (induction xs) (auto simp: entries_def fun_eq_iff)

definition keep :: "('v \<Rightarrow> bool) \<Rightarrow> 'v option \<Rightarrow> 'v option" where
  "keep P v = (case v of None \<Rightarrow> None | Some v \<Rightarrow> if P v then Some v else None)"

lemma filter_entries:
  "distinct (map f xs) \<Longrightarrow> map_of (entries f id (filter P xs)) k = keep P (map_of (entries f id xs) k)"
  by (induction xs) (auto simp: entries_def keep_def map_of_eq_None_iff split: option.splits)

lemma filter_values:
  "distinct (map fst m) \<Longrightarrow> map_of (filter (\<lambda>kv. P (snd kv)) m) k = keep P (map_of m k)"
  by (induction m) (auto simp: keep_def map_of_eq_None_iff dest: map_of_SomeD split: option.splits)

lemma map_of_fold_update:
  "map_of (fold (\<lambda>x. AList.update (f x) (g x)) xs m) = map_of m ++ map_of (rev (entries f g xs))"
  by (induction xs arbitrary: m) (simp_all add: entries_def update_conv' map_add_assoc [symmetric] map_add_def fun_eq_iff split: option.split)

lemma map_of_rev_distinct: "distinct (map fst m) \<Longrightarrow> map_of (rev m) = map_of m"
  by (rule map_of_inject_set [THEN iffD2]) (simp_all add: rev_map [symmetric])

lemma distinct_fold_update: "distinct (map fst m) \<Longrightarrow> distinct (map fst (fold (\<lambda>x. AList.update (f x) (g x)) xs m))"
  by (induction xs arbitrary: m) (simp_all add: distinct_update)

lemma fold_entries:
  assumes "distinct (map f xs)"
  shows "map_of (fold (\<lambda>x. AList.update (f x) (g x)) xs []) = map_of (entries f g xs)"
  using map_of_rev_distinct [of "entries f g xs"] assms by (simp add: map_of_fold_update entries_def comp_def)

lemma sim_Reset:
  assumes "dump_wf (L, A, R)"
  shows "sim (Reset_tracker L A R) (L, A, R)"
proof -
  have "fold (\<lambda>r m. if tracked r then AList.update (keyOfRoute r) r m else m) R m = fold (\<lambda>r. AList.update (keyOfRoute r) (id r)) R m" for m
    using assms by (induction R arbitrary: m) (simp_all add: dump_wf_def)
  then show ?thesis
    using assms fold_entries [of li_Index L track_link] fold_entries [of keyOfAddr A id] fold_entries [of keyOfRoute R id]
      distinct_fold_update [of "[]" li_Index track_link L] distinct_fold_update [of "[]" keyOfAddr id A]
      distinct_fold_update [of "[]" keyOfRoute id R]
    by (simp add: sim_def Reset_tracker_def dump_wf_def)
qed

lemma distinct_replace: "distinct (map f xs) \<Longrightarrow> f x = k \<Longrightarrow> distinct (map f (filter (\<lambda>x. f x \<noteq> k) xs @ [x]))"
  by (auto simp: distinct_map_filter)

lemma dump_wf_after: "dump_wf d \<Longrightarrow> dump_wf (dump_after ev d)"
  by (cases d; cases ev) (auto simp: dump_wf_def dump_after_def Let_def distinct_map_filter)

lemma known_link:
  assumes "distinct (map li_Index L)"
  shows "(case map_of (entries li_Index track_link L) idx of None \<Rightarrow> False | Some old \<Rightarrow> tl_up old)
    \<longleftrightarrow> (\<exists>x \<in> set L. li_Index x = idx \<and> link_up x)"
  using assms
proof (induction L)
  case (Cons a L)
  then have "li_Index a = idx \<Longrightarrow> \<forall>x \<in> set L. li_Index x \<noteq> idx"
    by (metis distinct.simps(2) image_eqI list.simps(9) set_map)
  then show ?case using Cons by (cases "li_Index a = idx") (auto simp: entries_def track_link_def)
qed (simp add: entries_def)

lemma sim_flush:
  assumes "sim t (L, A, R)" "distinct (map keyOfRoute R)"
  shows "sim (fst (flushRoutes idx u t)) (L, A, filter (\<lambda>r. \<not> flushed idx u r) R)"
  using assms filter_values [of "tr_routes t" "\<lambda>r. \<not> flushed idx u r"] filter_entries [OF assms(2), of "\<lambda>r. \<not> flushed idx u r"]
  by (simp add: sim_def flushRoutes_def distinct_fst_filter fun_eq_iff)

lemma sim_applyLink:
  assumes "sim t (L, A, R)" "dump_wf (L, A, R)"
  shows "sim (fst (applyLink action l t)) (dump_after (LinkEvent action l) (L, A, R))"
proof (cases "action = EventActionDel")
  case True
  let ?i = "li_Index l"
  let ?t = "t\<lparr>tr_links := AList.delete ?i (tr_links t), tr_addrs := filter (\<lambda>ka. ad_Index (snd ka) \<noteq> ?i) (tr_addrs t)\<rparr>"
  have "sim ?t (filter (\<lambda>x. li_Index x \<noteq> ?i) L, filter (\<lambda>a. ad_Index a \<noteq> ?i) A, R)"
    using assms filter_values [of "tr_addrs t" "\<lambda>a. ad_Index a \<noteq> ?i"] filter_entries [of keyOfAddr A "\<lambda>a. ad_Index a \<noteq> ?i"]
    by (simp add: sim_def dump_wf_def entries_delete delete_conv' distinct_delete distinct_fst_filter fun_eq_iff)
  from sim_flush [OF this] show ?thesis
    using True assms(2) by (simp add: applyLink_def dump_after_def dump_wf_def Let_def split_beta)
next
  case False
  let ?i = "li_Index l"
  let ?t = "t\<lparr>tr_links := AList.update ?i (track_link l) (tr_links t)\<rparr>"
  have s: "sim ?t (filter (\<lambda>x. li_Index x \<noteq> ?i) L @ [l], A, R)"
    using assms(1) entries_replace [of li_Index l ?i track_link L] by (simp add: sim_def update_conv' distinct_update)
  have c: "(case map_of (tr_links t) ?i of None \<Rightarrow> False | Some old \<Rightarrow> tl_up old \<and> \<not> link_up l)
      \<longleftrightarrow> (\<exists>x \<in> set L. li_Index x = ?i \<and> link_up x) \<and> \<not> link_up l"
    using known_link [of L ?i] assms by (auto simp: sim_def dump_wf_def split: option.splits)
  have f: "sim (fst (flushRoutes ?i False ?t)) (filter (\<lambda>x. li_Index x \<noteq> ?i) L @ [l], A, filter (\<lambda>r. \<not> flushed ?i False r) R)"
    using sim_flush [OF s] assms(2) by (simp add: dump_wf_def)
  show ?thesis
  proof (cases "(\<exists>x \<in> set L. li_Index x = ?i \<and> link_up x) \<and> \<not> link_up l")
    case True
    then show ?thesis using False f c by (simp add: applyLink_def dump_after_def Let_def split_beta)
  next
    case no: False
    then have "dump_after (LinkEvent action l) (L, A, R) = (filter (\<lambda>x. li_Index x \<noteq> ?i) L @ [l], A, R)"
      unfolding dump_after_def Let_def using False by auto
    moreover have "fst (applyLink action l t) = ?t"
      using c no False unfolding applyLink_def Let_def by simp
    ultimately show ?thesis using s by simp
  qed
qed

lemma sim_Apply:
  assumes "sim t d" "dump_wf d"
  shows "sim (fst (Apply ev t)) (dump_after ev d)"
proof -
  obtain L A R where d: "d = (L, A, R)" by (cases d) auto
  have del: "map_of (fst (deleteKey m k)) = (map_of m)(k := None)" for m :: "('k \<times> 'v) list" and k
    by (auto simp: deleteKey_def delete_conv')
  have dis: "distinct (map fst m) \<Longrightarrow> distinct (map fst (fst (deleteKey m k)))" for m :: "('k \<times> 'v) list" and k
    by (simp add: deleteKey_def distinct_delete)
  show ?thesis
  proof (cases ev)
    case (LinkEvent action l)
    then show ?thesis using sim_applyLink [of t L A R] assms d by (simp add: Apply_def)
  next
    case (AddrEvent action a)
    then show ?thesis using assms(1) entries_replace [of keyOfAddr a "keyOfAddr a" id A]
      by (simp add: d sim_def Apply_def dump_after_def Let_def split_beta del dis entries_delete update_conv' distinct_update)
  next
    case (RouteEvent action r)
    then show ?thesis using assms(1) entries_replace [of keyOfRoute r "keyOfRoute r" id R]
      by (simp add: d sim_def Apply_def dump_after_def Let_def split_beta del dis entries_delete update_conv' distinct_update)
  qed (use assms(1) in \<open>simp add: Apply_def dump_after_def d\<close>)
qed

definition run_events :: "rtnl_event list \<Rightarrow> Tracker \<Rightarrow> Tracker" where
  "run_events evs t = fold (\<lambda>ev t. fst (Apply ev t)) evs t"

lemma sim_run:
  "sim t d \<Longrightarrow> dump_wf d \<Longrightarrow> sim (run_events evs t) (fold dump_after evs d) \<and> dump_wf (fold dump_after evs d)"
  unfolding run_events_def
proof (induction evs arbitrary: t d)
  case (Cons ev evs)
  from Cons.IH [OF sim_Apply [OF Cons.prems] dump_wf_after [OF Cons.prems(2)]] show ?case by simp
qed simp

lemma keyed_run: "keyed t \<Longrightarrow> \<forall>ev \<in> set evs. event_ok ev \<Longrightarrow> keyed (run_events evs t)"
  unfolding run_events_def by (induction evs arbitrary: t) (simp_all add: keyed_Apply)

lemma sim_snapshot:
  assumes "sim t d" "sim u d"
  shows "tracker_Snapshot bt ka kr t = tracker_Snapshot bt ka kr u"
proof -
  have "map_of (tr_links t) = map_of (tr_links u)" "map_of (tr_addrs t) = map_of (tr_addrs u)" "map_of (tr_routes t) = map_of (tr_routes u)"
    using assms by (auto simp: sim_def split: prod.splits)
  then show ?thesis by (simp add: tracker_Snapshot_def map_values_def)
qed


text \<open>C16: a notification that \<open>Apply\<close> reports as no change changes no snapshot. In every state the
  tracker can be in after a dump and notifications, whatever the next one is, and in whatever order
  the maps are iterated, \<open>false\<close> means that a snapshot built after it equals the one built before.\<close>

theorem silent_notification_no_change:
  assumes "\<forall>a \<in> set addrs. addr_ok a" and "\<forall>ev \<in> set evs. event_ok ev" and "event_ok ev"
    and "t = run_events evs (Reset_tracker links addrs routes)" and "Apply ev t = (t', False)"
  shows "tracker_Snapshot bt ka kr t' = tracker_Snapshot bt ka kr t"
  using Apply_silent [OF keyed_run [OF keyed_Reset [OF assms(1)] assms(2)] assms(3)] assms(4,5) by blast

text \<open>A link with an address and a connected route, the notification of a changed lifetime of the
  route, and that of the link going down.\<close>

definition sample_link :: LinkInfo where
  "sample_link = \<lparr>li_Index = 2, li_Flags = 1, li_Name = ''eth0''\<rparr>"

lemma sample_dump_wf: "dump_wf ([sample_link], [sample_addr], [sample_route])"
  by code_simp

lemma sample_after:
  "fold dump_after [LinkEvent EventActionAdd (sample_link\<lparr>li_Flags := 0\<rparr>)] ([sample_link], [sample_addr], [sample_route])
     = ([sample_link\<lparr>li_Flags := 0\<rparr>], [sample_addr], [])"
  by code_simp


lemma sample_silent:
  "snd (Apply (RouteEvent EventActionAdd (sample_route\<lparr>ri_Expires := 7\<rparr>)) (run_events [] (Reset_tracker [sample_link] [sample_addr] [sample_route]))) = False"
  by code_simp

theorem silent_notification_no_change_witness:
  "\<exists>t'. Apply (RouteEvent EventActionAdd (sample_route\<lparr>ri_Expires := 7\<rparr>)) (run_events [] (Reset_tracker [sample_link] [sample_addr] [sample_route])) = (t', False)
     \<and> tracker_Snapshot list_table [] [keyOfRoute sample_route] t'
       = tracker_Snapshot list_table [] [keyOfRoute sample_route] (run_events [] (Reset_tracker [sample_link] [sample_addr] [sample_route]))"
proof -
  let ?ev = "RouteEvent EventActionAdd (sample_route\<lparr>ri_Expires := 7\<rparr>)"
  let ?t = "run_events [] (Reset_tracker [sample_link] [sample_addr] [sample_route])"
  have a: "Apply ?ev ?t = (fst (Apply ?ev ?t), False)" using sample_silent by (simp add: prod_eq_iff)
  have "\<forall>a \<in> set [sample_addr]. addr_ok a" "event_ok ?ev" by (simp_all add: addr_ok_def sample_addr_def event_ok_def)
  from silent_notification_no_change [OF this(1) _ this(2) refl a] a show ?thesis by fastforce
qed

end
