(* ===== verification/Spec2Isabelle.thy ===== *)
theory Spec2Isabelle
  imports Decode_Properties Dump_Tracker Namespace_Sockets Config_Service Locality_Tracker
begin

text \<open>
  A verification development for xtcp2, a daemon that polls the TCP sockets of every network
  namespace of a host through netlink and exports one flat record per socket. Paths below are
  under \<open>src/\<close>.

  \<^bold>\<open>The program.\<close> A poll loop (\<open>pkg/xtcp/poller.go\<close>) wakes up on a ticker or a request. It
  reconciles the set of tracked namespaces (\<open>pkg/xtcp/ns_*.go\<close>), starts an envelope, and sends a
  \<open>sock_diag\<close> dump request on the netlink socket of every namespace. A receiver and several
  decoders per socket (\<open>pkg/xtcp/netlinker.go\<close>) read the replies; each decoder turns every message
  into a flat record (\<open>pkg/xtcp/deserialize.go\<close> over the decoders of \<open>pkg/xtcpnl\<close>), enriches it
  (\<open>pkg/xtcp/enrich.go\<close>), streams it to gRPC clients and appends it to the envelope, which is
  flushed to the destination when it is full, when all dumps of the cycle are done, or on a
  timeout. A second netlink family, rtnetlink, serves the enrichment and the \<open>ip\<close>-like commands
  (\<open>pkg/xtcpnl/xtcpnl_rt*.go\<close>). A gRPC service reads and changes the configuration
  (\<open>pkg/xtcp/grpc_configService.go\<close>) behind an authorisation policy (\<open>pkg/listenerauth\<close>).

  \<^bold>\<open>Theories.\<close> In the order of the code's layers:
  \<^item> \<open>Prelude\<close>: bytes, Go slices and fixed-width reads and writes with their panics as \<open>None\<close>.
  \<^item> \<open>Netlink_Header\<close>: \<open>calculatePad.go\<close>, \<open>xtcpnl_RTAttr.go\<close>, \<open>xtcpnl_nl_msg_hdr.go\<close>, and the error
    values of the package.
  \<^item> \<open>Flat_Record\<close>: the struct \<open>XtcpFlatRecord\<close> of \<open>gen/go/xtcp_flat_record\<close>, group by group.
  \<^item> \<open>Inet_Diag\<close>, \<open>Tcp_Info\<close>: every \<open>sock_diag\<close> payload decoder in its two forms (into a struct of its
    own, and into the flat record); the locales \<open>attr_decoder\<close>, \<open>twin_decoder\<close> and \<open>tcp_part\<close> state
    what the two forms promise each other and are interpreted on all of them. The lemmas show that
    the two forms agree on every payload and that the message decoder inverts the kernel's layout.
  \<^item> \<open>Wire_Format\<close>: the generated sizing and marshalling of record and envelope; a marshalled
    envelope fills exactly the buffer that was sized for it.
  \<^item> \<open>Envelope\<close>: append, the two halves of a flush and the start of a poll, as steps of any number of
    threads; every row is delivered, dropped or replaced exactly once, and the caps hold up to one
    row per decoder.
  \<^item> \<open>Enrich\<close>: the stamping of containers, namespaces, uplinks, locality and ASN.
  \<^item> \<open>Deserialize\<close>, \<open>Decode_Refinement\<close>, \<open>Decode_Frames\<close>, \<open>Decode_Properties\<close>: the decode loop with its
    registry, pools and counters; it refines a specification that maps a packet to its records.
  \<^item> \<open>Rtattr\<close>, \<open>Rtnl_Request\<close>, \<open>Rtnl_Dump\<close>: the attribute encoder with nests and the walker, which are
    inverse; both type gates and all request builders; the dump driver and the strict walk. The
    locale \<open>attr_put\<close> is the contract of the append operations.
  \<^item> \<open>Rtnl_Route\<close>: the decoders of address and route messages (\<open>xtcpnl_ifaddrmsg.go\<close>, \<open>xtcpnl_rtmsg.go\<close>,
    \<open>xtcpnl_rtnexthop.go\<close>, \<open>xtcpnl_rta_*.go\<close>); they return on all bytes, and what they return is the
    message. The locale \<open>attr_field\<close> is a field that one attribute sets.
  \<^item> \<open>Locality\<close>: the classification of a destination as self, subnet or remote from the addresses and
    routes of a namespace (\<open>pkg/localnet/localnet.go\<close>); longest prefix first, and each class only for
    the reasons the code gives. The prefix table is a parameter with the laws \<open>bart_laws\<close>.
  \<^item> \<open>Locality_Tracker\<close>: the fold of rtnetlink notifications into that snapshot
    (\<open>pkg/localnet/tracker.go\<close>); it agrees with a dump taken later, and a notification reported as no
    change is none. The order in which Go iterates over a map is an argument.
  \<^item> \<open>Dump_Tracker\<close>: numbering of packets, detection of the end of a dump, and the done signal.
  \<^item> \<open>Namespaces\<close>, \<open>Namespace_Sockets\<close>: discovery, reconcile, the retry loops, and the goroutine of a
    namespace in the pieces between which others can run; a socket in the map was opened in the
    namespace it is filed under.
  \<^item> \<open>Timing\<close>: jitter, percentages, intervals and backoff windows at 64 bits.
  \<^item> \<open>Diag_Request\<close>: the dump request and its sequence number.
  \<^item> \<open>Poller\<close>: every handler of the poll loop, run against decoders, namespace changes and failing
    sends in any order; it rests on the invariants of \<open>Envelope\<close> and \<open>Namespaces\<close>.
  \<^item> \<open>Sha256\<close>, \<open>Listener_Auth\<close>: the signing primitives of Go's library and both files of
    \<open>pkg/listenerauth\<close>.
  \<^item> \<open>Config_Service\<close>: every handler of the configuration service and the burst runner.
  \<^item> This theory: the configuration service behind the policy.

  \<^bold>\<open>Correspondence.\<close> Definitions have the names of the functions they model. A Go function that can
  panic returns an \<open>option\<close>, an error is a value of a datatype, a struct is a record, and a machine
  integer is a word or an integer wrapped where the code can overflow. Shared state is a record that
  is passed on; goroutines are step relations (\<open>env_reach\<close>, \<open>dump_reach\<close>, \<open>ns_reach\<close>, \<open>poll_reach\<close>) whose
  steps are the code between two points where another goroutine can observe it. A counter increment
  is kept. What the kernel, a clock, a random source or a lookup returns is an argument.

  \<^bold>\<open>Bounds and fuel.\<close> No definition has fuel: loops are recursive functions with a termination
  measure, the modulus loop of the decoder included, and the number of decoders, sockets, packets
  and steps is arbitrary. Lengths are natural numbers where the code's \<open>int\<close> cannot overflow because
  a buffer bounds them.

  \<^bold>\<open>Not modelled.\<close> The rtnetlink payload decoders other than those of addresses and routes (some
  thirteen thousand lines, one decoder per attribute set, over the walkers that are modelled). The destinations (Kafka, NATS, NSQ, Valkey, HTTP,
  UDP, Unix, S3 parquet), the io_uring receiver, the \<open>/proc\<close> and sysfs readers, Docker and lldpd clients,
  the ASN tables and the goroutines that refresh the locality snapshots: they are client libraries, system calls and shared memory, and enter as
  arguments where the modelled code calls them. The link monitor, the \<open>ip\<close> and \<open>rdma\<close> command clones, the
  parity and audit tools, flag parsing and record printing: separate programs and text front ends over
  the decoders. Prometheus histograms and log output. Request validation (\<open>protovalidate\<close>) and
  protobuf reflection are third-party code.
\<close>

section \<open>The configuration service behind its policy\<close>

text \<open>C9: only the admin credential changes the daemon. When an admin credential is configured and
  a call to the configuration service does not present it, then, whatever the method, its arguments
  and the read credential: the configuration stays, nothing is sent to the poller, the burst runner
  or the S3 worker, and nothing goes to the restart hook. If such a call is answered at all it was
  \<open>Get\<close>, by a caller with the read credential or with none configured, and the configuration in the
  answer carries no secret.\<close>

theorem only_admin_changes_the_daemon:
  assumes policy: "NewPolicy readAuth adminAuth grpcMethodAccess = Inr p" and split: "auth_Enabled (p_admin p)"
    and out: "\<not> accepted clock (p_admin p) (md_values md)"
    and run: "grpc_call draw clock p md e c rq s = Some (t, r)"
  shows "untouched c InvalidArgument s t \<and> s_config t = s_config s
    \<and> (\<forall>cfg. r = Inr (Inr (ConfigReply cfg)) \<longrightarrow>
         rq = GetRequest \<and> no_secret cfg \<and> (\<not> auth_Enabled (p_read p) \<or> accepted clock (p_read p) (md_values md)))"
proof -
  obtain code delay where a: "authorizeGRPC draw clock p md (method_of rq) = Some (code, delay)"
    and t: "(t, r) = (if code \<noteq> OK then (s, Inl code) else map_prod id Inr (serve e c rq s))"
    using run by (auto simp: grpc_call_def UnaryServerInterceptor_def split: bind_splits)
  show ?thesis
  proof (cases "code = OK")
    case False
    then show ?thesis using t by (simp add: untouched_def)
  next
    case True
    then have "may_call clock p (md_values md) (rq = GetRequest)"
      using authorize_ok [OF a] config_access [of rq] NewPolicy_methods [OF policy] by simp
    then have rq: "rq = GetRequest" "\<not> auth_Enabled (p_read p) \<or> accepted clock (p_read p) (md_values md)"
      using split out by (auto simp: may_call_def Let_def)
    have "t = fst (Get e s)" "r = Inr (snd (Get e s))" using t True rq(1) by (auto simp: serve_def map_prod_def split: prod.splits)
    then show ?thesis using rq Get_frame [of c InvalidArgument s e] safe_Get [of s e]
      by (auto simp: secret_safe_def)
  qed
qed

theorem only_admin_changes_the_daemon_witness:
  "\<exists>t. grpc_call (\<lambda>n. Inr 0) 0 (projr (NewPolicy (Some (wit_listener ''r'')) (Some (wit_listener ''a'')) grpcMethodAccess))
      (Some [''Bearer r'']) wit_process wit_call TriggerPollRequest wit_service = Some (t, Inl PermissionDenied)
    \<and> s_pollRequestCh t = 0 \<and> s_config t = wit_config"
proof -
  define p where "p = projr (NewPolicy (Some (wit_listener ''r'')) (Some (wit_listener ''a'')) grpcMethodAccess)"
  have p: "NewPolicy (Some (wit_listener ''r'')) (Some (wit_listener ''a'')) grpcMethodAccess = Inr p"
    unfolding p_def by (simp add: NewPolicy_def newWithClock_def wit_listener_def GetSignedTokenSkewMinutes_def
      durationOrDefault_def DefaultFailureJitterMin_def DefaultFailureJitterMax_def Let_def)
  have adm: "auth_Enabled (p_admin p)" unfolding p_def by code_simp
  have out: "AuthenticateValues 0 (p_admin p) [''Bearer r''] \<noteq> None" unfolding p_def by code_simp
  have "map_option snd (grpc_call (\<lambda>n. Inr 0) 0 p (Some [''Bearer r'']) wit_process wit_call TriggerPollRequest wit_service)
      = Some (Inl PermissionDenied)" unfolding p_def by code_simp
  then obtain t where t: "grpc_call (\<lambda>n. Inr 0) 0 p (Some [''Bearer r'']) wit_process wit_call TriggerPollRequest wit_service
      = Some (t, Inl PermissionDenied)" by auto
  have "\<not> accepted 0 (p_admin p) (md_values (Some [''Bearer r'']))"
    using out unfolding AuthenticateValues_iff by simp
  then have "untouched wit_call InvalidArgument wit_service t \<and> s_config t = s_config wit_service"
    using only_admin_changes_the_daemon [OF p adm _ t] by blast
  then show ?thesis using t unfolding p_def by (auto simp: untouched_def wit_service_def)
qed

end
